(* ===== verification/Fabric_Prelude.thy ===== *)
theory Fabric_Prelude
  imports
    "HOL-Library.Word"
    "HOL-Library.Code_Target_Nat"
    "HOL-Library.Multiset"
    "HOL-Library.Char_ord"
    "HOL-Library.List_Lexorder"
begin

text \<open>
  Shared vocabulary of the development: the machine integer types of the sources, the
  ordered dictionary that stands for \<open>std::map\<close>, the comparator sort that stands for
  \<open>std::sort\<close> and \<open>std::stable_sort\<close>, decimal printing (\<open>std::to_string\<close> and
  \<open>operator<<\<close> on integers), and the lemma collections the component theories use.

  \<^item> An ordered dictionary is an association list in strictly increasing key order, so
    that iterating the list is iterating the \<open>std::map\<close>. \<open>om_ok\<close> is its invariant,
    and every operation keeps it.
  \<^item> \<open>stable_sort\<close> is insertion sort under a C++ comparator. The locale
    \<open>strict_weak_order\<close> is the contract the C++ standard puts on a comparator; the
    sorting facts are proved once inside it.
\<close>

section \<open>Machine integers\<close>

type_synonym u8 = "8 word"
type_synonym u16 = "16 word"
type_synonym u32 = "32 word"
type_synonym u64 = "64 word"

type_synonym bytes = "u8 list"

text \<open>An equation by which small word literals evaluate without a power of two.\<close>

lemma take_bit_small [code]:
  "take_bit n (k :: int) = (if 0 \<le> k \<and> k < 65536 \<and> 16 \<le> n then k else k mod 2 ^ n)"
proof -
  have "k < 2 ^ n" if "k < 65536" "16 \<le> n"
    using that power_increasing [of 16 n "2 :: int"] by simp
  then show ?thesis
    by (simp add: take_bit_eq_mod)
qed

section \<open>Lemma collections\<close>

named_theorems om_simps \<open>lookup equations of the ordered dictionary\<close>
named_theorems om_intros \<open>preservation of the dictionary invariant\<close>

section \<open>Ordered dictionaries\<close>

type_synonym ('k, 'v) omap = "('k \<times> 'v) list"

definition om_ok :: "('k::linorder, 'v) omap \<Rightarrow> bool" where
  "om_ok m \<longleftrightarrow> sorted_wrt (<) (map fst m)"

definition om_find :: "('k, 'v) omap \<Rightarrow> 'k \<Rightarrow> 'v option" where
  "om_find m k = map_of m k"

definition om_count :: "('k, 'v) omap \<Rightarrow> 'k \<Rightarrow> bool" where
  "om_count m k \<longleftrightarrow> om_find m k \<noteq> None"

fun om_insert :: "'k::linorder \<Rightarrow> 'v \<Rightarrow> ('k, 'v) omap \<Rightarrow> ('k, 'v) omap" where
  "om_insert k v [] = [(k, v)]"
| "om_insert k v (e # m) =
     (if fst e < k then e # om_insert k v m
      else if fst e = k then (k, v) # m
      else (k, v) # e # m)"

definition om_erase :: "'k \<Rightarrow> ('k, 'v) omap \<Rightarrow> ('k, 'v) omap" where
  "om_erase k m = filter (\<lambda>e. fst e \<noteq> k) m"

definition om_erase_if :: "('v \<Rightarrow> bool) \<Rightarrow> ('k, 'v) omap \<Rightarrow> ('k, 'v) omap" where
  "om_erase_if P m = filter (\<lambda>e. \<not> P (snd e)) m"

definition om_erase_keys :: "('k \<Rightarrow> bool) \<Rightarrow> ('k, 'v) omap \<Rightarrow> ('k, 'v) omap" where
  "om_erase_keys P m = filter (\<lambda>e. \<not> P (fst e)) m"

definition om_map :: "('v \<Rightarrow> 'w) \<Rightarrow> ('k, 'v) omap \<Rightarrow> ('k, 'w) omap" where
  "om_map f m = map (\<lambda>e. (fst e, f (snd e))) m"

definition om_values :: "('k, 'v) omap \<Rightarrow> 'v list" where
  "om_values m = map snd m"

text \<open>Updating one entry in place through an iterator; a missing key changes nothing.\<close>

definition om_update :: "'k \<Rightarrow> ('v \<Rightarrow> 'v) \<Rightarrow> ('k, 'v) omap \<Rightarrow> ('k, 'v) omap" where
  "om_update k f m = map (\<lambda>e. if fst e = k then (fst e, f (snd e)) else e) m"

text \<open>Storing a whole vector of records, each under its own key.\<close>

definition om_insert_all :: "('v \<Rightarrow> 'k::linorder) \<Rightarrow> 'v list \<Rightarrow> ('k, 'v) omap \<Rightarrow> ('k, 'v) omap" where
  "om_insert_all key vs m = fold (\<lambda>v. om_insert (key v) v) vs m"

text \<open>Every entry is stored under the key its value names.\<close>

definition om_keyed :: "('v \<Rightarrow> 'k) \<Rightarrow> ('k, 'v) omap \<Rightarrow> bool" where
  "om_keyed key m \<longleftrightarrow> (\<forall>e \<in> set m. key (snd e) = fst e)"

subsection \<open>Lookup\<close>

lemma om_find_Nil [simp]: "om_find [] k = None"
  by (simp add: om_find_def)

lemma om_find_insert [simp, om_simps]:
  "om_find (om_insert k v m) j = (if j = k then Some v else om_find m j)"
  by (induction m) (auto simp: om_find_def)

lemma om_find_erase [simp, om_simps]:
  "om_find (om_erase k m) j = (if j = k then None else om_find m j)"
  by (induction m) (auto simp: om_find_def om_erase_def)

lemma om_find_map [simp, om_simps]: "om_find (om_map f m) k = map_option f (om_find m k)"
  by (induction m) (auto simp: om_find_def om_map_def)

lemma om_find_update [simp, om_simps]:
  "om_find (om_update k f m) j = (if j = k then map_option f (om_find m j) else om_find m j)"
  by (induction m) (auto simp: om_find_def om_update_def)

lemma om_find_erase_keys [simp, om_simps]:
  "om_find (om_erase_keys P m) k = (if P k then None else om_find m k)"
  by (induction m) (auto simp: om_find_def om_erase_keys_def)

lemma om_find_Some_in: "om_find m k = Some v \<Longrightarrow> (k, v) \<in> set m"
  by (simp add: om_find_def map_of_SomeD)

lemma om_ok_distinct: "om_ok m \<Longrightarrow> distinct (map fst m)"
  unfolding om_ok_def using strict_sorted_iff by blast

lemma om_find_eq_Some: "om_ok m \<Longrightarrow> om_find m k = Some v \<longleftrightarrow> (k, v) \<in> set m"
  by (simp add: om_find_def om_ok_distinct)

lemma om_count_iff: "om_count m k \<longleftrightarrow> k \<in> fst ` set m"
  by (simp add: om_count_def om_find_def map_of_eq_None_iff)

lemma om_find_erase_if:
  "om_ok m \<Longrightarrow> om_find (om_erase_if P m) k =
     (case om_find m k of None \<Rightarrow> None | Some v \<Rightarrow> if P v then None else Some v)"
proof (induction m)
  case Nil
  then show ?case by (simp add: om_erase_if_def)
next
  case (Cons e m)
  then have "om_ok m" and fresh: "fst e \<notin> fst ` set m"
    by (auto simp: om_ok_def)
  with Cons.IH have IH: "om_find (om_erase_if P m) k =
      (case om_find m k of None \<Rightarrow> None | Some v \<Rightarrow> if P v then None else Some v)"
    by simp
  have "om_find m (fst e) = None"
    using fresh by (simp add: om_find_def map_of_eq_None_iff)
  with IH show ?case
    by (cases e) (auto simp: om_find_def om_erase_if_def)
qed

lemma om_find_insert_all:
  "om_find (om_insert_all key vs m) k =
     (case find (\<lambda>v. key v = k) (rev vs) of None \<Rightarrow> om_find m k | Some v \<Rightarrow> Some v)"
  unfolding om_insert_all_def
proof (induction vs rule: rev_induct)
  case Nil
  then show ?case by simp
next
  case (snoc v vs)
  then show ?case by simp
qed

subsection \<open>The key order\<close>

lemma om_ok_Nil [simp, om_intros]: "om_ok []"
  by (simp add: om_ok_def)

lemma om_keys_insert: "fst ` set (om_insert k v m) = insert k (fst ` set m)"
  by (induction m) auto

lemma om_ok_insert [simp, om_intros]: "om_ok m \<Longrightarrow> om_ok (om_insert k v m)"
proof (induction m)
  case Nil
  then show ?case by (simp add: om_ok_def)
next
  case (Cons e m)
  then have "om_ok (om_insert k v m)" and rest: "\<forall>x \<in> fst ` set m. fst e < x"
    by (auto simp: om_ok_def)
  moreover have "fst e < k \<Longrightarrow> \<forall>x \<in> fst ` set (om_insert k v m). fst e < x"
    using rest by (simp add: om_keys_insert)
  ultimately show ?case
    using Cons.prems by (fastforce simp: om_ok_def)
qed

lemma om_ok_filter: "om_ok m \<Longrightarrow> om_ok (filter P m)"
  unfolding om_ok_def sorted_wrt_map by (rule sorted_wrt_filter)

lemma om_ok_erase [simp, om_intros]: "om_ok m \<Longrightarrow> om_ok (om_erase k m)"
  by (simp add: om_erase_def om_ok_filter)

lemma om_ok_erase_if [simp, om_intros]: "om_ok m \<Longrightarrow> om_ok (om_erase_if P m)"
  by (simp add: om_erase_if_def om_ok_filter)

lemma om_ok_erase_keys [simp, om_intros]: "om_ok m \<Longrightarrow> om_ok (om_erase_keys P m)"
  by (simp add: om_erase_keys_def om_ok_filter)

lemma om_keys_map [simp]: "map fst (om_map f m) = map fst m"
  by (simp add: om_map_def)

lemma om_keys_update [simp]: "map fst (om_update k f m) = map fst m"
  by (simp add: om_update_def)

lemma om_ok_map [simp, om_intros]: "om_ok (om_map f m) = om_ok m"
  by (simp add: om_ok_def)

lemma om_ok_update [simp, om_intros]: "om_ok (om_update k f m) = om_ok m"
  by (simp add: om_ok_def)

lemma om_ok_insert_all [simp, om_intros]: "om_ok m \<Longrightarrow> om_ok (om_insert_all key vs m)"
  unfolding om_insert_all_def by (induction vs arbitrary: m) simp_all

subsection \<open>Sizes\<close>

lemma length_om_insert: "length (om_insert k v m) \<le> Suc (length m)"
  by (induction m) auto

lemma length_om_map [simp]: "length (om_map f m) = length m"
  by (simp add: om_map_def)

lemma length_om_update [simp]: "length (om_update k f m) = length m"
  by (simp add: om_update_def)

lemma length_om_erase: "length (om_erase k m) \<le> length m"
  by (simp add: om_erase_def)

lemma length_om_erase_if: "length (om_erase_if P m) \<le> length m"
  by (simp add: om_erase_if_def)

subsection \<open>Entries and their own keys\<close>

lemma om_keyed_Nil [simp, om_intros]: "om_keyed key []"
  by (simp add: om_keyed_def)

lemma om_set_insert: "set (om_insert k v m) \<subseteq> insert (k, v) (set m)"
  by (induction m) auto

lemma om_keyed_insert [simp, om_intros]:
  "om_keyed key m \<Longrightarrow> key v = k \<Longrightarrow> om_keyed key (om_insert k v m)"
  using om_set_insert [of k v m] by (fastforce simp: om_keyed_def)

lemma om_keyed_erase [simp, om_intros]: "om_keyed key m \<Longrightarrow> om_keyed key (om_erase k m)"
  by (simp add: om_keyed_def om_erase_def)

lemma om_keyed_erase_if [simp, om_intros]: "om_keyed key m \<Longrightarrow> om_keyed key (om_erase_if P m)"
  by (simp add: om_keyed_def om_erase_if_def)

lemma om_keyed_erase_keys [simp, om_intros]:
  "om_keyed key m \<Longrightarrow> om_keyed key (om_erase_keys P m)"
  by (simp add: om_keyed_def om_erase_keys_def)

lemma om_keyed_map [om_intros]:
  "om_keyed key m \<Longrightarrow> (\<And>v. key (f v) = key v) \<Longrightarrow> om_keyed key (om_map f m)"
  by (auto simp: om_keyed_def om_map_def)

lemma om_keyed_update [om_intros]:
  "om_keyed key m \<Longrightarrow> (\<And>v. key (f v) = key v) \<Longrightarrow> om_keyed key (om_update k f m)"
  by (auto simp: om_keyed_def om_update_def)

lemma om_keyed_insert_all [simp, om_intros]:
  "om_keyed key m \<Longrightarrow> om_keyed key (om_insert_all key vs m)"
  unfolding om_insert_all_def by (induction vs arbitrary: m) simp_all

lemma om_keyed_find: "om_keyed key m \<Longrightarrow> om_find m k = Some v \<Longrightarrow> key v = k"
  by (fastforce simp: om_keyed_def dest: om_find_Some_in)

text \<open>Re-inserting the values of a dictionary into an empty one gives it back.\<close>

lemma om_insert_last:
  "\<forall>x \<in> fst ` set m. x < k \<Longrightarrow> om_insert k v m = m @ [(k, v)]"
  by (induction m) auto

lemma om_insert_all_values:
  assumes "om_ok m" and "om_keyed key m"
  shows "om_insert_all key (om_values m) [] = m"
  using assms
proof (induction m rule: rev_induct)
  case Nil
  then show ?case by (simp add: om_insert_all_def om_values_def)
next
  case (snoc e m)
  then have ok: "om_ok m" and keyed: "om_keyed key m" and "key (snd e) = fst e"
    and less: "\<forall>x \<in> fst ` set m. x < fst e"
    by (auto simp: om_ok_def om_keyed_def sorted_wrt_append)
  then show ?case
    using snoc.IH [OF ok keyed] om_insert_last [OF less]
    by (simp add: om_insert_all_def om_values_def)
qed

section \<open>Sorting under a comparator\<close>

fun insert_sorted :: "('a \<Rightarrow> 'a \<Rightarrow> bool) \<Rightarrow> 'a \<Rightarrow> 'a list \<Rightarrow> 'a list" where
  "insert_sorted lt x [] = [x]"
| "insert_sorted lt x (y # ys) =
     (if lt y x then y # insert_sorted lt x ys else x # y # ys)"

definition stable_sort :: "('a \<Rightarrow> 'a \<Rightarrow> bool) \<Rightarrow> 'a list \<Rightarrow> 'a list" where
  "stable_sort lt xs = foldr (insert_sorted lt) xs []"

lemma mset_insert_sorted [simp]: "mset (insert_sorted lt x ys) = add_mset x (mset ys)"
  by (induction ys) auto

lemma mset_stable_sort [simp]: "mset (stable_sort lt xs) = mset xs"
  by (induction xs) (auto simp: stable_sort_def)

lemma set_stable_sort [simp]: "set (stable_sort lt xs) = set xs"
  by (metis mset_stable_sort set_mset_mset)

lemma length_stable_sort [simp]: "length (stable_sort lt xs) = length xs"
  by (metis mset_stable_sort size_mset)

lemma stable_sort_Nil_iff [simp]: "stable_sort lt xs = [] \<longleftrightarrow> xs = []"
  by (metis length_0_conv length_stable_sort)

text \<open>
  What the C++ standard asks of a comparator: a strict weak order. Under it the sort
  orders the list (no element is less than one before it) and keeps the relative order of
  equivalent elements.
\<close>

locale strict_weak_order =
  fixes lt :: "'a \<Rightarrow> 'a \<Rightarrow> bool"
  assumes lt_irrefl: "\<not> lt x x"
    and lt_trans: "lt x y \<Longrightarrow> lt y z \<Longrightarrow> lt x z"
    and incomparable_trans:
      "\<not> lt x y \<Longrightarrow> \<not> lt y x \<Longrightarrow> \<not> lt y z \<Longrightarrow> \<not> lt z y \<Longrightarrow> \<not> lt x z \<and> \<not> lt z x"
begin

lemma lt_asym: "lt x y \<Longrightarrow> \<not> lt y x"
  using lt_irrefl lt_trans by blast

lemma not_lt_trans: "\<not> lt y x \<Longrightarrow> \<not> lt z y \<Longrightarrow> \<not> lt z x"
  using lt_trans lt_asym incomparable_trans by metis

lemma sorted_insert_sorted:
  "sorted_wrt (\<lambda>a b. \<not> lt b a) ys \<Longrightarrow> sorted_wrt (\<lambda>a b. \<not> lt b a) (insert_sorted lt x ys)"
proof (induction ys)
  case Nil
  then show ?case by simp
next
  case (Cons y ys)
  have "set (insert_sorted lt x ys) = insert x (set ys)"
    by (metis mset_insert_sorted set_mset_add_mset_insert set_mset_mset)
  moreover have "\<not> lt y x \<Longrightarrow> z \<in> set ys \<Longrightarrow> \<not> lt z x" for z
    using Cons.prems not_lt_trans by auto
  ultimately show ?case
    using Cons by (cases "lt y x") (auto dest: lt_asym)
qed

lemma sorted_stable_sort: "sorted_wrt (\<lambda>a b. \<not> lt b a) (stable_sort lt xs)"
  unfolding stable_sort_def by (induction xs) (simp_all add: sorted_insert_sorted)

lemma stable_sort_hd_least:
  assumes "stable_sort lt xs = y # ys" and "z \<in> set xs"
  shows "\<not> lt z y"
proof -
  have "z \<in> set (y # ys)"
    using assms set_stable_sort [of lt xs] by simp
  then show ?thesis
    using sorted_stable_sort [of xs] assms(1) lt_irrefl by auto
qed

definition equiv_to :: "'a \<Rightarrow> 'a \<Rightarrow> bool" where
  "equiv_to a b \<longleftrightarrow> \<not> lt a b \<and> \<not> lt b a"

lemma filter_insert_sorted:
  "filter (equiv_to a) (insert_sorted lt x ys) =
     (if equiv_to a x then x # filter (equiv_to a) ys else filter (equiv_to a) ys)"
proof (induction ys)
  case Nil
  then show ?case by simp
next
  case (Cons y ys)
  have "lt y x \<Longrightarrow> equiv_to a x \<Longrightarrow> \<not> equiv_to a y"
    unfolding equiv_to_def using incomparable_trans by blast
  with Cons show ?case by auto
qed

lemma stable_sort_stable: "filter (equiv_to a) (stable_sort lt xs) = filter (equiv_to a) xs"
  unfolding stable_sort_def by (induction xs) (simp_all add: filter_insert_sorted)

end

text \<open>
  Two sorted arrangements of the same elements are equal when no two distinct elements are
  equivalent: the result then does not depend on the order of the input.
\<close>

context strict_weak_order
begin

lemma sorted_unique:
  assumes "sorted_wrt (\<lambda>a b. \<not> lt b a) xs" and "sorted_wrt (\<lambda>a b. \<not> lt b a) ys"
    and "mset xs = mset ys"
    and "\<And>a b. a \<in> set xs \<Longrightarrow> b \<in> set xs \<Longrightarrow> equiv_to a b \<Longrightarrow> a = b"
  shows "xs = ys"
  using assms
proof (induction xs arbitrary: ys)
  case Nil
  then show ?case by simp
next
  case (Cons x xs)
  then obtain y ys' where ys: "ys = y # ys'"
    by (metis mset_zero_iff neq_Nil_conv)
  have sets: "set (x # xs) = set ys"
    using Cons.prems(3) by (metis set_mset_mset)
  have "y \<in> set (x # xs)" and "x \<in> set (y # ys')"
    using sets ys by (metis list.set_intros(1))+
  then have "\<not> lt y x" and "\<not> lt x y" and "y \<in> set (x # xs)"
    using Cons.prems(1,2) ys lt_irrefl by auto
  then have "x = y"
    using Cons.prems(4) [of x y] by (simp add: equiv_to_def)
  moreover have "xs = ys'"
    using Cons.IH [of ys'] Cons.prems ys \<open>x = y\<close> by simp
  ultimately show ?case
    using ys by simp
qed

lemma stable_sort_perm:
  assumes "mset xs = mset ys"
    and "\<And>a b. a \<in> set xs \<Longrightarrow> b \<in> set xs \<Longrightarrow> equiv_to a b \<Longrightarrow> a = b"
  shows "stable_sort lt xs = stable_sort lt ys"
  by (rule sorted_unique) (use assms sorted_stable_sort in auto)

end

text \<open>A comparator that compares keys of a linear order is a strict weak order.\<close>

lemma strict_weak_order_key:
  "strict_weak_order (\<lambda>a b. (key a :: 'k::linorder) < key b)"
  by unfold_locales auto

section \<open>Decimal printing\<close>

definition digit_char :: "nat \<Rightarrow> char" where
  "digit_char d = char_of (48 + d)"

fun nat_to_string :: "nat \<Rightarrow> string" where
  "nat_to_string n =
     (if n < 10 then [digit_char n] else nat_to_string (n div 10) @ [digit_char (n mod 10)])"

declare nat_to_string.simps [simp del]

definition u64_to_string :: "u64 \<Rightarrow> string" where
  "u64_to_string w = nat_to_string (unat w)"

definition digit_val :: "char \<Rightarrow> nat" where
  "digit_val c = of_char c - 48"

definition string_to_nat :: "string \<Rightarrow> nat" where
  "string_to_nat s = foldl (\<lambda>n c. 10 * n + digit_val c) 0 s"

lemma digit_val_char [simp]: "d < 10 \<Longrightarrow> digit_val (digit_char d) = d"
  by (simp add: digit_val_def digit_char_def)

lemma string_to_nat_to_string [simp]: "string_to_nat (nat_to_string n) = n"
proof (induction n rule: nat_to_string.induct)
  case (1 n)
  then show ?case
    by (cases "n < 10") (simp_all add: nat_to_string.simps [of n] string_to_nat_def)
qed

lemma nat_to_string_inject [simp]: "nat_to_string m = nat_to_string n \<longleftrightarrow> m = n"
  by (metis string_to_nat_to_string)

lemma u64_to_string_inject [simp]: "u64_to_string v = u64_to_string w \<longleftrightarrow> v = w"
  by (simp add: u64_to_string_def word_unat_eq_iff)

definition is_digit :: "char \<Rightarrow> bool" where
  "is_digit c \<longleftrightarrow> 48 \<le> (of_char c :: nat) \<and> (of_char c :: nat) < 58"

lemma is_digit_digit_char [simp]: "d < 10 \<Longrightarrow> is_digit (digit_char d)"
  by (simp add: is_digit_def digit_char_def)

lemma nat_to_string_digits: "list_all is_digit (nat_to_string n)"
proof (induction n rule: nat_to_string.induct)
  case (1 n)
  then show ?case
    by (cases "n < 10") (simp_all add: nat_to_string.simps [of n])
qed

lemma nat_to_string_nonempty [simp]: "nat_to_string n \<noteq> []"
  by (subst nat_to_string.simps) simp

end
