(* ===== verification/Fabric_Identity.thy ===== *)
theory Fabric_Identity
  imports Fabric_Prelude
begin

text \<open>
  Typed identities and generations (\<open>identity.h\<close>, \<open>generation.h\<close>), resource bounds
  (\<open>limits.h\<close>) and version constants (\<open>version.h\<close>).

  The C++ templates \<open>Id<Tag>\<close>, \<open>StringId<Tag>\<close> and \<open>Gen<Tag>\<close> are datatypes with a
  phantom parameter, so that identities of different kinds are different types here too.
  Identities are ordered by their value, as the defaulted comparison orders them; a port
  is ordered by its switch, then its index. A generation is a 64-bit counter whose
  \<open>next\<close> wraps around.
\<close>

section \<open>Integer and string identities\<close>

datatype 'tag Id = MkId (get: u64)

datatype 'tag StringId = MkStringId (sid_value: string)

datatype 'tag Gen = MkGen (gen_get: u64)

definition gen_next :: "'tag Gen \<Rightarrow> 'tag Gen" where
  "gen_next g = MkGen (gen_get g + 1)"

instantiation Id :: (type) linorder
begin
definition less_eq_Id :: "'a Id \<Rightarrow> 'a Id \<Rightarrow> bool" where
  "less_eq_Id a b \<longleftrightarrow> get a \<le> get b"
definition less_Id :: "'a Id \<Rightarrow> 'a Id \<Rightarrow> bool" where
  "less_Id a b \<longleftrightarrow> get a < get b"
instance
  by standard (auto simp: less_eq_Id_def less_Id_def intro: Id.expand)
end

instantiation StringId :: (type) linorder
begin
definition less_eq_StringId :: "'a StringId \<Rightarrow> 'a StringId \<Rightarrow> bool" where
  "less_eq_StringId a b \<longleftrightarrow> sid_value a \<le> sid_value b"
definition less_StringId :: "'a StringId \<Rightarrow> 'a StringId \<Rightarrow> bool" where
  "less_StringId a b \<longleftrightarrow> sid_value a < sid_value b"
instance
  by standard (auto simp: less_eq_StringId_def less_StringId_def intro: StringId.expand)
end

instantiation Gen :: (type) linorder
begin
definition less_eq_Gen :: "'a Gen \<Rightarrow> 'a Gen \<Rightarrow> bool" where
  "less_eq_Gen a b \<longleftrightarrow> gen_get a \<le> gen_get b"
definition less_Gen :: "'a Gen \<Rightarrow> 'a Gen \<Rightarrow> bool" where
  "less_Gen a b \<longleftrightarrow> gen_get a < gen_get b"
instance
  by standard (auto simp: less_eq_Gen_def less_Gen_def intro: Gen.expand)
end

datatype DevTag = DevTag
datatype SwTag = SwTag
datatype FabTag = FabTag
datatype PartTag = PartTag
datatype SnapTag = SnapTag
datatype LinkTag = LinkTag
datatype PathTag = PathTag
datatype WorkerTag = WorkerTag
datatype RouteTag = RouteTag
datatype ObsTag = ObsTag
datatype MeasTag = MeasTag
datatype PolicyTag = PolicyTag

type_synonym DeviceId = "DevTag Id"
type_synonym SwitchId = "SwTag Id"
type_synonym FabricId = "FabTag StringId"
type_synonym PartitionId = "PartTag StringId"
type_synonym TopologySnapshotId = "SnapTag StringId"
type_synonym LinkId = "LinkTag Id"
type_synonym PathId = "PathTag Id"
type_synonym WorkerId = "WorkerTag StringId"
type_synonym RouteDecisionId = "RouteTag Id"
type_synonym ObservationId = "ObsTag Id"
type_synonym MeasurementId = "MeasTag Id"
type_synonym PolicyId = "PolicyTag StringId"

type_synonym CoordinatorEpoch = u64
type_synonym WorkerBootId = u64

datatype FabGenTag = FabGenTag
datatype TopoGenTag = TopoGenTag
datatype SwGenTag = SwGenTag
datatype PortGenTag = PortGenTag
datatype PartGenTag = PartGenTag
datatype LinkGenTag = LinkGenTag
datatype RouteGenTag = RouteGenTag

type_synonym FabricGeneration = "FabGenTag Gen"
type_synonym TopologyGeneration = "TopoGenTag Gen"
type_synonym SwitchGeneration = "SwGenTag Gen"
type_synonym PortGeneration = "PortGenTag Gen"
type_synonym PartitionGeneration = "PartGenTag Gen"
type_synonym LinkGeneration = "LinkGenTag Gen"
type_synonym RouteGeneration = "RouteGenTag Gen"

section \<open>Ports\<close>

datatype PortId = MkPortId (port_sw: SwitchId) (port_index: u32)

instantiation PortId :: linorder
begin
definition less_eq_PortId :: "PortId \<Rightarrow> PortId \<Rightarrow> bool" where
  "less_eq_PortId a b \<longleftrightarrow>
     port_sw a < port_sw b \<or> port_sw a = port_sw b \<and> port_index a \<le> port_index b"
definition less_PortId :: "PortId \<Rightarrow> PortId \<Rightarrow> bool" where
  "less_PortId a b \<longleftrightarrow>
     port_sw a < port_sw b \<or> port_sw a = port_sw b \<and> port_index a < port_index b"
instance
  by standard (auto simp: less_eq_PortId_def less_PortId_def intro: PortId.expand)
end

definition port_unknown :: PortId where
  "port_unknown = MkPortId (MkId 0xFFFFFFFFFFFFFFFF) 0xFFFFFFFF"

definition port_isUnknown :: "PortId \<Rightarrow> bool" where
  "port_isUnknown p \<longleftrightarrow> port_index p = 0xFFFFFFFF \<and> get (port_sw p) = 0xFFFFFFFFFFFFFFFF"

definition port_default :: PortId where
  "port_default = MkPortId (MkId 0) 0"

section \<open>Link ends\<close>

text \<open>
  The kind is an \<open>enum class : uint8_t\<close>. A cast from a byte may leave the enumerators,
  so the datatype has one more constructor for the other bytes.
\<close>

datatype LinkEndKind = KDevice | KSwitch | KOther u8

record LinkEnd =
  le_kind :: LinkEndKind
  le_device :: DeviceId
  le_sw :: SwitchId

definition toDevice :: "DeviceId \<Rightarrow> LinkEnd" where
  "toDevice d = \<lparr>le_kind = KDevice, le_device = d, le_sw = MkId 0\<rparr>"

definition toSwitch :: "SwitchId \<Rightarrow> LinkEnd" where
  "toSwitch s = \<lparr>le_kind = KSwitch, le_device = MkId 0, le_sw = s\<rparr>"

section \<open>Resource bounds and versions\<close>

definition kMaxDevices :: u32 where "kMaxDevices = 1024"
definition kMaxSwitches :: u32 where "kMaxSwitches = 256"
definition kMaxPortsPerSwitch :: u32 where "kMaxPortsPerSwitch = 256"
definition kMaxPorts :: u32 where "kMaxPorts = 65536"
definition kMaxLinks :: u32 where "kMaxLinks = 131072"
definition kMaxPartitions :: u32 where "kMaxPartitions = 256"
definition kMaxCandidatePaths :: u32 where "kMaxCandidatePaths = 65536"
definition kMaxPathDepth :: u32 where "kMaxPathDepth = 16"
definition kMaxMeasurements :: u32 where "kMaxMeasurements = 262144"
definition kMaxConnections :: u32 where "kMaxConnections = 256"
definition kMaxFrameBytes :: u32 where "kMaxFrameBytes = 16 * 1024 * 1024"
definition kMaxHistory :: u32 where "kMaxHistory = push_bit 20 1"
definition kMaxPersistenceBytes :: u64 where "kMaxPersistenceBytes = 256 * 1024 * 1024"

definition kWireProtocolVersion :: u8 where "kWireProtocolVersion = 1"

lemmas limit_defs = kMaxDevices_def kMaxSwitches_def kMaxPortsPerSwitch_def kMaxPorts_def
  kMaxLinks_def kMaxPartitions_def kMaxCandidatePaths_def kMaxPathDepth_def
  kMaxMeasurements_def kMaxConnections_def kMaxFrameBytes_def kMaxHistory_def
  kMaxPersistenceBytes_def

section \<open>Facts\<close>

lemma port_isUnknown_iff: "port_isUnknown p \<longleftrightarrow> p = port_unknown"
  by (cases p; cases "port_sw p") (auto simp: port_isUnknown_def port_unknown_def)

lemma Id_eq_iff: "a = b \<longleftrightarrow> get a = get b"
  using Id.expand by blast

lemma Gen_eq_iff: "a = b \<longleftrightarrow> gen_get a = gen_get b"
  using Gen.expand by blast

lemma gen_get_next [simp]: "gen_get (gen_next g) = gen_get g + 1"
  by (simp add: gen_next_def)

text \<open>
  Advancing a generation always changes it. It is also an increase, except at the last
  value of the counter, where it wraps to the first.
\<close>

lemma gen_next_neq [simp]: "gen_next g \<noteq> g"
  by (simp add: Gen_eq_iff)

lemma gen_next_less_iff: "g < gen_next g \<longleftrightarrow> gen_get g \<noteq> - 1"
proof (cases "gen_get g = - 1")
  case True
  then show ?thesis by (simp add: less_Gen_def)
next
  case False
  then have "1 + gen_get g \<noteq> 0"
    by (simp add: add_eq_0_iff)
  then have "gen_get g < 1 + gen_get g"
    by (simp add: word_less_nat_alt unatSuc)
  with False show ?thesis by (simp add: less_Gen_def add.commute)
qed

lemma gen_next_max: "gen_get g = - 1 \<Longrightarrow> gen_get (gen_next g) = 0"
  by simp

end
