(* ===== verification/Fabric_State.thy ===== *)
theory Fabric_State
  imports Fabric_Identity
begin

text \<open>
  The enumerations of \<open>state.h\<close>, \<open>provenance.h\<close>, \<open>evidence.h\<close>, \<open>route.h\<close> and
  \<open>error.h\<close>, the typed error and the result type.

  Every enumeration of the sources is an \<open>enum class\<close> over \<open>uint8_t\<close>. Those that are
  read back from bytes by an unchecked cast (entity and partition states, provenance,
  evidence source, route outcome, route factor, link end kind) have a last constructor
  \<open>OTHER\<close> for the bytes that are no enumerator, since such a value can really occur; the
  casts are \<open>to_u8\<close> and \<open>of_u8\<close> of each type. A value \<open>OTHER b\<close> stands for an enumeration
  value only when \<open>b\<close> is outside the enumerators, which the \<open>canonical\<close> predicates say.
\<close>

section \<open>Enumerations that cross the wire\<close>

datatype EntityState =
    UNKNOWN | PRESENT | ABSENT | SUPPORTED | UNSUPPORTED | UP | DOWN | DEGRADED | DISABLED
    | UNREACHABLE | PARTITIONED | STALE | REVALIDATION_REQUIRED | INCOMPATIBLE | OTHER u8

datatype PartitionState =
    ACTIVE | INACTIVE | RECONFIGURING | REVALIDATION_REQUIRED | STALE | UNSUPPORTED
    | OTHER u8

datatype Provenance =
    REAL | SYNTHETIC | UNSUPPORTED | OTHER u8

datatype EvidenceSource =
    UNKNOWN | NVML | CUDA_RUNTIME | CUDA_DRIVER | NVIDIA_FABRIC_MANAGER | OPERATING_SYSTEM
    | BENCHMARK | PERSISTED | DERIVED | SYNTHETIC_FIXTURE | OTHER u8

datatype RouteOutcome =
    ROUTE_ALLOWED | ROUTE_ALLOWED_DEGRADED | NO_ROUTE | PARTITION_BLOCKED | SWITCH_DOWN
    | PORT_DOWN | STALE_TOPOLOGY | STALE_PARTITION | STALE_SWITCH | REVALIDATION_REQUIRED
    | INSUFFICIENT_EVIDENCE | POLICY_REJECTED | UNSUPPORTED | OTHER u8

datatype RouteFactor =
    FEWER_SWITCHES | FEWER_HOPS | DIRECTNESS | REDUNDANCY | MEASURED_THROUGHPUT
    | MEASURED_LATENCY | ACTIVE_LINK_COUNT | DEGRADATION | CONGESTION_EVIDENCE | FRESHNESS
    | CONFIDENCE | FAILURE_DOMAIN_DIVERSITY | POLICY_PREFERENCE | OTHER u8

section \<open>Enumerations that stay in memory\<close>

datatype Reachability =
    REACHABLE | REACHABLE_DEGRADED | UNREACHABLE | PARTITION_BLOCKED | SWITCH_DOWN
    | PORT_DOWN | ENDPOINT_STALE | TOPOLOGY_STALE | REVALIDATION_REQUIRED
    | INSUFFICIENT_EVIDENCE | UNSUPPORTED

datatype FabricHealth =
    HEALTHY | DEGRADED | PARTIALLY_REACHABLE | PARTITIONED | SWITCH_FAILURE | PORT_FAILURE
    | ENDPOINT_FAILURE | REVALIDATION_REQUIRED | INSUFFICIENT_EVIDENCE | UNSUPPORTED

datatype CongestionEvidence =
    NO_CONGESTION_EVIDENCE | CONGESTION_SUSPECTED | CONGESTION_CONFIRMED | DEGRADED
    | LINK_FAILURE | SWITCH_FAILURE | INSUFFICIENT_EVIDENCE | UNSUPPORTED

datatype MeasurementKind =
    REAL_GPU_PEER_TRANSFER_NVSWITCH_TOPOLOGY_PRESENT | REAL_GPU_PEER_TRANSFER
    | REAL_GPU_SINGLE_DEVICE | SYNTHETIC_FIXTURE | UNSUPPORTED

datatype ErrorCode =
    NONE | NOT_FOUND | UNSUPPORTED | INVALID_ARGUMENT | INVALID_TOPOLOGY | INVALID_PARTITION
    | STALE_GENERATION | STALE_SWITCH | STALE_PORT | STALE_PARTITION | STALE_BOOT
    | STALE_EPOCH | STALE_MEASUREMENT | REVALIDATION_REQUIRED | BACKEND_UNAVAILABLE
    | BACKEND_ERROR | SWITCH_DOWN | PORT_DOWN | PARTITION_BLOCKED | NO_PATH
    | INSUFFICIENT_EVIDENCE | INTEGRITY_FAILURE | PROTOCOL_ERROR | RESOURCE_LIMIT
    | CANCELLED | ALREADY_EXISTS | INTERNAL

section \<open>Errors and results\<close>

record Error =
  err_code :: ErrorCode
  err_message :: string

type_synonym 'a Result = "Error + 'a"

definition err :: "ErrorCode \<Rightarrow> string \<Rightarrow> Error" where
  "err c m = \<lparr>err_code = c, err_message = m\<rparr>"

definition no_error :: Error where
  "no_error = \<lparr>err_code = ErrorCode.NONE, err_message = []\<rparr>"

definition is_ok :: "'a Result \<Rightarrow> bool" where
  "is_ok r = (case r of Inl _ \<Rightarrow> False | Inr _ \<Rightarrow> True)"

lemma is_ok_simps [simp]: "is_ok (Inr x)" "\<not> is_ok (Inl e)"
  by (simp_all add: is_ok_def)

lemma is_ok_iff: "is_ok r \<longleftrightarrow> (\<exists>x. r = Inr x)"
  by (cases r) simp_all

section \<open>Casts to and from the underlying byte\<close>

definition EntityState_enumerators :: "EntityState list" where
  "EntityState_enumerators =
    [
      EntityState.UNKNOWN, EntityState.PRESENT, EntityState.ABSENT, EntityState.SUPPORTED
      , EntityState.UNSUPPORTED, EntityState.UP, EntityState.DOWN, EntityState.DEGRADED
      , EntityState.DISABLED, EntityState.UNREACHABLE, EntityState.PARTITIONED
      , EntityState.STALE, EntityState.REVALIDATION_REQUIRED, EntityState.INCOMPATIBLE]"

definition EntityState_to_u8 :: "EntityState \<Rightarrow> u8" where
  "EntityState_to_u8 s = (case s of
     EntityState.UNKNOWN \<Rightarrow> 0
   | EntityState.PRESENT \<Rightarrow> 1
   | EntityState.ABSENT \<Rightarrow> 2
   | EntityState.SUPPORTED \<Rightarrow> 3
   | EntityState.UNSUPPORTED \<Rightarrow> 4
   | EntityState.UP \<Rightarrow> 5
   | EntityState.DOWN \<Rightarrow> 6
   | EntityState.DEGRADED \<Rightarrow> 7
   | EntityState.DISABLED \<Rightarrow> 8
   | EntityState.UNREACHABLE \<Rightarrow> 9
   | EntityState.PARTITIONED \<Rightarrow> 10
   | EntityState.STALE \<Rightarrow> 11
   | EntityState.REVALIDATION_REQUIRED \<Rightarrow> 12
   | EntityState.INCOMPATIBLE \<Rightarrow> 13
   | EntityState.OTHER b \<Rightarrow> b)"

definition EntityState_of_u8 :: "u8 \<Rightarrow> EntityState" where
  "EntityState_of_u8 b =
     (if unat b < length EntityState_enumerators then EntityState_enumerators ! unat b else EntityState.OTHER b)"

definition EntityState_canonical :: "EntityState \<Rightarrow> bool" where
  "EntityState_canonical s \<longleftrightarrow> (case s of EntityState.OTHER b \<Rightarrow> 14 \<le> unat b | _ \<Rightarrow> True)"

lemma EntityState_of_to_u8 [simp]: "EntityState_canonical s \<Longrightarrow> EntityState_of_u8 (EntityState_to_u8 s) = s"
  by (cases s) (simp_all add: EntityState_of_u8_def EntityState_to_u8_def EntityState_canonical_def
      EntityState_enumerators_def)

definition PartitionState_enumerators :: "PartitionState list" where
  "PartitionState_enumerators =
    [
      PartitionState.ACTIVE, PartitionState.INACTIVE, PartitionState.RECONFIGURING
      , PartitionState.REVALIDATION_REQUIRED, PartitionState.STALE
      , PartitionState.UNSUPPORTED]"

definition PartitionState_to_u8 :: "PartitionState \<Rightarrow> u8" where
  "PartitionState_to_u8 s = (case s of
     PartitionState.ACTIVE \<Rightarrow> 0
   | PartitionState.INACTIVE \<Rightarrow> 1
   | PartitionState.RECONFIGURING \<Rightarrow> 2
   | PartitionState.REVALIDATION_REQUIRED \<Rightarrow> 3
   | PartitionState.STALE \<Rightarrow> 4
   | PartitionState.UNSUPPORTED \<Rightarrow> 5
   | PartitionState.OTHER b \<Rightarrow> b)"

definition PartitionState_of_u8 :: "u8 \<Rightarrow> PartitionState" where
  "PartitionState_of_u8 b =
     (if unat b < length PartitionState_enumerators then PartitionState_enumerators ! unat b else PartitionState.OTHER b)"

definition PartitionState_canonical :: "PartitionState \<Rightarrow> bool" where
  "PartitionState_canonical s \<longleftrightarrow> (case s of PartitionState.OTHER b \<Rightarrow> 6 \<le> unat b | _ \<Rightarrow> True)"

lemma PartitionState_of_to_u8 [simp]: "PartitionState_canonical s \<Longrightarrow> PartitionState_of_u8 (PartitionState_to_u8 s) = s"
  by (cases s) (simp_all add: PartitionState_of_u8_def PartitionState_to_u8_def PartitionState_canonical_def
      PartitionState_enumerators_def)

definition Provenance_enumerators :: "Provenance list" where
  "Provenance_enumerators =
    [
      Provenance.REAL, Provenance.SYNTHETIC, Provenance.UNSUPPORTED]"

definition Provenance_to_u8 :: "Provenance \<Rightarrow> u8" where
  "Provenance_to_u8 s = (case s of
     Provenance.REAL \<Rightarrow> 0
   | Provenance.SYNTHETIC \<Rightarrow> 1
   | Provenance.UNSUPPORTED \<Rightarrow> 2
   | Provenance.OTHER b \<Rightarrow> b)"

definition Provenance_of_u8 :: "u8 \<Rightarrow> Provenance" where
  "Provenance_of_u8 b =
     (if unat b < length Provenance_enumerators then Provenance_enumerators ! unat b else Provenance.OTHER b)"

definition Provenance_canonical :: "Provenance \<Rightarrow> bool" where
  "Provenance_canonical s \<longleftrightarrow> (case s of Provenance.OTHER b \<Rightarrow> 3 \<le> unat b | _ \<Rightarrow> True)"

lemma Provenance_of_to_u8 [simp]: "Provenance_canonical s \<Longrightarrow> Provenance_of_u8 (Provenance_to_u8 s) = s"
  by (cases s) (simp_all add: Provenance_of_u8_def Provenance_to_u8_def Provenance_canonical_def
      Provenance_enumerators_def)

definition EvidenceSource_enumerators :: "EvidenceSource list" where
  "EvidenceSource_enumerators =
    [
      EvidenceSource.UNKNOWN, EvidenceSource.NVML, EvidenceSource.CUDA_RUNTIME
      , EvidenceSource.CUDA_DRIVER, EvidenceSource.NVIDIA_FABRIC_MANAGER
      , EvidenceSource.OPERATING_SYSTEM, EvidenceSource.BENCHMARK, EvidenceSource.PERSISTED
      , EvidenceSource.DERIVED, EvidenceSource.SYNTHETIC_FIXTURE]"

definition EvidenceSource_to_u8 :: "EvidenceSource \<Rightarrow> u8" where
  "EvidenceSource_to_u8 s = (case s of
     EvidenceSource.UNKNOWN \<Rightarrow> 0
   | EvidenceSource.NVML \<Rightarrow> 1
   | EvidenceSource.CUDA_RUNTIME \<Rightarrow> 2
   | EvidenceSource.CUDA_DRIVER \<Rightarrow> 3
   | EvidenceSource.NVIDIA_FABRIC_MANAGER \<Rightarrow> 4
   | EvidenceSource.OPERATING_SYSTEM \<Rightarrow> 5
   | EvidenceSource.BENCHMARK \<Rightarrow> 6
   | EvidenceSource.PERSISTED \<Rightarrow> 7
   | EvidenceSource.DERIVED \<Rightarrow> 8
   | EvidenceSource.SYNTHETIC_FIXTURE \<Rightarrow> 9
   | EvidenceSource.OTHER b \<Rightarrow> b)"

definition EvidenceSource_of_u8 :: "u8 \<Rightarrow> EvidenceSource" where
  "EvidenceSource_of_u8 b =
     (if unat b < length EvidenceSource_enumerators then EvidenceSource_enumerators ! unat b else EvidenceSource.OTHER b)"

definition EvidenceSource_canonical :: "EvidenceSource \<Rightarrow> bool" where
  "EvidenceSource_canonical s \<longleftrightarrow> (case s of EvidenceSource.OTHER b \<Rightarrow> 10 \<le> unat b | _ \<Rightarrow> True)"

lemma EvidenceSource_of_to_u8 [simp]: "EvidenceSource_canonical s \<Longrightarrow> EvidenceSource_of_u8 (EvidenceSource_to_u8 s) = s"
  by (cases s) (simp_all add: EvidenceSource_of_u8_def EvidenceSource_to_u8_def EvidenceSource_canonical_def
      EvidenceSource_enumerators_def)

definition RouteOutcome_enumerators :: "RouteOutcome list" where
  "RouteOutcome_enumerators =
    [
      RouteOutcome.ROUTE_ALLOWED, RouteOutcome.ROUTE_ALLOWED_DEGRADED, RouteOutcome.NO_ROUTE
      , RouteOutcome.PARTITION_BLOCKED, RouteOutcome.SWITCH_DOWN, RouteOutcome.PORT_DOWN
      , RouteOutcome.STALE_TOPOLOGY, RouteOutcome.STALE_PARTITION, RouteOutcome.STALE_SWITCH
      , RouteOutcome.REVALIDATION_REQUIRED, RouteOutcome.INSUFFICIENT_EVIDENCE
      , RouteOutcome.POLICY_REJECTED, RouteOutcome.UNSUPPORTED]"

definition RouteOutcome_to_u8 :: "RouteOutcome \<Rightarrow> u8" where
  "RouteOutcome_to_u8 s = (case s of
     RouteOutcome.ROUTE_ALLOWED \<Rightarrow> 0
   | RouteOutcome.ROUTE_ALLOWED_DEGRADED \<Rightarrow> 1
   | RouteOutcome.NO_ROUTE \<Rightarrow> 2
   | RouteOutcome.PARTITION_BLOCKED \<Rightarrow> 3
   | RouteOutcome.SWITCH_DOWN \<Rightarrow> 4
   | RouteOutcome.PORT_DOWN \<Rightarrow> 5
   | RouteOutcome.STALE_TOPOLOGY \<Rightarrow> 6
   | RouteOutcome.STALE_PARTITION \<Rightarrow> 7
   | RouteOutcome.STALE_SWITCH \<Rightarrow> 8
   | RouteOutcome.REVALIDATION_REQUIRED \<Rightarrow> 9
   | RouteOutcome.INSUFFICIENT_EVIDENCE \<Rightarrow> 10
   | RouteOutcome.POLICY_REJECTED \<Rightarrow> 11
   | RouteOutcome.UNSUPPORTED \<Rightarrow> 12
   | RouteOutcome.OTHER b \<Rightarrow> b)"

definition RouteOutcome_of_u8 :: "u8 \<Rightarrow> RouteOutcome" where
  "RouteOutcome_of_u8 b =
     (if unat b < length RouteOutcome_enumerators then RouteOutcome_enumerators ! unat b else RouteOutcome.OTHER b)"

definition RouteOutcome_canonical :: "RouteOutcome \<Rightarrow> bool" where
  "RouteOutcome_canonical s \<longleftrightarrow> (case s of RouteOutcome.OTHER b \<Rightarrow> 13 \<le> unat b | _ \<Rightarrow> True)"

lemma RouteOutcome_of_to_u8 [simp]: "RouteOutcome_canonical s \<Longrightarrow> RouteOutcome_of_u8 (RouteOutcome_to_u8 s) = s"
  by (cases s) (simp_all add: RouteOutcome_of_u8_def RouteOutcome_to_u8_def RouteOutcome_canonical_def
      RouteOutcome_enumerators_def)

definition RouteFactor_enumerators :: "RouteFactor list" where
  "RouteFactor_enumerators =
    [
      RouteFactor.FEWER_SWITCHES, RouteFactor.FEWER_HOPS, RouteFactor.DIRECTNESS
      , RouteFactor.REDUNDANCY, RouteFactor.MEASURED_THROUGHPUT
      , RouteFactor.MEASURED_LATENCY, RouteFactor.ACTIVE_LINK_COUNT, RouteFactor.DEGRADATION
      , RouteFactor.CONGESTION_EVIDENCE, RouteFactor.FRESHNESS, RouteFactor.CONFIDENCE
      , RouteFactor.FAILURE_DOMAIN_DIVERSITY, RouteFactor.POLICY_PREFERENCE]"

definition RouteFactor_to_u8 :: "RouteFactor \<Rightarrow> u8" where
  "RouteFactor_to_u8 s = (case s of
     RouteFactor.FEWER_SWITCHES \<Rightarrow> 0
   | RouteFactor.FEWER_HOPS \<Rightarrow> 1
   | RouteFactor.DIRECTNESS \<Rightarrow> 2
   | RouteFactor.REDUNDANCY \<Rightarrow> 3
   | RouteFactor.MEASURED_THROUGHPUT \<Rightarrow> 4
   | RouteFactor.MEASURED_LATENCY \<Rightarrow> 5
   | RouteFactor.ACTIVE_LINK_COUNT \<Rightarrow> 6
   | RouteFactor.DEGRADATION \<Rightarrow> 7
   | RouteFactor.CONGESTION_EVIDENCE \<Rightarrow> 8
   | RouteFactor.FRESHNESS \<Rightarrow> 9
   | RouteFactor.CONFIDENCE \<Rightarrow> 10
   | RouteFactor.FAILURE_DOMAIN_DIVERSITY \<Rightarrow> 11
   | RouteFactor.POLICY_PREFERENCE \<Rightarrow> 12
   | RouteFactor.OTHER b \<Rightarrow> b)"

definition RouteFactor_of_u8 :: "u8 \<Rightarrow> RouteFactor" where
  "RouteFactor_of_u8 b =
     (if unat b < length RouteFactor_enumerators then RouteFactor_enumerators ! unat b else RouteFactor.OTHER b)"

definition RouteFactor_canonical :: "RouteFactor \<Rightarrow> bool" where
  "RouteFactor_canonical s \<longleftrightarrow> (case s of RouteFactor.OTHER b \<Rightarrow> 13 \<le> unat b | _ \<Rightarrow> True)"

lemma RouteFactor_of_to_u8 [simp]: "RouteFactor_canonical s \<Longrightarrow> RouteFactor_of_u8 (RouteFactor_to_u8 s) = s"
  by (cases s) (simp_all add: RouteFactor_of_u8_def RouteFactor_to_u8_def RouteFactor_canonical_def
      RouteFactor_enumerators_def)

definition LinkEndKind_enumerators :: "LinkEndKind list" where
  "LinkEndKind_enumerators =
    [
      KDevice, KSwitch]"

definition LinkEndKind_to_u8 :: "LinkEndKind \<Rightarrow> u8" where
  "LinkEndKind_to_u8 s = (case s of
     KDevice \<Rightarrow> 0
   | KSwitch \<Rightarrow> 1
   | KOther b \<Rightarrow> b)"

definition LinkEndKind_of_u8 :: "u8 \<Rightarrow> LinkEndKind" where
  "LinkEndKind_of_u8 b =
     (if unat b < length LinkEndKind_enumerators then LinkEndKind_enumerators ! unat b else KOther b)"

definition LinkEndKind_canonical :: "LinkEndKind \<Rightarrow> bool" where
  "LinkEndKind_canonical s \<longleftrightarrow> (case s of KOther b \<Rightarrow> 2 \<le> unat b | _ \<Rightarrow> True)"

lemma LinkEndKind_of_to_u8 [simp]: "LinkEndKind_canonical s \<Longrightarrow> LinkEndKind_of_u8 (LinkEndKind_to_u8 s) = s"
  by (cases s) (simp_all add: LinkEndKind_of_u8_def LinkEndKind_to_u8_def LinkEndKind_canonical_def
      LinkEndKind_enumerators_def)

section \<open>Names\<close>

definition EntityState_toString :: "EntityState \<Rightarrow> string" where
  "EntityState_toString s = (case s of
     EntityState.UNKNOWN \<Rightarrow> ''UNKNOWN''
   | EntityState.PRESENT \<Rightarrow> ''PRESENT''
   | EntityState.ABSENT \<Rightarrow> ''ABSENT''
   | EntityState.SUPPORTED \<Rightarrow> ''SUPPORTED''
   | EntityState.UNSUPPORTED \<Rightarrow> ''UNSUPPORTED''
   | EntityState.UP \<Rightarrow> ''UP''
   | EntityState.DOWN \<Rightarrow> ''DOWN''
   | EntityState.DEGRADED \<Rightarrow> ''DEGRADED''
   | EntityState.DISABLED \<Rightarrow> ''DISABLED''
   | EntityState.UNREACHABLE \<Rightarrow> ''UNREACHABLE''
   | EntityState.PARTITIONED \<Rightarrow> ''PARTITIONED''
   | EntityState.STALE \<Rightarrow> ''STALE''
   | EntityState.REVALIDATION_REQUIRED \<Rightarrow> ''REVALIDATION_REQUIRED''
   | EntityState.INCOMPATIBLE \<Rightarrow> ''INCOMPATIBLE''
   | EntityState.OTHER _ \<Rightarrow> ''UNKNOWN'')"

definition PartitionState_toString :: "PartitionState \<Rightarrow> string" where
  "PartitionState_toString s = (case s of
     PartitionState.ACTIVE \<Rightarrow> ''ACTIVE''
   | PartitionState.INACTIVE \<Rightarrow> ''INACTIVE''
   | PartitionState.RECONFIGURING \<Rightarrow> ''RECONFIGURING''
   | PartitionState.REVALIDATION_REQUIRED \<Rightarrow> ''REVALIDATION_REQUIRED''
   | PartitionState.STALE \<Rightarrow> ''STALE''
   | PartitionState.UNSUPPORTED \<Rightarrow> ''UNSUPPORTED''
   | PartitionState.OTHER _ \<Rightarrow> ''ACTIVE'')"

definition Provenance_toString :: "Provenance \<Rightarrow> string" where
  "Provenance_toString s = (case s of
     Provenance.REAL \<Rightarrow> ''REAL''
   | Provenance.SYNTHETIC \<Rightarrow> ''SYNTHETIC''
   | Provenance.UNSUPPORTED \<Rightarrow> ''UNSUPPORTED''
   | Provenance.OTHER _ \<Rightarrow> ''UNSUPPORTED'')"

definition EvidenceSource_toString :: "EvidenceSource \<Rightarrow> string" where
  "EvidenceSource_toString s = (case s of
     EvidenceSource.UNKNOWN \<Rightarrow> ''UNKNOWN''
   | EvidenceSource.NVML \<Rightarrow> ''NVML''
   | EvidenceSource.CUDA_RUNTIME \<Rightarrow> ''CUDA_RUNTIME''
   | EvidenceSource.CUDA_DRIVER \<Rightarrow> ''CUDA_DRIVER''
   | EvidenceSource.NVIDIA_FABRIC_MANAGER \<Rightarrow> ''NVIDIA_FABRIC_MANAGER''
   | EvidenceSource.OPERATING_SYSTEM \<Rightarrow> ''OPERATING_SYSTEM''
   | EvidenceSource.BENCHMARK \<Rightarrow> ''BENCHMARK''
   | EvidenceSource.PERSISTED \<Rightarrow> ''PERSISTED''
   | EvidenceSource.DERIVED \<Rightarrow> ''DERIVED''
   | EvidenceSource.SYNTHETIC_FIXTURE \<Rightarrow> ''SYNTHETIC_FIXTURE''
   | EvidenceSource.OTHER _ \<Rightarrow> ''UNKNOWN'')"

definition RouteOutcome_toString :: "RouteOutcome \<Rightarrow> string" where
  "RouteOutcome_toString s = (case s of
     RouteOutcome.ROUTE_ALLOWED \<Rightarrow> ''ROUTE_ALLOWED''
   | RouteOutcome.ROUTE_ALLOWED_DEGRADED \<Rightarrow> ''ROUTE_ALLOWED_DEGRADED''
   | RouteOutcome.NO_ROUTE \<Rightarrow> ''NO_ROUTE''
   | RouteOutcome.PARTITION_BLOCKED \<Rightarrow> ''PARTITION_BLOCKED''
   | RouteOutcome.SWITCH_DOWN \<Rightarrow> ''SWITCH_DOWN''
   | RouteOutcome.PORT_DOWN \<Rightarrow> ''PORT_DOWN''
   | RouteOutcome.STALE_TOPOLOGY \<Rightarrow> ''STALE_TOPOLOGY''
   | RouteOutcome.STALE_PARTITION \<Rightarrow> ''STALE_PARTITION''
   | RouteOutcome.STALE_SWITCH \<Rightarrow> ''STALE_SWITCH''
   | RouteOutcome.REVALIDATION_REQUIRED \<Rightarrow> ''REVALIDATION_REQUIRED''
   | RouteOutcome.INSUFFICIENT_EVIDENCE \<Rightarrow> ''INSUFFICIENT_EVIDENCE''
   | RouteOutcome.POLICY_REJECTED \<Rightarrow> ''POLICY_REJECTED''
   | RouteOutcome.UNSUPPORTED \<Rightarrow> ''UNSUPPORTED''
   | RouteOutcome.OTHER _ \<Rightarrow> ''UNSUPPORTED'')"

definition RouteFactor_toString :: "RouteFactor \<Rightarrow> string" where
  "RouteFactor_toString s = (case s of
     RouteFactor.FEWER_SWITCHES \<Rightarrow> ''FEWER_SWITCHES''
   | RouteFactor.FEWER_HOPS \<Rightarrow> ''FEWER_HOPS''
   | RouteFactor.DIRECTNESS \<Rightarrow> ''DIRECTNESS''
   | RouteFactor.REDUNDANCY \<Rightarrow> ''REDUNDANCY''
   | RouteFactor.MEASURED_THROUGHPUT \<Rightarrow> ''MEASURED_THROUGHPUT''
   | RouteFactor.MEASURED_LATENCY \<Rightarrow> ''MEASURED_LATENCY''
   | RouteFactor.ACTIVE_LINK_COUNT \<Rightarrow> ''ACTIVE_LINK_COUNT''
   | RouteFactor.DEGRADATION \<Rightarrow> ''DEGRADATION''
   | RouteFactor.CONGESTION_EVIDENCE \<Rightarrow> ''CONGESTION_EVIDENCE''
   | RouteFactor.FRESHNESS \<Rightarrow> ''FRESHNESS''
   | RouteFactor.CONFIDENCE \<Rightarrow> ''CONFIDENCE''
   | RouteFactor.FAILURE_DOMAIN_DIVERSITY \<Rightarrow> ''FAILURE_DOMAIN_DIVERSITY''
   | RouteFactor.POLICY_PREFERENCE \<Rightarrow> ''POLICY_PREFERENCE''
   | RouteFactor.OTHER _ \<Rightarrow> ''UNKNOWN'')"

definition Reachability_toString :: "Reachability \<Rightarrow> string" where
  "Reachability_toString s = (case s of
     Reachability.REACHABLE \<Rightarrow> ''REACHABLE''
   | Reachability.REACHABLE_DEGRADED \<Rightarrow> ''REACHABLE_DEGRADED''
   | Reachability.UNREACHABLE \<Rightarrow> ''UNREACHABLE''
   | Reachability.PARTITION_BLOCKED \<Rightarrow> ''PARTITION_BLOCKED''
   | Reachability.SWITCH_DOWN \<Rightarrow> ''SWITCH_DOWN''
   | Reachability.PORT_DOWN \<Rightarrow> ''PORT_DOWN''
   | Reachability.ENDPOINT_STALE \<Rightarrow> ''ENDPOINT_STALE''
   | Reachability.TOPOLOGY_STALE \<Rightarrow> ''TOPOLOGY_STALE''
   | Reachability.REVALIDATION_REQUIRED \<Rightarrow> ''REVALIDATION_REQUIRED''
   | Reachability.INSUFFICIENT_EVIDENCE \<Rightarrow> ''INSUFFICIENT_EVIDENCE''
   | Reachability.UNSUPPORTED \<Rightarrow> ''UNSUPPORTED'')"

definition FabricHealth_toString :: "FabricHealth \<Rightarrow> string" where
  "FabricHealth_toString s = (case s of
     FabricHealth.HEALTHY \<Rightarrow> ''HEALTHY''
   | FabricHealth.DEGRADED \<Rightarrow> ''DEGRADED''
   | FabricHealth.PARTIALLY_REACHABLE \<Rightarrow> ''PARTIALLY_REACHABLE''
   | FabricHealth.PARTITIONED \<Rightarrow> ''PARTITIONED''
   | FabricHealth.SWITCH_FAILURE \<Rightarrow> ''SWITCH_FAILURE''
   | FabricHealth.PORT_FAILURE \<Rightarrow> ''PORT_FAILURE''
   | FabricHealth.ENDPOINT_FAILURE \<Rightarrow> ''ENDPOINT_FAILURE''
   | FabricHealth.REVALIDATION_REQUIRED \<Rightarrow> ''REVALIDATION_REQUIRED''
   | FabricHealth.INSUFFICIENT_EVIDENCE \<Rightarrow> ''INSUFFICIENT_EVIDENCE''
   | FabricHealth.UNSUPPORTED \<Rightarrow> ''UNSUPPORTED'')"

definition CongestionEvidence_toString :: "CongestionEvidence \<Rightarrow> string" where
  "CongestionEvidence_toString s = (case s of
     CongestionEvidence.NO_CONGESTION_EVIDENCE \<Rightarrow> ''NO_CONGESTION_EVIDENCE''
   | CongestionEvidence.CONGESTION_SUSPECTED \<Rightarrow> ''CONGESTION_SUSPECTED''
   | CongestionEvidence.CONGESTION_CONFIRMED \<Rightarrow> ''CONGESTION_CONFIRMED''
   | CongestionEvidence.DEGRADED \<Rightarrow> ''DEGRADED''
   | CongestionEvidence.LINK_FAILURE \<Rightarrow> ''LINK_FAILURE''
   | CongestionEvidence.SWITCH_FAILURE \<Rightarrow> ''SWITCH_FAILURE''
   | CongestionEvidence.INSUFFICIENT_EVIDENCE \<Rightarrow> ''INSUFFICIENT_EVIDENCE''
   | CongestionEvidence.UNSUPPORTED \<Rightarrow> ''UNSUPPORTED'')"

definition ErrorCode_toString :: "ErrorCode \<Rightarrow> string" where
  "ErrorCode_toString s = (case s of
     ErrorCode.NONE \<Rightarrow> ''NONE''
   | ErrorCode.NOT_FOUND \<Rightarrow> ''NOT_FOUND''
   | ErrorCode.UNSUPPORTED \<Rightarrow> ''UNSUPPORTED''
   | ErrorCode.INVALID_ARGUMENT \<Rightarrow> ''INVALID_ARGUMENT''
   | ErrorCode.INVALID_TOPOLOGY \<Rightarrow> ''INVALID_TOPOLOGY''
   | ErrorCode.INVALID_PARTITION \<Rightarrow> ''INVALID_PARTITION''
   | ErrorCode.STALE_GENERATION \<Rightarrow> ''STALE_GENERATION''
   | ErrorCode.STALE_SWITCH \<Rightarrow> ''STALE_SWITCH''
   | ErrorCode.STALE_PORT \<Rightarrow> ''STALE_PORT''
   | ErrorCode.STALE_PARTITION \<Rightarrow> ''STALE_PARTITION''
   | ErrorCode.STALE_BOOT \<Rightarrow> ''STALE_BOOT''
   | ErrorCode.STALE_EPOCH \<Rightarrow> ''STALE_EPOCH''
   | ErrorCode.STALE_MEASUREMENT \<Rightarrow> ''STALE_MEASUREMENT''
   | ErrorCode.REVALIDATION_REQUIRED \<Rightarrow> ''REVALIDATION_REQUIRED''
   | ErrorCode.BACKEND_UNAVAILABLE \<Rightarrow> ''BACKEND_UNAVAILABLE''
   | ErrorCode.BACKEND_ERROR \<Rightarrow> ''BACKEND_ERROR''
   | ErrorCode.SWITCH_DOWN \<Rightarrow> ''SWITCH_DOWN''
   | ErrorCode.PORT_DOWN \<Rightarrow> ''PORT_DOWN''
   | ErrorCode.PARTITION_BLOCKED \<Rightarrow> ''PARTITION_BLOCKED''
   | ErrorCode.NO_PATH \<Rightarrow> ''NO_PATH''
   | ErrorCode.INSUFFICIENT_EVIDENCE \<Rightarrow> ''INSUFFICIENT_EVIDENCE''
   | ErrorCode.INTEGRITY_FAILURE \<Rightarrow> ''INTEGRITY_FAILURE''
   | ErrorCode.PROTOCOL_ERROR \<Rightarrow> ''PROTOCOL_ERROR''
   | ErrorCode.RESOURCE_LIMIT \<Rightarrow> ''RESOURCE_LIMIT''
   | ErrorCode.CANCELLED \<Rightarrow> ''CANCELLED''
   | ErrorCode.ALREADY_EXISTS \<Rightarrow> ''ALREADY_EXISTS''
   | ErrorCode.INTERNAL \<Rightarrow> ''INTERNAL'')"

text \<open>
  The printed names of distinct enumerators are distinct, so a name identifies the value.
\<close>

lemma EntityState_toString_inj: "inj_on EntityState_toString (set EntityState_enumerators)"
  by (simp add: EntityState_enumerators_def EntityState_toString_def)

lemma FabricHealth_toString_inj: "inj FabricHealth_toString"
proof (rule injI)
  fix a b
  assume "FabricHealth_toString a = FabricHealth_toString b"
  then show "a = b" by (cases a; cases b) (simp_all add: FabricHealth_toString_def)
qed

lemma Reachability_toString_inj: "inj Reachability_toString"
proof (rule injI)
  fix a b
  assume "Reachability_toString a = Reachability_toString b"
  then show "a = b" by (cases a; cases b) (simp_all add: Reachability_toString_def)
qed

lemma RouteOutcome_toString_inj: "inj_on RouteOutcome_toString (set RouteOutcome_enumerators)"
  by (simp add: RouteOutcome_enumerators_def RouteOutcome_toString_def)

lemma PartitionState_toString_inj: "inj_on PartitionState_toString (set PartitionState_enumerators)"
  by (simp add: PartitionState_enumerators_def PartitionState_toString_def)

lemma Provenance_toString_inj: "inj_on Provenance_toString (set Provenance_enumerators)"
  by (simp add: Provenance_enumerators_def Provenance_toString_def)

end
