(* ===== verification/Fabric_Records.thy ===== *)
theory Fabric_Records
  imports Fabric_State
begin

text \<open>
  The records of the fabric: topology entities (\<open>records.h\<close>), dynamic evidence
  (\<open>evidence.h\<close>), switch-mediated paths (\<open>path.h\<close>, \<open>path.cpp\<close>), the snapshot graph and
  the traversal bounds (\<open>topology.h\<close>), and the backend's scan (\<open>backend.h\<close>).

  A field keeps its C++ name with a short prefix for its record, since fields of
  different records share names there. \<open>double\<close> fields that only travel through memory
  and the wire are kept as their 64-bit pattern. The snapshot's containers are ordered
  dictionaries, iterated in key order.
\<close>

section \<open>Topology entities\<close>

type_synonym double_bits = u64

record DeviceGeneration =
  dg_name :: string
  dg_observed :: bool

record DeviceRecord =
  dev_id :: DeviceId
  dev_generation :: DeviceGeneration
  dev_present :: bool
  dev_backendId :: string
  dev_vendor :: string
  dev_product :: string
  dev_state :: EntityState
  dev_partition :: PartitionId
  dev_attachedSwitch :: SwitchId
  dev_attachedSwitchKnown :: bool
  dev_worker :: WorkerId
  dev_workerKnown :: bool
  dev_workerBoot :: WorkerBootId
  dev_provenance :: Provenance
  dev_source :: EvidenceSource
  dev_topologyGen :: TopologyGeneration

record SwitchRecord =
  sw_id :: SwitchId
  sw_gen :: SwitchGeneration
  sw_generationName :: string
  sw_generationObserved :: bool
  sw_vendor :: string
  sw_product :: string
  sw_family :: string
  sw_portCount :: u32
  sw_state :: EntityState
  sw_fabric :: FabricId
  sw_fabricKnown :: bool
  sw_partition :: PartitionId
  sw_partitionKnown :: bool
  sw_worker :: WorkerId
  sw_workerKnown :: bool
  sw_workerBoot :: WorkerBootId
  sw_provenance :: Provenance
  sw_source :: EvidenceSource
  sw_topologyGen :: TopologyGeneration

record SwitchPortRecord =
  po_id :: PortId
  po_gen :: PortGeneration
  po_attached :: LinkEnd
  po_attachedKnown :: bool
  po_state :: EntityState
  po_activeLinkCount :: u32
  po_activeLinkCountKnown :: bool
  po_nominalBandwidthMBps :: u64
  po_nominalBandwidthKnown :: bool
  po_worker :: WorkerId
  po_workerKnown :: bool
  po_workerBoot :: WorkerBootId
  po_provenance :: Provenance
  po_source :: EvidenceSource
  po_topologyGen :: TopologyGeneration

record LinkRecord =
  li_id :: LinkId
  li_gen :: LinkGeneration
  li_rootSwitch :: SwitchId
  li_port :: PortId
  li_otherEnd :: LinkEnd
  li_otherEndKnown :: bool
  li_state :: EntityState
  li_degraded :: bool
  li_worker :: WorkerId
  li_workerKnown :: bool
  li_workerBoot :: WorkerBootId
  li_provenance :: Provenance
  li_source :: EvidenceSource
  li_topologyGen :: TopologyGeneration

record FabricPartition =
  pa_id :: PartitionId
  pa_gen :: PartitionGeneration
  pa_fabric :: FabricId
  pa_members :: "DeviceId list"
  pa_switches :: "SwitchId list"
  pa_state :: PartitionState
  pa_worker :: WorkerId
  pa_workerKnown :: bool
  pa_workerBoot :: WorkerBootId
  pa_provenance :: Provenance
  pa_source :: EvidenceSource
  pa_topologyGen :: TopologyGeneration

section \<open>Dynamic evidence\<close>

record Measurement =
  me_id :: MeasurementId
  me_runId :: MeasurementId
  me_source :: DeviceId
  me_destination :: DeviceId
  me_sourceKnown :: bool
  me_destinationKnown :: bool
  me_payloadBytes :: u64
  me_iterations :: u64
  me_elapsedNanos :: u64
  me_elapsedKnown :: bool
  me_syncMethod :: string
  me_integrityVerified :: bool
  me_matched :: bool
  me_kind :: MeasurementKind
  me_topologyGen :: TopologyGeneration
  me_worker :: WorkerId
  me_workerKnown :: bool
  me_workerBoot :: WorkerBootId
  me_provenance :: Provenance
  me_evidenceSource :: EvidenceSource

record LinkDegradation =
  ld_link :: LinkId
  ld_linkKnown :: bool
  ld_degraded :: bool
  ld_degradationFactor :: double_bits
  ld_factorKnown :: bool
  ld_reason :: string
  ld_provenance :: Provenance
  ld_source :: EvidenceSource

record CongestionObservation =
  co_classification :: CongestionEvidence
  co_links :: "LinkDegradation list"
  co_explanation :: string
  co_worker :: WorkerId
  co_workerKnown :: bool
  co_workerBoot :: WorkerBootId
  co_provenance :: Provenance
  co_source :: EvidenceSource
  co_topologyGen :: TopologyGeneration
  co_matched :: bool

record SwitchHealthObservation =
  sh_sw :: SwitchId
  sh_state :: EntityState
  sh_reason :: string
  sh_worker :: WorkerId
  sh_workerKnown :: bool
  sh_workerBoot :: WorkerBootId
  sh_provenance :: Provenance
  sh_source :: EvidenceSource
  sh_topologyGen :: TopologyGeneration
  sh_matched :: bool

section \<open>Paths\<close>

record PathHop =
  hop_sw :: SwitchId
  hop_inPort :: PortId
  hop_outPort :: PortId
  hop_exitToDevice :: bool
  hop_exitToSwitch :: bool

record FabricPath =
  fp_id :: PathId
  fp_source :: DeviceId
  fp_destination :: DeviceId
  fp_hops :: "PathHop list"
  fp_links :: "LinkId list"
  fp_switchSequence :: "SwitchId list"
  fp_switchGens :: "(SwitchId \<times> SwitchGeneration) list"
  fp_portGens :: "(PortId \<times> PortGeneration) list"
  fp_topologyGen :: TopologyGeneration
  fp_partitionGen :: PartitionGeneration
  fp_switchGen :: SwitchGeneration
  fp_portGen :: PortGeneration
  fp_capable :: bool
  fp_state :: EntityState
  fp_provenance :: Provenance
  fp_evidenceSource :: EvidenceSource

text \<open>A default-constructed path and a hop whose exit is not filled in yet.\<close>

definition default_FabricPath :: FabricPath where
  "default_FabricPath = \<lparr>
     fp_id = MkId 0, fp_source = MkId 0, fp_destination = MkId 0,
     fp_hops = [], fp_links = [], fp_switchSequence = [], fp_switchGens = [], fp_portGens = [],
     fp_topologyGen = MkGen 0, fp_partitionGen = MkGen 0, fp_switchGen = MkGen 0,
     fp_portGen = MkGen 0, fp_capable = False, fp_state = EntityState.UNKNOWN,
     fp_provenance = Provenance.UNSUPPORTED, fp_evidenceSource = EvidenceSource.UNKNOWN\<rparr>"

definition entry_hop :: "SwitchId \<Rightarrow> PortId \<Rightarrow> PathHop" where
  "entry_hop s p = \<lparr>hop_sw = s, hop_inPort = p, hop_outPort = port_default,
     hop_exitToDevice = False, hop_exitToSwitch = False\<rparr>"

text \<open>The port index as \<open>canonicalKey\<close> prints it: -1 for the unknown port.\<close>

definition port_index_string :: "PortId \<Rightarrow> string" where
  "port_index_string p =
     (if port_isUnknown p then ''-1'' else nat_to_string (unat (port_index p)))"

definition hop_key :: "PathHop \<Rightarrow> string" where
  "hop_key h =
     ''('' @ u64_to_string (get (hop_sw h)) @ '';in='' @ port_index_string (hop_inPort h)
     @ '';out='' @ port_index_string (hop_outPort h) @ '';''
     @ (if hop_exitToDevice h then ''dev'' else if hop_exitToSwitch h then ''sw'' else [])
     @ '')''"

fun hops_key :: "PathHop list \<Rightarrow> string" where
  "hops_key [] = []"
| "hops_key [h] = hop_key h"
| "hops_key (h # hs) = hop_key h @ '','' @ hops_key hs"

definition canonicalKey :: "FabricPath \<Rightarrow> string" where
  "canonicalKey p =
     ''path[src='' @ u64_to_string (get (fp_source p)) @ '',dst=''
     @ u64_to_string (get (fp_destination p)) @ '']'' @ ''{sw=['' @ hops_key (fp_hops p) @ '']}''"

section \<open>The snapshot graph\<close>

record TraversalConfig =
  tc_maxPaths :: u32
  tc_maxDepth :: u32
  tc_allowSwitchSwitching :: bool
  tc_requiredMinRelativeBandwidth :: double_bits

definition default_TraversalConfig :: TraversalConfig where
  "default_TraversalConfig = \<lparr>tc_maxPaths = kMaxCandidatePaths, tc_maxDepth = kMaxPathDepth,
     tc_allowSwitchSwitching = True, tc_requiredMinRelativeBandwidth = 0\<rparr>"

record FabricTopology =
  t_id :: u64
  t_topologyGen :: TopologyGeneration
  t_fabricGen :: FabricGeneration
  t_epoch :: CoordinatorEpoch
  t_provenance :: Provenance
  t_label :: string
  t_persisted :: bool
  t_devices :: "(DeviceId, DeviceRecord) omap"
  t_switches :: "(SwitchId, SwitchRecord) omap"
  t_ports :: "(PortId, SwitchPortRecord) omap"
  t_links :: "(LinkId, LinkRecord) omap"
  t_partitions :: "(PartitionId, FabricPartition) omap"

definition default_FabricTopology :: FabricTopology where
  "default_FabricTopology = \<lparr>t_id = 0, t_topologyGen = MkGen 0, t_fabricGen = MkGen 0,
     t_epoch = 0, t_provenance = Provenance.UNSUPPORTED, t_label = [], t_persisted = False,
     t_devices = [], t_switches = [], t_ports = [], t_links = [], t_partitions = []\<rparr>"

section \<open>Bulk edits and backend scans\<close>

record BulkEdit =
  be_devices :: "DeviceRecord list"
  be_switches :: "SwitchRecord list"
  be_ports :: "SwitchPortRecord list"
  be_links :: "LinkRecord list"
  be_partitions :: "FabricPartition list"

record Scan =
  sc_devices :: "DeviceRecord list"
  sc_switches :: "SwitchRecord list"
  sc_ports :: "SwitchPortRecord list"
  sc_links :: "LinkRecord list"
  sc_partitions :: "FabricPartition list"
  sc_health :: "SwitchHealthObservation list"
  sc_congestion :: "CongestionObservation list"
  sc_error :: string

record BackendCapabilities =
  bc_deviceDiscovery :: bool
  bc_switchDiscovery :: bool
  bc_portDiscovery :: bool
  bc_partitionDiscovery :: bool
  bc_linkDiscovery :: bool
  bc_switchManagement :: bool
  bc_telemetry :: bool
  bc_congestionCounters :: bool
  bc_nvSwitchPresent :: bool
  bc_provenance :: Provenance
  bc_name :: string

end
