(* ===== verification/Fabric_Topology.thy ===== *)
theory Fabric_Topology
  imports Fabric_Records
begin

text \<open>
  The operations of a topology snapshot (\<open>topology.cpp\<close>): lookups, path enumeration,
  device reachability, fabric health and the integrity check.

  \<open>enumeratePaths\<close> is a worklist search over partial paths. \<open>expand\<close> is its inner loop
  over the edges of one switch, \<open>search\<close> its outer loop over the frontier; \<open>search\<close>
  terminates because every new partial path has visited one more of the finitely many
  switches an edge leads to. \<open>std::sort\<close> is modelled by the stable insertion sort of the
  prelude; for \<open>deviceEdges\<close>, where two edges can be equivalent, the C++ standard leaves
  their order open, and only the order of the enumerated paths depends on it.
\<close>

section \<open>Lookups\<close>

definition lookupDevice :: "FabricTopology \<Rightarrow> DeviceId \<Rightarrow> DeviceRecord option" where
  "lookupDevice t i = om_find (t_devices t) i"

definition lookupSwitch :: "FabricTopology \<Rightarrow> SwitchId \<Rightarrow> SwitchRecord option" where
  "lookupSwitch t i = om_find (t_switches t) i"

definition lookupPort :: "FabricTopology \<Rightarrow> PortId \<Rightarrow> SwitchPortRecord option" where
  "lookupPort t i = om_find (t_ports t) i"

definition lookupLink :: "FabricTopology \<Rightarrow> LinkId \<Rightarrow> LinkRecord option" where
  "lookupLink t i = om_find (t_links t) i"

definition lookupPartition :: "FabricTopology \<Rightarrow> PartitionId \<Rightarrow> FabricPartition option" where
  "lookupPartition t i = om_find (t_partitions t) i"

lemmas lookup_defs =
  lookupDevice_def lookupSwitch_def lookupPort_def lookupLink_def lookupPartition_def

section \<open>Edges\<close>

record Edge =
  e_link :: LinkId
  e_port :: PortId
  e_other :: LinkEnd
  e_linkState :: EntityState
  e_portState :: EntityState

definition traversableState :: "EntityState \<Rightarrow> bool" where
  "traversableState s \<longleftrightarrow> s = EntityState.UP \<or> s = EntityState.DEGRADED"

definition edgeUsable :: "Edge \<Rightarrow> bool" where
  "edgeUsable e \<longleftrightarrow> traversableState (e_linkState e) \<and> traversableState (e_portState e)"

definition isDeviceEnd :: "LinkEnd \<Rightarrow> bool" where
  "isDeviceEnd e \<longleftrightarrow> le_kind e = KDevice"

definition isSwitchEnd :: "LinkEnd \<Rightarrow> bool" where
  "isSwitchEnd e \<longleftrightarrow> le_kind e = KSwitch"

text \<open>The adjacency index: per switch, its edges in the order of port, then link.\<close>

definition mkEdge :: "FabricTopology \<Rightarrow> LinkRecord \<Rightarrow> Edge" where
  "mkEdge t l = \<lparr>e_link = li_id l, e_port = li_port l, e_other = li_otherEnd l,
     e_linkState = li_state l,
     e_portState =
       (case lookupPort t (li_port l) of Some p \<Rightarrow> po_state p | None \<Rightarrow> EntityState.DOWN)\<rparr>"

definition push_edge ::
    "FabricTopology \<Rightarrow> LinkRecord \<Rightarrow> (SwitchId, Edge list) omap \<Rightarrow> (SwitchId, Edge list) omap" where
  "push_edge t l m =
     om_insert (li_rootSwitch l)
       ((case om_find m (li_rootSwitch l) of None \<Rightarrow> [] | Some es \<Rightarrow> es) @ [mkEdge t l]) m"

definition lessPortLink :: "Edge \<Rightarrow> Edge \<Rightarrow> bool" where
  "lessPortLink a b =
     (if e_port a \<noteq> e_port b then e_port a < e_port b else e_link a < e_link b)"

definition swEdges :: "FabricTopology \<Rightarrow> (SwitchId, Edge list) omap" where
  "swEdges t =
     om_map (stable_sort lessPortLink) (fold (push_edge t) (om_values (t_links t)) [])"

definition lessDevicePort :: "Edge \<Rightarrow> Edge \<Rightarrow> bool" where
  "lessDevicePort a b =
     (if le_device (e_other a) \<noteq> le_device (e_other b)
      then le_device (e_other a) < le_device (e_other b) else e_port a < e_port b)"

definition deviceEdges :: "(SwitchId, Edge list) omap \<Rightarrow> Edge list" where
  "deviceEdges m =
     stable_sort lessDevicePort
       (concat (map (filter (\<lambda>e. isDeviceEnd (e_other e))) (om_values m)))"

section \<open>Path enumeration\<close>

record Partial =
  pp_cur :: SwitchId
  pp_inPort :: PortId
  pp_inPortKnown :: bool
  pp_hops :: "PathHop list"
  pp_links :: "LinkId list"
  pp_switches :: "SwitchId list"
  pp_visited :: "SwitchId set"

definition seed :: "Edge \<Rightarrow> Partial" where
  "seed e = \<lparr>pp_cur = port_sw (e_port e), pp_inPort = e_port e, pp_inPortKnown = True,
     pp_hops = [entry_hop (port_sw (e_port e)) (e_port e)], pp_links = [e_link e],
     pp_switches = [port_sw (e_port e)], pp_visited = {port_sw (e_port e)}\<rparr>"

definition seeds :: "DeviceId \<Rightarrow> Edge list \<Rightarrow> Partial list" where
  "seeds src es = map seed (filter (\<lambda>e. le_device (e_other e) = src \<and> edgeUsable e) es)"

text \<open>Filling in the exit of the last hop (\<open>hops.back()\<close>; a partial path always has one).\<close>

definition leave_to_device :: "PortId \<Rightarrow> PathHop list \<Rightarrow> PathHop list" where
  "leave_to_device p hs =
     butlast hs @ [(last hs)\<lparr>hop_outPort := p, hop_exitToDevice := True\<rparr>]"

definition leave_to_switch :: "PortId \<Rightarrow> PathHop list \<Rightarrow> PathHop list" where
  "leave_to_switch p hs =
     butlast hs @ [(last hs)\<lparr>hop_outPort := p, hop_exitToSwitch := True\<rparr>]"

definition anyDegraded :: "FabricTopology \<Rightarrow> LinkId list \<Rightarrow> bool" where
  "anyDegraded t ls \<longleftrightarrow>
     list_ex (\<lambda>i. case lookupLink t i of Some l \<Rightarrow> li_degraded l | None \<Rightarrow> False) ls"

definition finish_path ::
    "FabricTopology \<Rightarrow> DeviceId \<Rightarrow> DeviceId \<Rightarrow> Partial \<Rightarrow> Edge \<Rightarrow> FabricPath" where
  "finish_path t src dst p e =
     (let links = pp_links p @ [e_link e] in
      default_FabricPath\<lparr>
        fp_source := src, fp_destination := dst,
        fp_hops := leave_to_device (e_port e) (pp_hops p),
        fp_links := links,
        fp_switchSequence := pp_switches p,
        fp_topologyGen := t_topologyGen t,
        fp_partitionGen := MkGen 0, fp_switchGen := MkGen 0, fp_portGen := MkGen 0,
        fp_state := (if anyDegraded t links then EntityState.DEGRADED else EntityState.UP),
        fp_capable := True,
        fp_provenance := t_provenance t\<rparr>)"

text \<open>The inbound port on the next switch, from the reverse half of the link if present.\<close>

definition reverse_port :: "(SwitchId, Edge list) omap \<Rightarrow> SwitchId \<Rightarrow> SwitchId \<Rightarrow> PortId" where
  "reverse_port m nxt cur =
     (case om_find m nxt of
        None \<Rightarrow> port_unknown
      | Some es \<Rightarrow>
          (case find (\<lambda>re. isSwitchEnd (e_other re) \<and> le_sw (e_other re) = cur) es of
             None \<Rightarrow> port_unknown
           | Some re \<Rightarrow> e_port re))"

definition advance :: "(SwitchId, Edge list) omap \<Rightarrow> Partial \<Rightarrow> Edge \<Rightarrow> Partial" where
  "advance m p e =
     (let nxt = le_sw (e_other e) in
      p\<lparr>pp_cur := nxt,
        pp_hops := leave_to_switch (e_port e) (pp_hops p)
                   @ [entry_hop nxt (reverse_port m nxt (pp_cur p))],
        pp_links := pp_links p @ [e_link e],
        pp_switches := pp_switches p @ [nxt],
        pp_visited := insert nxt (pp_visited p)\<rparr>)"

fun expand ::
    "FabricTopology \<Rightarrow> TraversalConfig \<Rightarrow> (SwitchId, Edge list) omap \<Rightarrow> DeviceId \<Rightarrow> DeviceId \<Rightarrow>
     Partial \<Rightarrow> Edge list \<Rightarrow> FabricPath list \<Rightarrow> Partial list \<Rightarrow> FabricPath list \<times> Partial list" where
  "expand t cfg m src dst p [] result frontier = (result, frontier)"
| "expand t cfg m src dst p (e # es) result frontier =
     (if \<not> edgeUsable e then expand t cfg m src dst p es result frontier
      else if length result \<ge> unat (tc_maxPaths cfg) then (result, frontier)
      else if isDeviceEnd (e_other e) then
        (if le_device (e_other e) = dst
         then expand t cfg m src dst p es (result @ [finish_path t src dst p e]) frontier
         else expand t cfg m src dst p es result frontier)
      else if isSwitchEnd (e_other e) then
        (if \<not> tc_allowSwitchSwitching cfg then expand t cfg m src dst p es result frontier
         else if le_sw (e_other e) \<in> pp_visited p then expand t cfg m src dst p es result frontier
         else if length (pp_switches p) \<ge> unat (tc_maxDepth cfg)
         then expand t cfg m src dst p es result frontier
         else expand t cfg m src dst p es result (frontier @ [advance m p e]))
      else expand t cfg m src dst p es result frontier)"

subsection \<open>Termination of the search\<close>

definition targets :: "(SwitchId, Edge list) omap \<Rightarrow> SwitchId set" where
  "targets m = (\<lambda>e. le_sw (e_other e)) ` (\<Union>x \<in> set m. set (snd x))"

definition unvisited :: "(SwitchId, Edge list) omap \<Rightarrow> Partial \<Rightarrow> nat" where
  "unvisited m p = card (targets m - pp_visited p)"

definition branching :: "(SwitchId, Edge list) omap \<Rightarrow> nat" where
  "branching m = Suc (sum_list (map (\<lambda>x. length (snd x)) m))"

definition weight :: "(SwitchId, Edge list) omap \<Rightarrow> Partial list \<Rightarrow> nat" where
  "weight m ps = sum_list (map (\<lambda>p. branching m ^ unvisited m p) ps)"

lemma finite_targets [simp]: "finite (targets m)"
  by (simp add: targets_def)

lemma pp_visited_advance [simp]:
  "pp_visited (advance m p e) = insert (le_sw (e_other e)) (pp_visited p)"
  by (simp add: advance_def Let_def)

lemma unvisited_advance:
  assumes "(s, es) \<in> set m" and "e \<in> set es" and "le_sw (e_other e) \<notin> pp_visited p"
  shows "unvisited m (advance m p e) < unvisited m p"
proof -
  have "le_sw (e_other e) \<in> targets m - pp_visited p"
    using assms unfolding targets_def by force
  then show ?thesis
    unfolding unvisited_def
    by (metis Diff_insert card_Diff1_less finite_Diff finite_targets pp_visited_advance)
qed

lemma expand_frontier:
  "expand t cfg m src dst p es result frontier = (result', frontier') \<Longrightarrow>
   (s, edges) \<in> set m \<Longrightarrow> set es \<subseteq> set edges \<Longrightarrow>
   \<exists>new. frontier' = frontier @ new \<and> length new \<le> length es \<and>
     (\<forall>q \<in> set new. unvisited m q < unvisited m p)"
proof (induction es arbitrary: result frontier)
  case Nil
  then show ?case by simp
next
  case (Cons e es)
  have skip: ?case if "expand t cfg m src dst p es r frontier = (result', frontier')" for r
    using Cons.IH [OF that] Cons.prems(2,3) by fastforce
  have push: ?case if ex: "expand t cfg m src dst p es result (frontier @ [advance m p e]) =
      (result', frontier')" and fresh: "le_sw (e_other e) \<notin> pp_visited p"
  proof -
    obtain new where new: "frontier' = (frontier @ [advance m p e]) @ new"
      "length new \<le> length es" "\<forall>q \<in> set new. unvisited m q < unvisited m p"
      using Cons.IH [OF ex] Cons.prems(2,3) by auto
    then show ?thesis
      using unvisited_advance [OF Cons.prems(2) _ fresh] Cons.prems(3)
      by (intro exI [of _ "advance m p e # new"]) auto
  qed
  show ?case
    using Cons.prems(1) skip push by (auto split: if_splits)
qed

lemma weight_append [simp]: "weight m (ps @ qs) = weight m ps + weight m qs"
  by (simp add: weight_def)

lemma weight_Cons: "weight m (p # ps) = branching m ^ unvisited m p + weight m ps"
  by (simp add: weight_def)

lemma length_edges_less_branching: "(s, es) \<in> set m \<Longrightarrow> length es < branching m"
  unfolding branching_def
  by (force intro!: le_imp_less_Suc member_le_sum_list)

lemma weight_new:
  assumes "\<forall>q \<in> set new. unvisited m q < n" and "length new < branching m"
  shows "weight m new < branching m ^ n"
proof (cases new)
  case Nil
  then show ?thesis by (simp add: weight_def branching_def)
next
  case (Cons q qs)
  with assms(1) have n: "n = Suc (n - 1)" by auto
  have "branching m ^ unvisited m q \<le> branching m ^ (n - 1)" if "q \<in> set new" for q
    using assms(1) that by (intro power_increasing) (auto simp: branching_def)
  then have "weight m new \<le> length new * branching m ^ (n - 1)"
    unfolding weight_def by (induction new) (simp_all add: add_mono)
  also have "\<dots> < branching m * branching m ^ (n - 1)"
    using assms(2) by (intro mult_strict_right_mono) (auto simp: branching_def)
  also have "\<dots> = branching m ^ n"
    by (metis n power_Suc)
  finally show ?thesis .
qed

function search ::
    "FabricTopology \<Rightarrow> TraversalConfig \<Rightarrow> (SwitchId, Edge list) omap \<Rightarrow> DeviceId \<Rightarrow> DeviceId \<Rightarrow>
     Partial list \<Rightarrow> FabricPath list \<Rightarrow> FabricPath list" where
  "search t cfg m src dst [] result = result"
| "search t cfg m src dst (p # frontier) result =
     (if length result \<ge> unat (tc_maxPaths cfg) then result
      else (case om_find m (pp_cur p) of
              None \<Rightarrow> search t cfg m src dst frontier result
            | Some edges \<Rightarrow>
                search t cfg m src dst
                  (snd (expand t cfg m src dst p edges result frontier))
                  (fst (expand t cfg m src dst p edges result frontier))))"
  by pat_completeness auto
termination
proof (relation "measure (\<lambda>(t, cfg, m, src, dst, frontier, result). weight m frontier)")
  show "wf (measure (\<lambda>(t, cfg, m, src, dst, frontier, result). weight m frontier))"
    by simp
next
  fix t cfg m src dst p frontier result
  show "((t, cfg, m, src, dst, frontier, result), t, cfg, m, src, dst, p # frontier, result)
      \<in> measure (\<lambda>(t, cfg, m, src, dst, frontier, result). weight m frontier)"
    by (simp add: weight_Cons branching_def)
next
  fix t cfg and m :: "(SwitchId, Edge list) omap" and src dst and p :: Partial and frontier result edges
  assume found: "om_find m (pp_cur p) = Some edges"
  obtain r' f' where ex: "expand t cfg m src dst p edges result frontier = (r', f')"
    by fastforce
  then obtain new where "f' = frontier @ new" "length new \<le> length edges"
    "\<forall>q \<in> set new. unvisited m q < unvisited m p"
    using expand_frontier om_find_Some_in [OF found] by blast
  then have "weight m f' < weight m (p # frontier)"
    using weight_new [of new m "unvisited m p"]
      length_edges_less_branching [OF om_find_Some_in [OF found]]
    by (simp add: weight_Cons)
  then show "((t, cfg, m, src, dst, snd (expand t cfg m src dst p edges result frontier),
        fst (expand t cfg m src dst p edges result frontier)),
      t, cfg, m, src, dst, p # frontier, result)
      \<in> measure (\<lambda>(t, cfg, m, src, dst, frontier, result). weight m frontier)"
    by (simp add: ex)
qed

definition endpoint_live :: "EntityState \<Rightarrow> bool" where
  "endpoint_live s \<longleftrightarrow>
     s = EntityState.UP \<or> s = EntityState.PRESENT \<or> s = EntityState.DEGRADED"

definition enumeratePaths ::
    "FabricTopology \<Rightarrow> DeviceId \<Rightarrow> DeviceId \<Rightarrow> TraversalConfig \<Rightarrow> FabricPath list" where
  "enumeratePaths t src dst cfg =
     (if tc_maxPaths cfg = 0 \<or> tc_maxDepth cfg = 0 then []
      else (case (lookupDevice t src, lookupDevice t dst) of
              (Some srec, Some drec) \<Rightarrow>
                if \<not> endpoint_live (dev_state srec) then []
                else if \<not> endpoint_live (dev_state drec) then []
                else if src = dst then []
                else search t cfg (swEdges t) src dst (seeds src (deviceEdges (swEdges t))) []
            | _ \<Rightarrow> []))"

section \<open>Reachability\<close>

definition switch_blocks :: "EntityState \<Rightarrow> bool" where
  "switch_blocks s \<longleftrightarrow>
     s = EntityState.DOWN \<or> s = EntityState.UNREACHABLE \<or> s = EntityState.ABSENT \<or>
     s = EntityState.STALE \<or> s = EntityState.REVALIDATION_REQUIRED"

definition port_blocks :: "EntityState \<Rightarrow> bool" where
  "port_blocks s \<longleftrightarrow>
     s = EntityState.DOWN \<or> s = EntityState.UNREACHABLE \<or> s = EntityState.DISABLED \<or>
     s = EntityState.STALE \<or> s = EntityState.REVALIDATION_REQUIRED"

definition entity_stale :: "EntityState \<Rightarrow> bool" where
  "entity_stale s \<longleftrightarrow> s = EntityState.STALE \<or> s = EntityState.REVALIDATION_REQUIRED"

definition partition_stale :: "PartitionState \<Rightarrow> bool" where
  "partition_stale s \<longleftrightarrow>
     s = PartitionState.STALE \<or> s = PartitionState.REVALIDATION_REQUIRED"

definition endpoint_gone :: "EntityState \<Rightarrow> bool" where
  "endpoint_gone s \<longleftrightarrow>
     s = EntityState.DOWN \<or> s = EntityState.ABSENT \<or> s = EntityState.UNREACHABLE"

text \<open>The last partition in key order that is not stale and has the device as a member.\<close>

definition memberPartition :: "FabricTopology \<Rightarrow> DeviceId \<Rightarrow> FabricPartition option" where
  "memberPartition t d =
     fold (\<lambda>p acc. if partition_stale (pa_state p) then acc
                   else if d \<in> set (pa_members p) then Some p else acc)
       (om_values (t_partitions t)) None"

definition path_reachability :: "FabricTopology \<Rightarrow> FabricPath list \<Rightarrow> Reachability" where
  "path_reachability t paths =
     (if paths = [] then
        (if list_ex (\<lambda>r. switch_blocks (sw_state r)) (om_values (t_switches t))
         then Reachability.SWITCH_DOWN
         else if list_ex (\<lambda>r. port_blocks (po_state r)) (om_values (t_ports t))
         then Reachability.PORT_DOWN
         else if list_ex (\<lambda>r. entity_stale (sw_state r)) (om_values (t_switches t))
         then Reachability.REVALIDATION_REQUIRED
         else Reachability.UNREACHABLE)
      else if \<not> list_ex (\<lambda>p. fp_state p = EntityState.UP) paths
      then Reachability.REACHABLE_DEGRADED
      else Reachability.REACHABLE)"

definition deviceReachability ::
    "FabricTopology \<Rightarrow> DeviceId \<Rightarrow> DeviceId \<Rightarrow> Reachability" where
  "deviceReachability t src dst =
     (case lookupDevice t src of
        None \<Rightarrow> Reachability.INSUFFICIENT_EVIDENCE
      | Some s \<Rightarrow>
     (case lookupDevice t dst of
        None \<Rightarrow> Reachability.INSUFFICIENT_EVIDENCE
      | Some d \<Rightarrow>
        if src = dst then Reachability.REACHABLE
        else if entity_stale (dev_state s) then Reachability.ENDPOINT_STALE
        else if entity_stale (dev_state d) then Reachability.ENDPOINT_STALE
        else if dev_state s = EntityState.UNSUPPORTED \<or> dev_state d = EntityState.UNSUPPORTED
        then Reachability.UNSUPPORTED
        else if endpoint_gone (dev_state s) \<or> endpoint_gone (dev_state d)
        then Reachability.UNREACHABLE
        else (case (memberPartition t src, memberPartition t dst) of
                (Some sp, Some dp) \<Rightarrow>
                  if pa_id sp \<noteq> pa_id dp then Reachability.PARTITION_BLOCKED
                  else path_reachability t (enumeratePaths t src dst default_TraversalConfig)
              | _ \<Rightarrow> path_reachability t (enumeratePaths t src dst default_TraversalConfig))))"

section \<open>Health\<close>

definition healthObservations :: "FabricTopology \<Rightarrow> SwitchHealthObservation list" where
  "healthObservations t =
     map (\<lambda>r. \<lparr>sh_sw = sw_id r, sh_state = sw_state r, sh_reason = [],
            sh_worker = sw_worker r, sh_workerKnown = sw_workerKnown r,
            sh_workerBoot = sw_workerBoot r, sh_provenance = sw_provenance r,
            sh_source = sw_source r, sh_topologyGen = sw_topologyGen r, sh_matched = True\<rparr>)
       (om_values (t_switches t))"

definition fabricHealth :: "FabricTopology \<Rightarrow> FabricHealth" where
  "fabricHealth t =
     (let switches = om_values (t_switches t); ports = om_values (t_ports t);
          devices = om_values (t_devices t); partitions = om_values (t_partitions t);
          anyStale = list_ex (\<lambda>r. entity_stale (sw_state r)) switches
            \<or> list_ex (\<lambda>r. entity_stale (po_state r)) ports
            \<or> list_ex (\<lambda>r. entity_stale (dev_state r)) devices
            \<or> list_ex (\<lambda>p. partition_stale (pa_state p)) partitions;
          anySwitchFailure = list_ex (\<lambda>r. sw_state r = EntityState.DOWN
            \<or> sw_state r = EntityState.UNREACHABLE \<or> sw_state r = EntityState.ABSENT) switches;
          anyPortFailure = list_ex (\<lambda>r. po_state r = EntityState.DOWN
            \<or> po_state r = EntityState.UNREACHABLE \<or> po_state r = EntityState.DISABLED) ports;
          anyEndpointFailure = list_ex (\<lambda>r. endpoint_gone (dev_state r)) devices;
          anyRevalidation =
            list_ex (\<lambda>p. pa_state p = PartitionState.RECONFIGURING) partitions;
          anyDegraded = list_ex (\<lambda>r. sw_state r = EntityState.DEGRADED) switches
            \<or> list_ex (\<lambda>r. po_state r = EntityState.DEGRADED) ports
      in if anySwitchFailure then FabricHealth.SWITCH_FAILURE
         else if anyPortFailure then FabricHealth.PORT_FAILURE
         else if anyEndpointFailure then FabricHealth.ENDPOINT_FAILURE
         else if anyRevalidation then FabricHealth.REVALIDATION_REQUIRED
         else if anyStale then FabricHealth.REVALIDATION_REQUIRED
         else if anyDegraded then FabricHealth.DEGRADED
         else FabricHealth.HEALTHY)"

section \<open>Integrity\<close>

text \<open>The scan for repeated keys: an \<open>insert\<close> into the set of seen keys that fails.\<close>

fun duplicate_violations :: "string \<Rightarrow> 'k list \<Rightarrow> 'k set \<Rightarrow> string list" where
  "duplicate_violations msg [] seen = []"
| "duplicate_violations msg (k # ks) seen =
     (if k \<in> seen then msg # duplicate_violations msg ks seen
      else duplicate_violations msg ks (insert k seen))"

definition violation_if :: "bool \<Rightarrow> string \<Rightarrow> string list" where
  "violation_if b msg = (if b then [msg] else [])"

definition switch_violations :: "SwitchId \<times> SwitchRecord \<Rightarrow> string list" where
  "switch_violations x = violation_if (sw_id (snd x) \<noteq> fst x) ''switch map key != record id''"

definition port_violations :: "FabricTopology \<Rightarrow> PortId \<times> SwitchPortRecord \<Rightarrow> string list" where
  "port_violations t x =
     violation_if (\<not> om_count (t_switches t) (port_sw (fst x))) ''port references missing switch''
     @ violation_if (port_index (fst x) \<ge> kMaxPortsPerSwitch) ''port index out of bound''"

definition link_violations :: "FabricTopology \<Rightarrow> LinkId \<times> LinkRecord \<Rightarrow> string list" where
  "link_violations t x = (let r = snd x in
     violation_if (\<not> om_count (t_switches t) (li_rootSwitch r)) ''link references missing root switch''
     @ violation_if (\<not> om_count (t_ports t) (li_port r)) ''link references missing port''
     @ violation_if (port_sw (li_port r) \<noteq> li_rootSwitch r) ''link port switch != root switch''
     @ (if le_kind (li_otherEnd r) = KDevice
        then violation_if (\<not> om_count (t_devices t) (le_device (li_otherEnd r)))
               ''link references missing device''
        else violation_if (\<not> om_count (t_switches t) (le_sw (li_otherEnd r)))
               ''link references missing switch''))"

definition partition_violations ::
    "FabricTopology \<Rightarrow> PartitionId \<times> FabricPartition \<Rightarrow> string list" where
  "partition_violations t x =
     concat (map (\<lambda>m. violation_if (\<not> om_count (t_devices t) m)
                        ''partition references missing member'') (pa_members (snd x)))
     @ concat (map (\<lambda>s. violation_if (\<not> om_count (t_switches t) s)
                        ''partition references missing switch'') (pa_switches (snd x)))"

definition checkIntegrity :: "FabricTopology \<Rightarrow> string list" where
  "checkIntegrity t =
     duplicate_violations ''duplicate device id'' (map fst (t_devices t)) {}
     @ duplicate_violations ''duplicate switch id'' (map fst (t_switches t)) {}
     @ duplicate_violations ''duplicate port id'' (map fst (t_ports t)) {}
     @ concat (map switch_violations (t_switches t))
     @ concat (map (port_violations t) (t_ports t))
     @ concat (map (link_violations t) (t_links t))
     @ concat (map (partition_violations t) (t_partitions t))"

end
