(* ===== verification/Fabric_Synthetic.thy ===== *)
theory Fabric_Synthetic
  imports Fabric_Records
begin

text \<open>
  The synthetic backend (\<open>synthetic_backend.h\<close>, \<open>synthetic_backend.cpp\<close>): the record
  builders, the nine scenarios of \<open>buildSyntheticScan\<close>, and the backend object. The C++
  builds a scan by mutating a local variable; here each building step maps the scan to the
  next one. The scenarios are also the concrete inputs of the witnesses of this
  development.
\<close>

datatype ScenarioType =
    EMPTY | SINGLE_SWITCH_TWO_GPU | SINGLE_SWITCH_MANY_GPU | TWO_SWITCH_REDUNDANT
  | TWO_SWITCH_LINEAR | DENSE_MULTI_SWITCH | PARTITION_SPLIT | DEGRADED_PORT | PARALLEL_LINKS

section \<open>Record builders\<close>

definition makeSyntheticDevice :: "DeviceId \<Rightarrow> string \<Rightarrow> EntityState \<Rightarrow> DeviceRecord" where
  "makeSyntheticDevice i gen st = \<lparr>
     dev_id = i,
     dev_generation = \<lparr>dg_name = gen, dg_observed = True\<rparr>,
     dev_present =
       (st = EntityState.UP \<or> st = EntityState.PRESENT \<or> st = EntityState.DEGRADED),
     dev_backendId = ''synthetic-device-'' @ u64_to_string (get i),
     dev_vendor = ''Synthetic'', dev_product = ''SynthGPU'', dev_state = st,
     dev_partition = MkStringId [], dev_attachedSwitch = MkId 0,
     dev_attachedSwitchKnown = False, dev_worker = MkStringId [], dev_workerKnown = False,
     dev_workerBoot = 0, dev_provenance = Provenance.SYNTHETIC,
     dev_source = EvidenceSource.SYNTHETIC_FIXTURE, dev_topologyGen = MkGen 0\<rparr>"

definition makeSyntheticSwitch :: "SwitchId \<Rightarrow> string \<Rightarrow> u32 \<Rightarrow> SwitchRecord" where
  "makeSyntheticSwitch i generation portCount = \<lparr>
     sw_id = i, sw_gen = MkGen 1, sw_generationName = generation,
     sw_generationObserved = True, sw_vendor = ''Synthetic'', sw_product = ''SynthSwitch'',
     sw_family = generation, sw_portCount = portCount, sw_state = EntityState.UP,
     sw_fabric = MkStringId [], sw_fabricKnown = False, sw_partition = MkStringId [],
     sw_partitionKnown = False, sw_worker = MkStringId [], sw_workerKnown = False,
     sw_workerBoot = 0, sw_provenance = Provenance.SYNTHETIC,
     sw_source = EvidenceSource.SYNTHETIC_FIXTURE, sw_topologyGen = MkGen 0\<rparr>"

definition makeSyntheticPort :: "SwitchId \<Rightarrow> u32 \<Rightarrow> LinkEnd \<Rightarrow> SwitchPortRecord" where
  "makeSyntheticPort s index attached = \<lparr>
     po_id = MkPortId s index, po_gen = MkGen 1, po_attached = attached,
     po_attachedKnown = True, po_state = EntityState.UP, po_activeLinkCount = 1,
     po_activeLinkCountKnown = True, po_nominalBandwidthMBps = 900 * 1024,
     po_nominalBandwidthKnown = True, po_worker = MkStringId [], po_workerKnown = False,
     po_workerBoot = 0, po_provenance = Provenance.SYNTHETIC,
     po_source = EvidenceSource.SYNTHETIC_FIXTURE, po_topologyGen = MkGen 0\<rparr>"

definition makeSyntheticLink :: "LinkId \<Rightarrow> SwitchId \<Rightarrow> PortId \<Rightarrow> LinkEnd \<Rightarrow> LinkRecord" where
  "makeSyntheticLink i root port other = \<lparr>
     li_id = i, li_gen = MkGen 1, li_rootSwitch = root, li_port = port,
     li_otherEnd = other, li_otherEndKnown = True, li_state = EntityState.UP,
     li_degraded = False, li_worker = MkStringId [], li_workerKnown = False,
     li_workerBoot = 0, li_provenance = Provenance.SYNTHETIC,
     li_source = EvidenceSource.SYNTHETIC_FIXTURE, li_topologyGen = MkGen 0\<rparr>"

text \<open>\<open>std::sort\<close> followed by \<open>erase(unique(...))\<close>: adjacent equal elements are dropped.\<close>

definition sort_unique :: "'a::linorder list \<Rightarrow> 'a list" where
  "sort_unique xs = remdups_adj (sort xs)"

definition makeSyntheticPartition ::
    "PartitionId \<Rightarrow> DeviceId list \<Rightarrow> SwitchId list \<Rightarrow> PartitionState \<Rightarrow> FabricPartition" where
  "makeSyntheticPartition i members switches st = \<lparr>
     pa_id = i, pa_gen = MkGen 1, pa_fabric = MkStringId ''synthetic-fabric'',
     pa_members = sort_unique members, pa_switches = sort_unique switches, pa_state = st,
     pa_worker = MkStringId [], pa_workerKnown = False, pa_workerBoot = 0,
     pa_provenance = Provenance.SYNTHETIC, pa_source = EvidenceSource.SYNTHETIC_FIXTURE,
     pa_topologyGen = MkGen 0\<rparr>"

section \<open>Building a scan\<close>

definition empty_scan :: Scan where
  "empty_scan = \<lparr>sc_devices = [], sc_switches = [], sc_ports = [], sc_links = [],
     sc_partitions = [], sc_health = [], sc_congestion = [], sc_error = []\<rparr>"

definition push_switch :: "SwitchId \<Rightarrow> u32 \<Rightarrow> Scan \<Rightarrow> Scan" where
  "push_switch s n sc =
     sc\<lparr>sc_switches := sc_switches sc @ [makeSyntheticSwitch s ''SynthSwitch-1'' n]\<rparr>"

definition push_port :: "SwitchId \<Rightarrow> u32 \<Rightarrow> LinkEnd \<Rightarrow> Scan \<Rightarrow> Scan" where
  "push_port s i e sc = sc\<lparr>sc_ports := sc_ports sc @ [makeSyntheticPort s i e]\<rparr>"

definition push_link :: "u64 \<Rightarrow> SwitchId \<Rightarrow> u32 \<Rightarrow> LinkEnd \<Rightarrow> Scan \<Rightarrow> Scan" where
  "push_link i s port e sc =
     sc\<lparr>sc_links := sc_links sc @ [makeSyntheticLink (MkId i) s (MkPortId s port) e]\<rparr>"

definition push_partition :: "FabricPartition \<Rightarrow> Scan \<Rightarrow> Scan" where
  "push_partition p sc = sc\<lparr>sc_partitions := sc_partitions sc @ [p]\<rparr>"

definition addDeviceLink :: "DeviceId \<Rightarrow> SwitchId \<Rightarrow> u32 \<Rightarrow> u64 \<Rightarrow> Scan \<Rightarrow> Scan" where
  "addDeviceLink d s portIdx linkId sc =
     (let sc1 = sc\<lparr>sc_devices := sc_devices sc
                     @ [makeSyntheticDevice d ''Synthetic'' EntityState.UP]\<rparr>
      in push_link linkId s portIdx (toDevice d) (push_port s portIdx (toDevice d) sc1))"

definition mesh :: "SwitchId \<Rightarrow> SwitchId \<Rightarrow> u32 \<Rightarrow> u32 \<Rightarrow> u64 \<Rightarrow> Scan \<Rightarrow> Scan" where
  "mesh x y px py lid sc =
     push_link (lid + 1) y py (toSwitch x) (push_link lid x px (toSwitch y)
       (push_port y py (toSwitch x) (push_port x px (toSwitch y) sc)))"

text \<open>The loop counter \<open>i = 0, 1, 2, 3\<close> of the scenarios with four devices.\<close>

definition four :: "u32 list" where
  "four = [0, 1, 2, 3]"

definition degrade_port :: "PortId \<Rightarrow> Scan \<Rightarrow> Scan" where
  "degrade_port p sc =
     sc\<lparr>sc_ports := map (\<lambda>r. if po_id r = p then r\<lparr>po_state := EntityState.DEGRADED\<rparr> else r)
                       (sc_ports sc),
        sc_links := map (\<lambda>l. if li_port l = p
                              then l\<lparr>li_state := EntityState.DEGRADED, li_degraded := True\<rparr> else l)
                       (sc_links sc)\<rparr>"

definition scenario_steps :: "ScenarioType \<Rightarrow> (Scan \<Rightarrow> Scan) list" where
  "scenario_steps type = (case type of
     EMPTY \<Rightarrow> []
   | SINGLE_SWITCH_TWO_GPU \<Rightarrow>
       [push_switch (MkId 10) 2,
        addDeviceLink (MkId 1) (MkId 10) 0 100, addDeviceLink (MkId 2) (MkId 10) 1 101]
   | SINGLE_SWITCH_MANY_GPU \<Rightarrow>
       push_switch (MkId 10) 4
       # map (\<lambda>i. addDeviceLink (MkId (ucast (i + 1))) (MkId 10) i (100 + ucast i)) four
   | TWO_SWITCH_REDUNDANT \<Rightarrow>
       [push_switch (MkId 10) 3, push_switch (MkId 11) 3,
        addDeviceLink (MkId 1) (MkId 10) 0 100, addDeviceLink (MkId 1) (MkId 11) 0 101,
        addDeviceLink (MkId 2) (MkId 10) 1 102, addDeviceLink (MkId 2) (MkId 11) 1 103,
        push_port (MkId 10) 2 (toSwitch (MkId 11)), push_port (MkId 11) 2 (toSwitch (MkId 10)),
        push_link 120 (MkId 10) 2 (toSwitch (MkId 11)),
        push_link 121 (MkId 11) 2 (toSwitch (MkId 10))]
   | TWO_SWITCH_LINEAR \<Rightarrow>
       [push_switch (MkId 10) 2, push_switch (MkId 11) 2,
        addDeviceLink (MkId 1) (MkId 10) 0 100, addDeviceLink (MkId 2) (MkId 11) 0 101,
        push_port (MkId 10) 1 (toSwitch (MkId 11)), push_port (MkId 11) 1 (toSwitch (MkId 10)),
        push_link 120 (MkId 10) 1 (toSwitch (MkId 11)),
        push_link 121 (MkId 11) 1 (toSwitch (MkId 10))]
   | DENSE_MULTI_SWITCH \<Rightarrow>
       [push_switch (MkId 10) 4, push_switch (MkId 11) 4, push_switch (MkId 12) 4]
       @ concat (map (\<lambda>i.
           [addDeviceLink (MkId (ucast (i + 1))) (MkId 10) i (200 + ucast i),
            addDeviceLink (MkId (ucast (i + 1))) (MkId 11) i (210 + ucast i),
            addDeviceLink (MkId (ucast (i + 1))) (MkId 12) i (220 + ucast i)]) four)
       @ [mesh (MkId 10) (MkId 11) 0 0 300, mesh (MkId 10) (MkId 12) 1 0 320,
          mesh (MkId 11) (MkId 12) 1 1 340]
   | PARTITION_SPLIT \<Rightarrow>
       push_switch (MkId 10) 4
       # map (\<lambda>i. addDeviceLink (MkId (ucast (i + 1))) (MkId 10) i (100 + ucast i)) four
       @ [push_partition (makeSyntheticPartition (MkStringId ''p0'') [MkId 1, MkId 2] [MkId 10]
            PartitionState.ACTIVE),
          push_partition (makeSyntheticPartition (MkStringId ''p1'') [MkId 3, MkId 4] [MkId 10]
            PartitionState.ACTIVE)]
   | DEGRADED_PORT \<Rightarrow>
       [push_switch (MkId 10) 2,
        addDeviceLink (MkId 1) (MkId 10) 0 100, addDeviceLink (MkId 2) (MkId 10) 1 101,
        degrade_port (MkPortId (MkId 10) 1)]
   | PARALLEL_LINKS \<Rightarrow>
       [push_switch (MkId 10) 3,
        addDeviceLink (MkId 1) (MkId 10) 0 100, addDeviceLink (MkId 2) (MkId 10) 1 101,
        addDeviceLink (MkId 2) (MkId 10) 2 102])"

definition buildSyntheticScan :: "ScenarioType \<Rightarrow> Scan" where
  "buildSyntheticScan type =
     (let s = fold (\<lambda>step. step) (scenario_steps type) empty_scan
      in s\<lparr>sc_devices := map (\<lambda>d. if dev_state d \<noteq> EntityState.UP then d\<lparr>dev_present := True\<rparr>
                                 else d) (sc_devices s)\<rparr>)"

text \<open>A scan filed into an otherwise empty snapshot: the concrete fabrics of the witnesses.\<close>

definition scan_topology :: "Scan \<Rightarrow> FabricTopology" where
  "scan_topology s = default_FabricTopology\<lparr>
     t_devices := om_insert_all dev_id (sc_devices s) [],
     t_switches := om_insert_all sw_id (sc_switches s) [],
     t_ports := om_insert_all po_id (sc_ports s) [],
     t_links := om_insert_all li_id (sc_links s) [],
     t_partitions := om_insert_all pa_id (sc_partitions s) []\<rparr>"

abbreviation redundant_fabric :: FabricTopology where
  "redundant_fabric \<equiv> scan_topology (buildSyntheticScan TWO_SWITCH_REDUNDANT)"

abbreviation split_fabric :: FabricTopology where
  "split_fabric \<equiv> scan_topology (buildSyntheticScan PARTITION_SPLIT)"

section \<open>The backend object\<close>

record SyntheticBackend =
  sb_type :: ScenarioType
  sb_scan :: Scan

definition SyntheticBackend_new :: "ScenarioType \<Rightarrow> SyntheticBackend" where
  "SyntheticBackend_new type = \<lparr>sb_type = type, sb_scan = empty_scan\<rparr>"

definition SyntheticBackend_initialize ::
    "SyntheticBackend \<Rightarrow> unit Result \<times> SyntheticBackend" where
  "SyntheticBackend_initialize b = (Inr (), b\<lparr>sb_scan := buildSyntheticScan (sb_type b)\<rparr>)"

definition SyntheticBackend_capabilities :: "SyntheticBackend \<Rightarrow> BackendCapabilities" where
  "SyntheticBackend_capabilities b = \<lparr>
     bc_deviceDiscovery = True, bc_switchDiscovery = True, bc_portDiscovery = True,
     bc_partitionDiscovery = True, bc_linkDiscovery = True, bc_switchManagement = True,
     bc_telemetry = True, bc_congestionCounters = True, bc_nvSwitchPresent = False,
     bc_provenance = Provenance.SYNTHETIC, bc_name = ''synthetic''\<rparr>"

definition SyntheticBackend_scan :: "SyntheticBackend \<Rightarrow> Scan Result" where
  "SyntheticBackend_scan b = Inr (sb_scan b)"

section \<open>Every record of a scan is synthetic\<close>

definition scan_synthetic :: "Scan \<Rightarrow> bool" where
  "scan_synthetic s \<longleftrightarrow>
     (\<forall>d \<in> set (sc_devices s). dev_provenance d = Provenance.SYNTHETIC) \<and>
     (\<forall>x \<in> set (sc_switches s). sw_provenance x = Provenance.SYNTHETIC) \<and>
     (\<forall>p \<in> set (sc_ports s). po_provenance p = Provenance.SYNTHETIC) \<and>
     (\<forall>l \<in> set (sc_links s). li_provenance l = Provenance.SYNTHETIC) \<and>
     (\<forall>p \<in> set (sc_partitions s). pa_provenance p = Provenance.SYNTHETIC)"

lemmas scan_step_defs = push_switch_def push_port_def push_link_def push_partition_def
  addDeviceLink_def mesh_def degrade_port_def Let_def

lemmas synthetic_record_defs = makeSyntheticDevice_def makeSyntheticSwitch_def
  makeSyntheticPort_def makeSyntheticLink_def makeSyntheticPartition_def

definition keeps_synthetic :: "(Scan \<Rightarrow> Scan) \<Rightarrow> bool" where
  "keeps_synthetic f \<longleftrightarrow> (\<forall>s. scan_synthetic s \<longrightarrow> scan_synthetic (f s))"

lemma keeps_synthetic_steps [simp]:
  "keeps_synthetic (push_switch s n)"
  "keeps_synthetic (push_port s i e)"
  "keeps_synthetic (push_link k s i e)"
  "keeps_synthetic (push_partition (makeSyntheticPartition q ms ss st))"
  "keeps_synthetic (addDeviceLink d s i k)"
  "keeps_synthetic (mesh x y i j k)"
  "keeps_synthetic (degrade_port p)"
  by (auto simp: keeps_synthetic_def scan_synthetic_def scan_step_defs synthetic_record_defs)

lemma keeps_synthetic_scenario: "\<forall>f \<in> set (scenario_steps type). keeps_synthetic f"
  by (cases type) (auto simp: scenario_steps_def)

lemma keeps_synthetic_fold:
  "\<forall>f \<in> set fs. keeps_synthetic f \<Longrightarrow> scan_synthetic s \<Longrightarrow>
   scan_synthetic (fold (\<lambda>step. step) fs s)"
  by (induction fs arbitrary: s) (auto simp: keeps_synthetic_def)

lemma scan_synthetic_build: "scan_synthetic (buildSyntheticScan type)"
proof -
  have "scan_synthetic (fold (\<lambda>step. step) (scenario_steps type) empty_scan)"
    by (rule keeps_synthetic_fold [OF keeps_synthetic_scenario])
      (simp add: scan_synthetic_def empty_scan_def)
  then show ?thesis
    by (auto simp: buildSyntheticScan_def Let_def scan_synthetic_def)
qed

end
