(* ===== verification/Fabric_Paths.thy ===== *)
theory Fabric_Paths
  imports Fabric_Topology Fabric_Synthetic "HOL-Library.Sublist"
begin

text \<open>
  Correctness of \<open>enumeratePaths\<close>. The specification is a relation on the topology itself,
  with no search: \<open>switch_walk\<close> says which sequences of links and switches a message can
  follow from the source through usable links without visiting a switch twice, and
  \<open>fabric_route\<close> that such a walk ends at the destination. The search is sound for it, is
  complete for it unless it stopped at the path bound, keeps that bound, and reports no
  route twice.
\<close>

section \<open>Specification\<close>

definition usable_link :: "FabricTopology \<Rightarrow> LinkRecord \<Rightarrow> bool" where
  "usable_link t l \<longleftrightarrow>
     l \<in> set (om_values (t_links t)) \<and> traversableState (li_state l) \<and>
     (\<exists>r. lookupPort t (li_port l) = Some r \<and> traversableState (po_state r))"

definition crosses ::
    "FabricTopology \<Rightarrow> TraversalConfig \<Rightarrow> SwitchId list \<Rightarrow> LinkRecord \<Rightarrow> bool" where
  "crosses t cfg ss l \<longleftrightarrow>
     usable_link t l \<and> li_rootSwitch l = last ss \<and> isSwitchEnd (li_otherEnd l) \<and>
     tc_allowSwitchSwitching cfg \<and> le_sw (li_otherEnd l) \<notin> set ss \<and>
     length ss < unat (tc_maxDepth cfg)"

definition delivers :: "FabricTopology \<Rightarrow> DeviceId \<Rightarrow> SwitchId list \<Rightarrow> LinkRecord \<Rightarrow> bool" where
  "delivers t dst ss l \<longleftrightarrow>
     usable_link t l \<and> li_rootSwitch l = last ss \<and> isDeviceEnd (li_otherEnd l) \<and>
     le_device (li_otherEnd l) = dst"

definition attaches :: "FabricTopology \<Rightarrow> DeviceId \<Rightarrow> LinkRecord \<Rightarrow> bool" where
  "attaches t src l \<longleftrightarrow>
     usable_link t l \<and> isDeviceEnd (li_otherEnd l) \<and> le_device (li_otherEnd l) = src"

inductive switch_walk ::
    "FabricTopology \<Rightarrow> TraversalConfig \<Rightarrow> DeviceId \<Rightarrow> LinkId list \<Rightarrow> SwitchId list \<Rightarrow> bool"
  for t cfg src where
  enter: "attaches t src l \<Longrightarrow> switch_walk t cfg src [li_id l] [port_sw (li_port l)]"
| cross: "switch_walk t cfg src ls ss \<Longrightarrow> crosses t cfg ss l \<Longrightarrow>
     switch_walk t cfg src (ls @ [li_id l]) (ss @ [le_sw (li_otherEnd l)])"

definition fabric_route ::
    "FabricTopology \<Rightarrow> TraversalConfig \<Rightarrow> DeviceId \<Rightarrow> DeviceId \<Rightarrow>
     LinkId list \<Rightarrow> SwitchId list \<Rightarrow> bool" where
  "fabric_route t cfg src dst ls ss \<longleftrightarrow>
     (\<exists>ls' l. ls = ls' @ [li_id l] \<and> switch_walk t cfg src ls' ss \<and> delivers t dst ss l)"

text \<open>The endpoint conditions under which the search starts at all.\<close>

definition endpoints_ready :: "FabricTopology \<Rightarrow> DeviceId \<Rightarrow> DeviceId \<Rightarrow> bool" where
  "endpoints_ready t src dst \<longleftrightarrow> src \<noteq> dst \<and>
     (\<exists>r. lookupDevice t src = Some r \<and> endpoint_live (dev_state r)) \<and>
     (\<exists>r. lookupDevice t dst = Some r \<and> endpoint_live (dev_state r))"

lemma switch_walk_nonempty: "switch_walk t cfg src ls ss \<Longrightarrow> ls \<noteq> [] \<and> ss \<noteq> []"
  by (induction rule: switch_walk.induct) auto

lemma switch_walk_distinct: "switch_walk t cfg src ls ss \<Longrightarrow> distinct ss"
  by (induction rule: switch_walk.induct) (auto simp: crosses_def)

lemma switch_walk_length:
  "switch_walk t cfg src ls ss \<Longrightarrow> length ls = length ss"
  by (induction rule: switch_walk.induct) auto

lemma switch_walk_depth:
  "switch_walk t cfg src ls ss \<Longrightarrow> 0 < unat (tc_maxDepth cfg) \<Longrightarrow>
   length ss \<le> unat (tc_maxDepth cfg)"
  by (induction rule: switch_walk.induct) (auto simp: crosses_def)

lemma switch_walk_links:
  "switch_walk t cfg src ls ss \<Longrightarrow> i \<in> set ls \<Longrightarrow> \<exists>l. usable_link t l \<and> li_id l = i"
  by (induction rule: switch_walk.induct) (auto simp: attaches_def crosses_def)

lemma fabric_route_links:
  "fabric_route t cfg src dst ls ss \<Longrightarrow> i \<in> set ls \<Longrightarrow> \<exists>l. usable_link t l \<and> li_id l = i"
  by (auto simp: fabric_route_def delivers_def dest: switch_walk_links)

section \<open>The adjacency index\<close>

definition edges_of :: "(SwitchId, Edge list) omap \<Rightarrow> SwitchId \<Rightarrow> Edge list" where
  "edges_of m s = (case om_find m s of None \<Rightarrow> [] | Some es \<Rightarrow> es)"

lemma edgeUsable_mkEdge:
  "l \<in> set (om_values (t_links t)) \<Longrightarrow> edgeUsable (mkEdge t l) \<longleftrightarrow> usable_link t l"
  by (auto simp: edgeUsable_def mkEdge_def usable_link_def traversableState_def
      split: option.splits)

lemma mkEdge_simps [simp]:
  "e_link (mkEdge t l) = li_id l"
  "e_port (mkEdge t l) = li_port l"
  "e_other (mkEdge t l) = li_otherEnd l"
  by (simp_all add: mkEdge_def)

lemma edges_of_push_edges:
  "edges_of (fold (push_edge t) ls m) s =
     edges_of m s @ map (mkEdge t) (filter (\<lambda>l. li_rootSwitch l = s) ls)"
  by (induction ls arbitrary: m) (auto simp: edges_of_def push_edge_def split: option.splits)

lemma om_ok_push_edges: "om_ok m \<Longrightarrow> om_ok (fold (push_edge t) ls m)"
  by (induction ls arbitrary: m) (auto simp: push_edge_def)

lemma om_ok_swEdges [simp]: "om_ok (swEdges t)"
  by (simp add: swEdges_def om_ok_push_edges)

lemma edges_of_swEdges:
  "edges_of (swEdges t) s =
     stable_sort lessPortLink
       (map (mkEdge t) (filter (\<lambda>l. li_rootSwitch l = s) (om_values (t_links t))))"
proof -
  have "edges_of (om_map f m) s = f (edges_of m s)" if "f [] = []" for f m
    using that by (simp add: edges_of_def split: option.splits)
  then show ?thesis
    by (simp add: swEdges_def edges_of_push_edges) (simp add: edges_of_def stable_sort_def)
qed

lemma set_edges_of_swEdges:
  "set (edges_of (swEdges t) s) =
     mkEdge t ` {l \<in> set (om_values (t_links t)). li_rootSwitch l = s}"
  by (auto simp: edges_of_swEdges)

lemma edges_of_entries: "om_ok m \<Longrightarrow> (s, es) \<in> set m \<Longrightarrow> edges_of m s = es"
  by (simp add: edges_of_def om_find_eq_Some [symmetric])

lemma in_edges_of: "e \<in> set (edges_of m s) \<Longrightarrow> \<exists>es. (s, es) \<in> set m \<and> e \<in> set es"
  by (cases "om_find m s") (auto simp: edges_of_def dest: om_find_Some_in)

lemma set_deviceEdges:
  "set (deviceEdges (swEdges t)) =
     mkEdge t ` {l \<in> set (om_values (t_links t)). isDeviceEnd (li_otherEnd l)}"
proof -
  have "(\<Union>x \<in> set (swEdges t). set (snd x)) = mkEdge t ` set (om_values (t_links t))"
  proof (intro equalityI subsetI)
    fix e assume "e \<in> (\<Union>x \<in> set (swEdges t). set (snd x))"
    then obtain s es where "(s, es) \<in> set (swEdges t)" and "e \<in> set es" by auto
    then have "e \<in> set (edges_of (swEdges t) s)"
      by (simp add: edges_of_entries)
    then show "e \<in> mkEdge t ` set (om_values (t_links t))"
      by (auto simp: set_edges_of_swEdges)
  next
    fix e assume "e \<in> mkEdge t ` set (om_values (t_links t))"
    then obtain l where "l \<in> set (om_values (t_links t))" and "e = mkEdge t l" by auto
    then have "e \<in> set (edges_of (swEdges t) (li_rootSwitch l))"
      by (simp add: set_edges_of_swEdges)
    then show "e \<in> (\<Union>x \<in> set (swEdges t). set (snd x))"
      by (force dest: in_edges_of)
  qed
  moreover have "set (deviceEdges (swEdges t)) =
      {e \<in> (\<Union>x \<in> set (swEdges t). set (snd x)). isDeviceEnd (e_other e)}"
    by (auto simp: deviceEdges_def om_values_def)
  ultimately show ?thesis by auto
qed

section \<open>One expansion\<close>

definition found :: "DeviceId \<Rightarrow> Edge \<Rightarrow> bool" where
  "found dst e \<longleftrightarrow> edgeUsable e \<and> isDeviceEnd (e_other e) \<and> le_device (e_other e) = dst"

definition enters :: "TraversalConfig \<Rightarrow> Partial \<Rightarrow> Edge \<Rightarrow> bool" where
  "enters cfg p e \<longleftrightarrow> edgeUsable e \<and> isSwitchEnd (e_other e) \<and>
     tc_allowSwitchSwitching cfg \<and> le_sw (e_other e) \<notin> pp_visited p \<and>
     length (pp_switches p) < unat (tc_maxDepth cfg)"

lemma not_device_and_switch: "isDeviceEnd e \<Longrightarrow> \<not> isSwitchEnd e"
  by (simp add: isDeviceEnd_def isSwitchEnd_def)

text \<open>
  The inner loop handles a prefix of the edges: it appends a path for each delivering edge
  and a partial path for each entered switch. It handles all of them unless the bound was
  reached.
\<close>

lemma expand_prefix:
  "\<exists>k. expand t cfg m src dst p es result frontier =
       (result @ map (finish_path t src dst p) (filter (found dst) (take k es)),
        frontier @ map (advance m p) (filter (enters cfg p) (take k es))) \<and>
     (k < length es \<longrightarrow>
      unat (tc_maxPaths cfg) \<le> length (fst (expand t cfg m src dst p es result frontier)))"
proof (induction es arbitrary: result frontier)
  case Nil
  then show ?case by simp
next
  case (Cons e es)
  let ?ex = "\<lambda>r f. expand t cfg m src dst p es r f"
  have step: ?case
    if "expand t cfg m src dst p (e # es) result frontier = ?ex r f"
      and "r = result @ map (finish_path t src dst p) (filter (found dst) [e])"
      and "f = frontier @ map (advance m p) (filter (enters cfg p) [e])" for r f
  proof -
    obtain k where k: "?ex r f =
       (r @ map (finish_path t src dst p) (filter (found dst) (take k es)),
        f @ map (advance m p) (filter (enters cfg p) (take k es)))"
      "k < length es \<longrightarrow> unat (tc_maxPaths cfg) \<le> length (fst (?ex r f))"
      using Cons.IH by blast
    show ?thesis
      by (rule exI [of _ "Suc k"]) (use k that in simp)
  qed
  have stop: ?case if "expand t cfg m src dst p (e # es) result frontier = (result, frontier)"
      and "unat (tc_maxPaths cfg) \<le> length result"
    by (rule exI [of _ 0]) (use that in simp)
  consider (unusable) "\<not> edgeUsable e"
    | (full) "edgeUsable e" "unat (tc_maxPaths cfg) \<le> length result"
    | (go) "edgeUsable e" "length result < unat (tc_maxPaths cfg)"
    by fastforce
  then show ?case
  proof cases
    case unusable
    then show ?thesis
      by (intro step [of result frontier]) (auto simp: found_def enters_def)
  next
    case full
    then show ?thesis
      by (intro stop) auto
  next
    case go
    then show ?thesis
      by (intro step [of "result @ map (finish_path t src dst p) (filter (found dst) [e])"
            "frontier @ map (advance m p) (filter (enters cfg p) [e])"])
        (auto simp: found_def enters_def not_device_and_switch)
  qed
qed

lemma expand_sound:
  assumes "expand t cfg m src dst p es result frontier = (r, f)"
  shows "x \<in> set r \<Longrightarrow> x \<in> set result \<or> (\<exists>e \<in> set es. found dst e \<and> x = finish_path t src dst p e)"
    and "q \<in> set f \<Longrightarrow> q \<in> set frontier \<or> (\<exists>e \<in> set es. enters cfg p e \<and> q = advance m p e)"
  using expand_prefix [of t cfg m src dst p es result frontier] assms
  by (auto dest!: in_set_takeD)

lemma expand_mono:
  assumes "expand t cfg m src dst p es result frontier = (r, f)"
  shows "set result \<subseteq> set r" and "set frontier \<subseteq> set f" and "length result \<le> length r"
  using expand_prefix [of t cfg m src dst p es result frontier] assms by auto

lemma expand_complete:
  assumes "expand t cfg m src dst p es result frontier = (r, f)"
    and "length r < unat (tc_maxPaths cfg)" and "e \<in> set es"
  shows "found dst e \<Longrightarrow> finish_path t src dst p e \<in> set r"
    and "enters cfg p e \<Longrightarrow> advance m p e \<in> set f"
proof -
  obtain k where k: "expand t cfg m src dst p es result frontier =
       (result @ map (finish_path t src dst p) (filter (found dst) (take k es)),
        frontier @ map (advance m p) (filter (enters cfg p) (take k es)))"
     "k < length es \<longrightarrow>
      unat (tc_maxPaths cfg) \<le> length (fst (expand t cfg m src dst p es result frontier))"
    using expand_prefix by blast
  then have "take k es = es" using assms(1,2) by simp
  then show "found dst e \<Longrightarrow> finish_path t src dst p e \<in> set r"
    and "enters cfg p e \<Longrightarrow> advance m p e \<in> set f"
    using k(1) assms(1,3) by auto
qed

lemma expand_bound:
  "length result \<le> unat (tc_maxPaths cfg) \<Longrightarrow>
   length (fst (expand t cfg m src dst p es result frontier)) \<le> unat (tc_maxPaths cfg)"
  by (induction es arbitrary: result frontier) auto

section \<open>The invariant of partial paths and results\<close>

text \<open>
  A hop of a complete path leaves through a port that exists and is usable, and is entered
  through the port of some link, or through an unknown port when the next switch has no
  link back.
\<close>

definition out_ok :: "FabricTopology \<Rightarrow> PathHop \<Rightarrow> bool" where
  "out_ok t h \<longleftrightarrow> (\<exists>r. lookupPort t (hop_outPort h) = Some r \<and> traversableState (po_state r))"

definition in_ok :: "FabricTopology \<Rightarrow> PathHop \<Rightarrow> bool" where
  "in_ok t h \<longleftrightarrow> hop_inPort h = port_unknown \<or>
     (\<exists>l \<in> set (om_values (t_links t)). hop_inPort h = li_port l)"

definition partial_ok :: "FabricTopology \<Rightarrow> TraversalConfig \<Rightarrow> DeviceId \<Rightarrow> Partial \<Rightarrow> bool" where
  "partial_ok t cfg src p \<longleftrightarrow>
     switch_walk t cfg src (pp_links p) (pp_switches p) \<and>
     pp_visited p = set (pp_switches p) \<and> pp_cur p = last (pp_switches p) \<and>
     map hop_sw (pp_hops p) = pp_switches p \<and> list_all (out_ok t) (butlast (pp_hops p)) \<and>
     list_all (in_ok t) (pp_hops p)"

definition path_ok ::
    "FabricTopology \<Rightarrow> TraversalConfig \<Rightarrow> DeviceId \<Rightarrow> DeviceId \<Rightarrow> FabricPath \<Rightarrow> bool" where
  "path_ok t cfg src dst x \<longleftrightarrow>
     fabric_route t cfg src dst (fp_links x) (fp_switchSequence x) \<and>
     fp_source x = src \<and> fp_destination x = dst \<and>
     map hop_sw (fp_hops x) = fp_switchSequence x \<and> list_all (out_ok t) (fp_hops x) \<and>
     list_all (in_ok t) (fp_hops x) \<and>
     fp_topologyGen x = t_topologyGen t \<and> fp_provenance x = t_provenance t \<and>
     fp_state x = (if anyDegraded t (fp_links x) then EntityState.DEGRADED else EntityState.UP)"

lemma partial_ok_hops: "partial_ok t cfg src p \<Longrightarrow> pp_hops p \<noteq> []"
  by (auto simp: partial_ok_def dest: switch_walk_nonempty)

lemma map_hop_sw_leave:
  assumes "hs \<noteq> []"
  shows "map hop_sw (leave_to_device p hs) = map hop_sw hs"
    and "map hop_sw (leave_to_switch p hs) = map hop_sw hs"
  using assms by (cases hs rule: rev_cases; simp add: leave_to_device_def leave_to_switch_def)+

lemma list_all_leave:
  assumes "list_all (out_ok t) (butlast hs)" and "list_all (in_ok t) hs" and "hs \<noteq> []"
    and "\<exists>r. lookupPort t p = Some r \<and> traversableState (po_state r)"
  shows "list_all (out_ok t) (leave_to_device p hs)" and "list_all (in_ok t) (leave_to_device p hs)"
    and "list_all (out_ok t) (leave_to_switch p hs)" and "list_all (in_ok t) (leave_to_switch p hs)"
  using assms
  by (cases hs rule: rev_cases; simp add: leave_to_device_def leave_to_switch_def out_ok_def in_ok_def)+

lemma in_ok_reverse_port: "in_ok t (entry_hop s (reverse_port (swEdges t) nxt cur))"
proof (cases "om_find (swEdges t) nxt")
  case None
  then show ?thesis by (simp add: in_ok_def entry_hop_def reverse_port_def)
next
  case (Some es)
  then have "set es = mkEdge t ` {l \<in> set (om_values (t_links t)). li_rootSwitch l = nxt}"
    using set_edges_of_swEdges [of t nxt] by (simp add: edges_of_def)
  then show ?thesis
    using Some by (fastforce simp: in_ok_def entry_hop_def reverse_port_def find_Some_iff in_set_conv_nth
        split: option.splits dest: nth_mem)
qed

lemma path_ok_finish:
  assumes p: "partial_ok t cfg src p" and e: "found dst e"
    and edge: "e \<in> set (edges_of (swEdges t) (pp_cur p))"
  shows "path_ok t cfg src dst (finish_path t src dst p e)"
proof -
  from edge obtain l where l: "l \<in> set (om_values (t_links t))" "e = mkEdge t l"
    "li_rootSwitch l = last (pp_switches p)"
    using p by (auto simp: set_edges_of_swEdges partial_ok_def)
  then have d: "delivers t dst (pp_switches p) l"
    using e by (simp add: found_def delivers_def edgeUsable_mkEdge)
  then have "fabric_route t cfg src dst (pp_links p @ [e_link e]) (pp_switches p)"
    using p l by (auto simp: fabric_route_def partial_ok_def)
  moreover have "list_all (out_ok t) (leave_to_device (e_port e) (pp_hops p))"
    and "list_all (in_ok t) (leave_to_device (e_port e) (pp_hops p))"
    using p d l list_all_leave partial_ok_hops [OF p]
    by (auto simp: partial_ok_def delivers_def usable_link_def)
  ultimately show ?thesis
    using p by (simp add: path_ok_def finish_path_def Let_def default_FabricPath_def
        map_hop_sw_leave partial_ok_hops) (simp add: partial_ok_def)
qed

lemma partial_ok_advance:
  assumes p: "partial_ok t cfg src p" and e: "enters cfg p e"
    and edge: "e \<in> set (edges_of (swEdges t) (pp_cur p))"
  shows "partial_ok t cfg src (advance (swEdges t) p e)"
proof -
  from edge obtain l where l: "l \<in> set (om_values (t_links t))" "e = mkEdge t l"
    "li_rootSwitch l = last (pp_switches p)"
    using p by (auto simp: set_edges_of_swEdges partial_ok_def)
  then have c: "crosses t cfg (pp_switches p) l"
    using e p by (simp add: enters_def crosses_def edgeUsable_mkEdge partial_ok_def)
  have "list_all (out_ok t) (leave_to_switch (e_port e) (pp_hops p))"
    and "list_all (in_ok t) (leave_to_switch (e_port e) (pp_hops p))"
    using p c l list_all_leave partial_ok_hops [OF p]
    by (auto simp: partial_ok_def crosses_def usable_link_def)
  moreover have "hop_sw (entry_hop s q) = s" for s q
    by (simp add: entry_hop_def)
  ultimately show ?thesis
    using p switch_walk.cross [OF _ c] l partial_ok_hops [OF p]
    by (simp add: partial_ok_def advance_def Let_def map_hop_sw_leave in_ok_reverse_port)
qed

lemma partial_ok_seed:
  assumes "q \<in> set (seeds src (deviceEdges (swEdges t)))"
  shows "partial_ok t cfg src q"
proof -
  obtain l where l: "l \<in> set (om_values (t_links t))" "isDeviceEnd (li_otherEnd l)"
    "le_device (li_otherEnd l) = src" "edgeUsable (mkEdge t l)" "q = seed (mkEdge t l)"
    using assms by (auto simp: seeds_def set_deviceEdges)
  then have "switch_walk t cfg src [li_id l] [port_sw (li_port l)]"
    by (intro switch_walk.enter) (simp add: attaches_def edgeUsable_mkEdge)
  then show ?thesis
    using l by (auto simp: partial_ok_def seed_def entry_hop_def in_ok_def)
qed

section \<open>The search\<close>

lemma search_sound:
  "\<forall>q \<in> set frontier. partial_ok t cfg src q \<Longrightarrow> \<forall>x \<in> set result. path_ok t cfg src dst x \<Longrightarrow>
   m = swEdges t \<Longrightarrow> x \<in> set (search t cfg m src dst frontier result) \<Longrightarrow> path_ok t cfg src dst x"
proof (induction t cfg m src dst frontier result rule: search.induct)
  case (1 t cfg m src dst result)
  then show ?case by simp
next
  case (2 t cfg m src dst p frontier result)
  show ?case
  proof (cases "unat (tc_maxPaths cfg) \<le> length result")
    case True
    with "2.prems" show ?thesis by simp
  next
    case False
    show ?thesis
    proof (cases "om_find m (pp_cur p)")
      case None
      with False "2.prems" show ?thesis
        by (intro "2.IH"(1)) simp_all
    next
      case (Some edges)
      obtain r f where ex: "expand t cfg m src dst p edges result frontier = (r, f)"
        by fastforce
      have edges: "edges = edges_of (swEdges t) (pp_cur p)"
        using Some "2.prems"(3) by (simp add: edges_of_def)
      have p: "partial_ok t cfg src p" using "2.prems"(1) by simp
      have "\<forall>q \<in> set f. partial_ok t cfg src q"
        using expand_sound(2) [OF ex] "2.prems"(1,3) partial_ok_advance [OF p] edges by auto
      moreover have "\<forall>y \<in> set r. path_ok t cfg src dst y"
        using expand_sound(1) [OF ex] "2.prems"(2) path_ok_finish [OF p] edges by auto
      ultimately show ?thesis
        using "2.IH"(2) [OF False Some] "2.prems"(3,4) False Some ex by simp
    qed
  qed
qed

lemma search_bound:
  "length result \<le> unat (tc_maxPaths cfg) \<Longrightarrow>
   length (search t cfg m src dst frontier result) \<le> unat (tc_maxPaths cfg)"
proof (induction t cfg m src dst frontier result rule: search.induct)
  case (2 t cfg m src dst p frontier result)
  then show ?case
    by (cases "unat (tc_maxPaths cfg) \<le> length result")
      (auto simp: expand_bound split: option.splits)
qed simp

lemma search_mono:
  "set result \<subseteq> set (search t cfg m src dst frontier result) \<and>
   length result \<le> length (search t cfg m src dst frontier result)"
proof (induction t cfg m src dst frontier result rule: search.induct)
  case (2 t cfg m src dst p frontier result)
  show ?case
  proof (cases "unat (tc_maxPaths cfg) \<le> length result")
    case False
    show ?thesis
    proof (cases "om_find m (pp_cur p)")
      case (Some edges)
      obtain r f where ex: "expand t cfg m src dst p edges result frontier = (r, f)"
        by fastforce
      show ?thesis
        using "2.IH"(2) [OF False Some] expand_mono [OF ex] False Some ex by auto
    qed (use False "2.IH"(1) in simp)
  qed simp
qed simp

text \<open>The walks that extend a given one, link by link.\<close>

inductive walk_on :: "FabricTopology \<Rightarrow> TraversalConfig \<Rightarrow> LinkId list \<Rightarrow> SwitchId list \<Rightarrow>
    LinkId list \<Rightarrow> SwitchId list \<Rightarrow> bool"
  for t cfg where
  here: "walk_on t cfg ls ss ls ss"
| further: "crosses t cfg ss l \<Longrightarrow>
     walk_on t cfg (ls @ [li_id l]) (ss @ [le_sw (li_otherEnd l)]) ls' ss' \<Longrightarrow>
     walk_on t cfg ls ss ls' ss'"

lemma walk_on_snoc:
  "walk_on t cfg ls ss ls' ss' \<Longrightarrow> crosses t cfg ss' l \<Longrightarrow>
   walk_on t cfg ls ss (ls' @ [li_id l]) (ss' @ [le_sw (li_otherEnd l)])"
  by (induction rule: walk_on.induct) (blast intro: walk_on.intros)+

lemma switch_walk_from_entry:
  "switch_walk t cfg src ls ss \<Longrightarrow>
   \<exists>l. attaches t src l \<and> walk_on t cfg [li_id l] [port_sw (li_port l)] ls ss"
  by (induction rule: switch_walk.induct) (blast intro: walk_on.intros walk_on_snoc)+

definition reported :: "FabricPath list \<Rightarrow> LinkId list \<Rightarrow> SwitchId list \<Rightarrow> bool" where
  "reported xs ls ss \<longleftrightarrow> (\<exists>x \<in> set xs. fp_links x = ls \<and> fp_switchSequence x = ss)"

lemma finish_path_simps [simp]:
  "fp_links (finish_path t src dst p e) = pp_links p @ [e_link e]"
  "fp_switchSequence (finish_path t src dst p e) = pp_switches p"
  by (simp_all add: finish_path_def Let_def)

lemma advance_simps [simp]:
  "pp_links (advance m p e) = pp_links p @ [e_link e]"
  "pp_switches (advance m p e) = pp_switches p @ [le_sw (e_other e)]"
  by (simp_all add: advance_def Let_def)

lemma search_complete:
  "\<forall>q \<in> set frontier. partial_ok t cfg src q \<Longrightarrow> m = swEdges t \<Longrightarrow>
   length (search t cfg m src dst frontier result) < unat (tc_maxPaths cfg) \<Longrightarrow>
   q \<in> set frontier \<Longrightarrow> walk_on t cfg (pp_links q) (pp_switches q) ls ss \<Longrightarrow>
   delivers t dst ss l \<Longrightarrow>
   reported (search t cfg m src dst frontier result) (ls @ [li_id l]) ss"
proof (induction t cfg m src dst frontier result arbitrary: q rule: search.induct)
  case (1 t cfg m src dst result)
  then show ?case by simp
next
  case (2 t cfg m src dst p frontier result)
  have more: "length result < unat (tc_maxPaths cfg)"
    using "2.prems"(3) search_mono [of result t cfg m src dst "p # frontier"] by linarith
  have p: "partial_ok t cfg src p" and m: "m = swEdges t"
    using "2.prems"(1,2) by auto
  have edge: "mkEdge t k \<in> set (edges_of m (pp_cur p))"
    if "usable_link t k" "li_rootSwitch k = last (pp_switches p)" for k
    using that p m by (auto simp: set_edges_of_swEdges usable_link_def partial_ok_def)
  show ?case
  proof (cases "om_find m (pp_cur p)")
    case None
    then have "edges_of m (pp_cur p) = []" by (simp add: edges_of_def)
    then have stuck: "\<not> (usable_link t k \<and> li_rootSwitch k = last (pp_switches p))" for k
      using edge by auto
    have "q \<in> set frontier"
    proof (rule ccontr)
      assume "q \<notin> set frontier"
      then have "q = p" using "2.prems"(4) by simp
      from "2.prems"(5,6) show False
        unfolding \<open>q = p\<close> by (cases) (use stuck in \<open>auto simp: delivers_def crosses_def\<close>)
    qed
    with "2.IH"(1) None more "2.prems" show ?thesis by simp
  next
    case (Some edges)
    obtain r f where ex: "expand t cfg m src dst p edges result frontier = (r, f)"
      by fastforce
    have edges: "edges = edges_of m (pp_cur p)"
      using Some by (simp add: edges_of_def)
    have eq: "search t cfg m src dst (p # frontier) result = search t cfg m src dst f r"
      using more Some ex by simp
    have small: "length r < unat (tc_maxPaths cfg)"
      using "2.prems"(3) search_mono [of r t cfg m src dst f] unfolding eq by linarith
    have f_ok: "\<forall>q \<in> set f. partial_ok t cfg src q"
      using expand_sound(2) [OF ex] "2.prems"(1) partial_ok_advance [OF p] edges m by auto
    have IH: "reported (search t cfg m src dst f r) (ls @ [li_id l]) ss"
      if "q' \<in> set f" "walk_on t cfg (pp_links q') (pp_switches q') ls ss" for q'
      using "2.IH"(2) [OF _ Some] more ex f_ok m "2.prems"(3,6) that eq by simp
    show ?thesis
    proof (cases "q \<in> set frontier")
      case True
      then show ?thesis
        using IH expand_mono(2) [OF ex] "2.prems"(5) eq by auto
    next
      case False
      then have "q = p" using "2.prems"(4) by simp
      from "2.prems"(5)[unfolded \<open>q = p\<close>] show ?thesis
      proof cases
        case here
        then have "found dst (mkEdge t l)" and "mkEdge t l \<in> set edges"
          using "2.prems"(6) edge edges
          by (auto simp: delivers_def found_def edgeUsable_mkEdge usable_link_def)
        then have "finish_path t src dst p (mkEdge t l) \<in> set r"
          using expand_complete(1) [OF ex small] by blast
        then have "finish_path t src dst p (mkEdge t l) \<in> set (search t cfg m src dst f r)"
          using search_mono by blast
        then show ?thesis
          unfolding eq reported_def using here by force
      next
        case (further k)
        then have "enters cfg p (mkEdge t k)" and "mkEdge t k \<in> set edges"
          using p edge edges
          by (auto simp: crosses_def enters_def edgeUsable_mkEdge usable_link_def partial_ok_def)
        then have "advance m p (mkEdge t k) \<in> set f"
          using expand_complete(2) [OF ex small] by blast
        then show ?thesis
          unfolding eq by (rule IH) (use further in simp)
      qed
    qed
  qed
qed

section \<open>No route is reported twice\<close>

text \<open>
  The link sequences of the frontier and of the results are never prefixes of one another,
  so distinct partial paths never meet again.
\<close>

definition apart :: "'a list list \<Rightarrow> bool" where
  "apart xs \<longleftrightarrow> distinct xs \<and> (\<forall>a \<in> set xs. \<forall>b \<in> set xs. prefix a b \<longrightarrow> a = b)"

lemma apart_mset: "mset xs = mset ys \<Longrightarrow> apart xs \<longleftrightarrow> apart ys"
  unfolding apart_def by (metis mset_eq_imp_distinct_iff mset_eq_setD)

lemma apart_ConsD: "apart (x # xs) \<Longrightarrow> apart xs"
  unfolding apart_def by (metis distinct.simps(2) list.set_intros(2))

lemma apart_distinct_right: "apart (xs @ ys) \<Longrightarrow> distinct ys"
  unfolding apart_def by (metis distinct_append)

lemma apart_extend:
  assumes "apart (a # xs)" and "distinct ys"
  shows "apart (xs @ map (\<lambda>y. a @ [y]) ys)"
proof -
  have a: "a \<notin> set xs" "\<forall>x \<in> set xs. \<not> prefix a x \<and> \<not> prefix x a"
    using assms(1) by (auto simp: apart_def)
  then have "\<forall>x \<in> set xs. \<forall>y. \<not> prefix x (a @ [y]) \<and> \<not> prefix (a @ [y]) x"
    by (metis append_prefixD prefix_order.dual_order.refl prefix_snoc)
  moreover have "distinct (map (\<lambda>y. a @ [y]) ys)"
    using assms(2) by (simp add: distinct_map inj_on_def)
  ultimately show ?thesis
    using assms(1) by (fastforce simp: apart_def)
qed

definition search_apart :: "Partial list \<Rightarrow> FabricPath list \<Rightarrow> bool" where
  "search_apart frontier result \<longleftrightarrow> apart (map pp_links frontier @ map fp_links result)"

lemma search_apart_expand:
  assumes "search_apart (p # frontier) result" and "distinct (map e_link es)"
    and "expand t cfg m src dst p es result frontier = (r, f)"
  shows "search_apart f r"
proof -
  obtain k where k:
    "r = result @ map (finish_path t src dst p) (filter (found dst) (take k es))"
    "f = frontier @ map (advance m p) (filter (enters cfg p) (take k es))"
    using expand_prefix [of t cfg m src dst p es result frontier] assms(3) by auto
  let ?new = "map e_link (filter (enters cfg p) (take k es) @ filter (found dst) (take k es))"
  have "distinct (map e_link (take k es))"
    using assms(2) by (metis distinct_take take_map)
  then have inj: "inj_on e_link (set (take k es))" and "distinct (take k es)"
    by (simp_all add: distinct_map)
  moreover have "set (filter (enters cfg p) (take k es)) \<inter> set (filter (found dst) (take k es)) = {}"
    using not_device_and_switch by (auto simp: enters_def found_def)
  ultimately have "distinct ?new"
    unfolding distinct_map by (simp add: inj_on_subset [OF inj])
  then have "apart ((map pp_links frontier @ map fp_links result) @ map (\<lambda>y. pp_links p @ [y]) ?new)"
    using assms(1) by (intro apart_extend) (simp_all add: search_apart_def)
  then show ?thesis
    unfolding search_apart_def k
    by (rule apart_mset [THEN iffD1, rotated]) (simp add: comp_def)
qed

lemma search_distinct:
  "search_apart frontier result \<Longrightarrow> (\<And>s. distinct (map e_link (edges_of m s))) \<Longrightarrow>
   distinct (map fp_links (search t cfg m src dst frontier result))"
proof (induction t cfg m src dst frontier result rule: search.induct)
  case (1 t cfg m src dst result)
  then show ?case by (simp add: search_apart_def apart_def)
next
  case (2 t cfg m src dst p frontier result)
  have tail: "search_apart frontier result"
    using "2.prems"(1) apart_ConsD unfolding search_apart_def by fastforce
  then have "distinct (map fp_links result)"
    unfolding search_apart_def by (rule apart_distinct_right)
  moreover have "search_apart (snd (expand t cfg m src dst p edges result frontier))
      (fst (expand t cfg m src dst p edges result frontier))"
    if "om_find m (pp_cur p) = Some edges" for edges
    using search_apart_expand [OF "2.prems"(1), of edges] "2.prems"(2) [of "pp_cur p"] that
    by (metis edges_of_def option.simps(5) prod.collapse)
  ultimately show ?case
    using 2 tail by (cases "om_find m (pp_cur p)") auto
qed

lemma concat_values_insert:
  "om_ok m \<Longrightarrow>
   mset (concat (om_values (om_insert k (edges_of m k @ [e]) m))) =
   add_mset e (mset (concat (om_values m)))"
proof (induction m)
  case Nil
  then show ?case by (simp add: om_values_def edges_of_def)
next
  case (Cons x m)
  then have "om_ok m" and fresh: "\<forall>y \<in> set m. fst x < fst y"
    by (auto simp: om_ok_def)
  have "k < fst x \<Longrightarrow> om_find (x # m) k = None"
    using fresh by (cases x) (fastforce simp: om_find_def map_of_eq_None_iff)
  then show ?case
    using Cons.IH [OF \<open>om_ok m\<close>]
    by (cases x) (auto simp: om_values_def edges_of_def om_find_def)
qed

lemma concat_values_push:
  "om_ok m \<Longrightarrow>
   mset (concat (om_values (fold (push_edge t) ls m))) =
   mset (concat (om_values m)) + mset (map (mkEdge t) ls)"
proof (induction ls arbitrary: m)
  case (Cons l ls)
  have "om_ok (push_edge t l m)"
    using Cons.prems by (simp add: push_edge_def)
  moreover have "mset (concat (om_values (push_edge t l m))) =
      add_mset (mkEdge t l) (mset (concat (om_values m)))"
    using concat_values_insert [OF Cons.prems] by (simp add: push_edge_def edges_of_def)
  ultimately show ?case
    using Cons.IH by simp
qed simp

lemma mset_concat_map_sort:
  "mset (concat (om_values (om_map (stable_sort lt) m))) = mset (concat (om_values m))"
  by (induction m) (simp_all add: om_values_def om_map_def)

lemma distinct_link_ids:
  "om_ok (t_links t) \<Longrightarrow> om_keyed li_id (t_links t) \<Longrightarrow>
   distinct (map li_id (om_values (t_links t)))"
  by (drule om_ok_distinct) (simp add: om_values_def om_keyed_def comp_def cong: map_cong)

lemma distinct_edges_of:
  assumes "distinct (map li_id (om_values (t_links t)))"
  shows "distinct (map e_link (edges_of (swEdges t) s))"
proof -
  have "mset (map e_link (edges_of (swEdges t) s)) =
      mset (map li_id (filter (\<lambda>l. li_rootSwitch l = s) (om_values (t_links t))))"
    by (simp add: edges_of_swEdges image_mset.compositionality comp_def)
  then show ?thesis
    using assms by (metis distinct_map_filter mset_eq_imp_distinct_iff)
qed

lemma distinct_deviceEdges:
  assumes "distinct (map li_id (om_values (t_links t)))"
  shows "distinct (map e_link (deviceEdges (swEdges t)))"
proof -
  let ?all = "concat (om_values (swEdges t))"
  have "mset ?all = mset (map (mkEdge t) (om_values (t_links t)))"
    using concat_values_push [of "[]" t "om_values (t_links t)"]
    by (simp add: swEdges_def mset_concat_map_sort) (simp add: om_values_def)
  then have "mset (map e_link ?all) = mset (map li_id (om_values (t_links t)))"
    by (simp add: image_mset.compositionality comp_def)
  then have "distinct (map e_link (filter (\<lambda>e. isDeviceEnd (e_other e)) ?all))"
    using assms by (metis distinct_map_filter mset_eq_imp_distinct_iff)
  then show ?thesis
    unfolding deviceEdges_def
    by (metis (no_types, lifting) filter_concat mset_eq_imp_distinct_iff mset_map mset_stable_sort)
qed

section \<open>The comparators\<close>

interpretation port_link: strict_weak_order lessPortLink
  by unfold_locales (auto simp: lessPortLink_def split: if_splits)

interpretation device_port: strict_weak_order lessDevicePort
  by unfold_locales (auto simp: lessDevicePort_def split: if_splits)

text \<open>
  Links of one switch with distinct identities are never equivalent, so the order of a
  switch's edges is fixed by the topology alone.
\<close>

lemma edges_of_order_irrelevant:
  assumes "distinct (map li_id (om_values (t_links t)))" and "mset ls = mset (om_values (t_links t))"
  shows "stable_sort lessPortLink (map (mkEdge t) (filter (\<lambda>l. li_rootSwitch l = s) ls)) =
     edges_of (swEdges t) s"
  unfolding edges_of_swEdges
proof (rule port_link.stable_sort_perm)
  show "mset (map (mkEdge t) (filter (\<lambda>l. li_rootSwitch l = s) ls)) =
      mset (map (mkEdge t) (filter (\<lambda>l. li_rootSwitch l = s) (om_values (t_links t))))"
    using assms(2) by (simp add: mset_filter)
next
  fix a b
  assume "a \<in> set (map (mkEdge t) (filter (\<lambda>l. li_rootSwitch l = s) ls))"
    and "b \<in> set (map (mkEdge t) (filter (\<lambda>l. li_rootSwitch l = s) ls))"
    and eq: "port_link.equiv_to a b"
  then obtain k l where kl: "k \<in> set (om_values (t_links t))" "l \<in> set (om_values (t_links t))"
    "a = mkEdge t k" "b = mkEdge t l"
    using mset_eq_setD [OF assms(2)] by auto
  then have "li_id k = li_id l"
    using eq by (auto simp: port_link.equiv_to_def lessPortLink_def split: if_splits)
  then show "a = b"
    using assms(1) kl by (metis distinct_map inj_onD)
qed

section \<open>enumeratePaths\<close>

lemma enumeratePaths_cases:
  "enumeratePaths t src dst cfg =
     (if tc_maxPaths cfg \<noteq> 0 \<and> tc_maxDepth cfg \<noteq> 0 \<and> endpoints_ready t src dst
      then search t cfg (swEdges t) src dst (seeds src (deviceEdges (swEdges t))) [] else [])"
  by (auto simp: enumeratePaths_def endpoints_ready_def split: option.splits)

lemma enumeratePaths_path_ok: "x \<in> set (enumeratePaths t src dst cfg) \<Longrightarrow> path_ok t cfg src dst x"
  using search_sound [of "seeds src (deviceEdges (swEdges t))" t cfg src "[]" dst "swEdges t" x]
    partial_ok_seed
  by (auto simp: enumeratePaths_cases split: if_splits)

lemma enumeratePaths_depth:
  assumes "x \<in> set (enumeratePaths t src dst cfg)"
  shows "fp_hops x \<noteq> []" and "length (fp_hops x) \<le> unat (tc_maxDepth cfg)"
    and "distinct (fp_switchSequence x)"
proof -
  have pos: "0 < unat (tc_maxDepth cfg)"
    using assms by (auto simp: enumeratePaths_cases unat_gt_0 split: if_splits)
  obtain ls where w: "switch_walk t cfg src ls (fp_switchSequence x)"
    and h: "map hop_sw (fp_hops x) = fp_switchSequence x"
    using enumeratePaths_path_ok [OF assms] by (auto simp: path_ok_def fabric_route_def)
  then show "fp_hops x \<noteq> []" and "distinct (fp_switchSequence x)"
    using switch_walk_nonempty switch_walk_distinct by fastforce+
  show "length (fp_hops x) \<le> unat (tc_maxDepth cfg)"
    using switch_walk_depth [OF w pos] h by (metis length_map)
qed

lemma enumeratePaths_bound: "length (enumeratePaths t src dst cfg) \<le> unat (tc_maxPaths cfg)"
  by (simp add: enumeratePaths_cases search_bound)

lemma enumeratePaths_reports:
  assumes "endpoints_ready t src dst" and "tc_maxDepth cfg \<noteq> 0"
    and "length (enumeratePaths t src dst cfg) < unat (tc_maxPaths cfg)"
    and "fabric_route t cfg src dst ls ss"
  shows "reported (enumeratePaths t src dst cfg) ls ss"
proof -
  have max: "tc_maxPaths cfg \<noteq> 0"
    using assms(3) by (metis less_nat_zero_code unat_0)
  have eq: "enumeratePaths t src dst cfg =
      search t cfg (swEdges t) src dst (seeds src (deviceEdges (swEdges t))) []"
    using assms(1,2) max by (simp add: enumeratePaths_cases)
  obtain ls' l where l: "ls = ls' @ [li_id l]" "switch_walk t cfg src ls' ss" "delivers t dst ss l"
    using assms(4) by (auto simp: fabric_route_def)
  obtain k where k: "attaches t src k" "walk_on t cfg [li_id k] [port_sw (li_port k)] ls' ss"
    using switch_walk_from_entry [OF l(2)] by blast
  have "seed (mkEdge t k) \<in> set (seeds src (deviceEdges (swEdges t)))"
    using k(1) by (auto simp: seeds_def set_deviceEdges attaches_def edgeUsable_mkEdge
        usable_link_def)
  then show ?thesis
    unfolding eq l(1)
    by (rule search_complete [rotated 3])
      (use partial_ok_seed assms(3) eq k(2) l(3) in \<open>auto simp: seed_def\<close>)
qed

lemma enumeratePaths_distinct:
  assumes "om_ok (t_links t)" and "om_keyed li_id (t_links t)"
  shows "distinct (map fp_links (enumeratePaths t src dst cfg))"
proof -
  have d: "distinct (map li_id (om_values (t_links t)))"
    using assms by (rule distinct_link_ids)
  have "distinct (map e_link (filter (\<lambda>e. le_device (e_other e) = src \<and> edgeUsable e)
      (deviceEdges (swEdges t))))"
    using distinct_deviceEdges [OF d] by (rule distinct_map_filter)
  then have "search_apart (seeds src (deviceEdges (swEdges t))) []"
    by (auto simp: search_apart_def apart_def seeds_def seed_def comp_def distinct_map inj_on_def)
  then show ?thesis
    using search_distinct distinct_edges_of [OF d] by (simp add: enumeratePaths_cases)
qed

section \<open>Properties\<close>

text \<open>The enumeration on a concrete fabric: two devices, each on two interconnected switches.\<close>

lemma redundant_paths:
  "map (\<lambda>x. (fp_links x, fp_switchSequence x))
     (enumeratePaths redundant_fabric (MkId 1) (MkId 2) default_TraversalConfig) =
   [([MkId 100, MkId 102], [MkId 10]), ([MkId 101, MkId 103], [MkId 11]),
    ([MkId 100, MkId 120, MkId 103], [MkId 10, MkId 11]),
    ([MkId 101, MkId 121, MkId 102], [MkId 11, MkId 10])]"
  by code_simp

lemma redundant_path_in:
  "\<exists>x \<in> set (enumeratePaths redundant_fabric (MkId 1) (MkId 2) default_TraversalConfig).
     fp_links x = [MkId 100, MkId 120, MkId 103] \<and> fp_switchSequence x = [MkId 10, MkId 11]"
proof -
  have "([MkId 100, MkId 120, MkId 103], [MkId 10, MkId 11]) \<in>
      set (map (\<lambda>x. (fp_links x, fp_switchSequence x))
        (enumeratePaths redundant_fabric (MkId 1) (MkId 2) default_TraversalConfig))"
    unfolding redundant_paths by simp
  then show ?thesis by auto
qed

text \<open>
  (C1) Soundness of the path enumeration: every reported path is a walk of the topology from
  the source device through usable links and ports to the destination device; it lists one
  hop per switch in order, never visits a switch twice, keeps the depth bound, leaves every
  hop through a usable port, carries the generation of the snapshot, and is marked degraded
  exactly when one of its links is.
\<close>

theorem enumeratePaths_sound:
  assumes "x \<in> set (enumeratePaths t src dst cfg)"
  shows "endpoints_ready t src dst \<and>
    fabric_route t cfg src dst (fp_links x) (fp_switchSequence x) \<and>
    map hop_sw (fp_hops x) = fp_switchSequence x \<and> distinct (fp_switchSequence x) \<and>
    fp_hops x \<noteq> [] \<and> length (fp_hops x) \<le> unat (tc_maxDepth cfg) \<and>
    (\<forall>h \<in> set (fp_hops x). out_ok t h) \<and> fp_topologyGen x = t_topologyGen t \<and>
    (fp_state x = EntityState.DEGRADED \<longleftrightarrow> anyDegraded t (fp_links x))"
  using enumeratePaths_path_ok [OF assms] enumeratePaths_depth [OF assms] assms
  by (auto simp: path_ok_def list_all_iff enumeratePaths_cases split: if_splits)

theorem enumeratePaths_sound_witness:
  "\<exists>x \<in> set (enumeratePaths redundant_fabric (MkId 1) (MkId 2) default_TraversalConfig).
     fabric_route redundant_fabric default_TraversalConfig (MkId 1) (MkId 2)
       [MkId 100, MkId 120, MkId 103] [MkId 10, MkId 11] \<and> fp_switchSequence x = [MkId 10, MkId 11]"
  using redundant_path_in enumeratePaths_sound by fastforce

text \<open>
  (C2) Completeness of the path enumeration: when the search did not stop at the path bound,
  every walk of the topology between two live devices within the depth bound is reported.
\<close>

theorem enumeratePaths_complete:
  assumes "endpoints_ready t src dst" and "tc_maxDepth cfg \<noteq> 0"
    and "length (enumeratePaths t src dst cfg) < unat (tc_maxPaths cfg)"
    and "fabric_route t cfg src dst ls ss"
  shows "\<exists>x \<in> set (enumeratePaths t src dst cfg). fp_links x = ls \<and> fp_switchSequence x = ss"
  using enumeratePaths_reports [OF assms] by (simp add: reported_def)

theorem enumeratePaths_complete_witness:
  "\<exists>x \<in> set (enumeratePaths redundant_fabric (MkId 1) (MkId 2) default_TraversalConfig).
     fp_links x = [MkId 100, MkId 120, MkId 103] \<and> fp_switchSequence x = [MkId 10, MkId 11]"
proof (rule enumeratePaths_complete)
  obtain x where "x \<in> set (enumeratePaths redundant_fabric (MkId 1) (MkId 2) default_TraversalConfig)"
    "fp_links x = [MkId 100, MkId 120, MkId 103]" "fp_switchSequence x = [MkId 10, MkId 11]"
    using redundant_path_in by blast
  then show "endpoints_ready redundant_fabric (MkId 1) (MkId 2)"
    and "fabric_route redundant_fabric default_TraversalConfig (MkId 1) (MkId 2)
      [MkId 100, MkId 120, MkId 103] [MkId 10, MkId 11]"
    using enumeratePaths_path_ok by (fastforce simp: enumeratePaths_cases path_ok_def split: if_splits)+
  have "length (enumeratePaths redundant_fabric (MkId 1) (MkId 2) default_TraversalConfig) = 4"
    using arg_cong [OF redundant_paths, of length] by simp
  then show "length (enumeratePaths redundant_fabric (MkId 1) (MkId 2) default_TraversalConfig)
      < unat (tc_maxPaths default_TraversalConfig)"
    by (simp add: default_TraversalConfig_def limit_defs)
qed (simp add: default_TraversalConfig_def limit_defs)

text \<open>
  (C3) The enumeration keeps the bound on the number of paths and reports no route twice,
  when the link dictionary is ordered and stores every link under its own identity.
\<close>

theorem enumeratePaths_bounded_distinct:
  assumes "om_ok (t_links t)" and "om_keyed li_id (t_links t)"
  shows "length (enumeratePaths t src dst cfg) \<le> unat (tc_maxPaths cfg) \<and>
    distinct (map fp_links (enumeratePaths t src dst cfg))"
  using enumeratePaths_bound enumeratePaths_distinct [OF assms] by simp

theorem enumeratePaths_bounded_distinct_witness:
  "length (enumeratePaths redundant_fabric (MkId 1) (MkId 2)
     (default_TraversalConfig\<lparr>tc_maxPaths := 2\<rparr>)) \<le> 2 \<and>
   distinct (map fp_links (enumeratePaths redundant_fabric (MkId 1) (MkId 2)
     (default_TraversalConfig\<lparr>tc_maxPaths := 2\<rparr>)))"
proof -
  have "om_ok (t_links redundant_fabric)" and "om_keyed li_id (t_links redundant_fabric)"
    by (simp_all add: scan_topology_def)
  from enumeratePaths_bounded_distinct
    [OF this, of "MkId 1" "MkId 2" "default_TraversalConfig\<lparr>tc_maxPaths := 2\<rparr>"]
  show ?thesis by simp
qed

end
