(* ===== verification/Fabric_Integrity.thy ===== *)
theory Fabric_Integrity
  imports Fabric_Topology
begin

text \<open>
  What \<open>checkIntegrity\<close> decides. \<open>topo_wf\<close> is the well-formedness of the five dictionaries
  of a snapshot: keys in order and every record under its own identity. \<open>integral\<close> is
  referential integrity, said of the topology without any list of messages: the check
  returns no violation exactly for an integral topology.
\<close>

definition topo_wf :: "FabricTopology \<Rightarrow> bool" where
  "topo_wf t \<longleftrightarrow>
     om_ok (t_devices t) \<and> om_ok (t_switches t) \<and> om_ok (t_ports t) \<and> om_ok (t_links t) \<and>
     om_ok (t_partitions t) \<and>
     om_keyed dev_id (t_devices t) \<and> om_keyed sw_id (t_switches t) \<and> om_keyed po_id (t_ports t) \<and>
     om_keyed li_id (t_links t) \<and> om_keyed pa_id (t_partitions t)"

definition port_integral :: "FabricTopology \<Rightarrow> PortId \<Rightarrow> bool" where
  "port_integral t p \<longleftrightarrow>
     (\<exists>s. lookupSwitch t (port_sw p) = Some s) \<and> port_index p < kMaxPortsPerSwitch"

definition end_integral :: "FabricTopology \<Rightarrow> LinkEnd \<Rightarrow> bool" where
  "end_integral t e \<longleftrightarrow>
     (if isDeviceEnd e then \<exists>d. lookupDevice t (le_device e) = Some d
      else \<exists>s. lookupSwitch t (le_sw e) = Some s)"

definition link_integral :: "FabricTopology \<Rightarrow> LinkRecord \<Rightarrow> bool" where
  "link_integral t l \<longleftrightarrow>
     (\<exists>p. lookupPort t (li_port l) = Some p) \<and> port_sw (li_port l) = li_rootSwitch l \<and>
     (\<exists>s. lookupSwitch t (li_rootSwitch l) = Some s) \<and> end_integral t (li_otherEnd l)"

definition partition_integral :: "FabricTopology \<Rightarrow> FabricPartition \<Rightarrow> bool" where
  "partition_integral t p \<longleftrightarrow>
     (\<forall>m \<in> set (pa_members p). \<exists>d. lookupDevice t m = Some d) \<and>
     (\<forall>s \<in> set (pa_switches p). \<exists>r. lookupSwitch t s = Some r)"

definition integral :: "FabricTopology \<Rightarrow> bool" where
  "integral t \<longleftrightarrow>
     (\<forall>x \<in> set (t_ports t). port_integral t (fst x)) \<and>
     (\<forall>l \<in> set (om_values (t_links t)). link_integral t l) \<and>
     (\<forall>p \<in> set (om_values (t_partitions t)). partition_integral t p)"

lemma om_count_lookup:
  "om_count (t_devices t) i \<longleftrightarrow> (\<exists>r. lookupDevice t i = Some r)"
  "om_count (t_switches t) j \<longleftrightarrow> (\<exists>r. lookupSwitch t j = Some r)"
  "om_count (t_ports t) k \<longleftrightarrow> (\<exists>r. lookupPort t k = Some r)"
  by (auto simp: om_count_def lookup_defs)

lemma duplicate_violations_Nil_iff:
  "duplicate_violations msg ks seen = [] \<longleftrightarrow> distinct ks \<and> set ks \<inter> seen = {}"
  by (induction msg ks seen rule: duplicate_violations.induct) auto

lemma violation_if_Nil_iff [simp]: "violation_if b msg = [] \<longleftrightarrow> \<not> b"
  by (simp add: violation_if_def)

lemma violations_Nil_iff:
  "switch_violations x = [] \<longleftrightarrow> sw_id (snd x) = fst x"
  "port_violations t y = [] \<longleftrightarrow> port_integral t (fst y)"
  "link_violations t z = [] \<longleftrightarrow> link_integral t (snd z)"
  "partition_violations t w = [] \<longleftrightarrow> partition_integral t (snd w)"
  by (auto simp: switch_violations_def port_violations_def port_integral_def
      link_violations_def link_integral_def end_integral_def isDeviceEnd_def
      partition_violations_def partition_integral_def om_count_lookup Let_def not_le)

lemma checkIntegrity_iff:
  assumes "topo_wf t"
  shows "checkIntegrity t = [] \<longleftrightarrow> integral t"
proof -
  have "distinct (map fst (t_devices t))" "distinct (map fst (t_switches t))"
    "distinct (map fst (t_ports t))" "\<forall>x \<in> set (t_switches t). sw_id (snd x) = fst x"
    using assms by (auto simp: topo_wf_def om_ok_distinct om_keyed_def)
  then show ?thesis
    by (simp add: checkIntegrity_def duplicate_violations_Nil_iff violations_Nil_iff
        integral_def om_values_def)
qed

text \<open>Lookups in a well-formed topology.\<close>

lemma lookupLink_value:
  assumes "topo_wf t" and "l \<in> set (om_values (t_links t))"
  shows "lookupLink t (li_id l) = Some l"
proof -
  obtain k where "(k, l) \<in> set (t_links t)"
    using assms(2) by (auto simp: om_values_def)
  with assms(1) show ?thesis
    by (auto simp: topo_wf_def lookupLink_def om_find_eq_Some om_keyed_def)
qed

lemma lookupPartition_value:
  assumes "topo_wf t" and "p \<in> set (om_values (t_partitions t))"
  shows "lookupPartition t (pa_id p) = Some p"
proof -
  obtain k where "(k, p) \<in> set (t_partitions t)"
    using assms(2) by (auto simp: om_values_def)
  with assms(1) show ?thesis
    by (auto simp: topo_wf_def lookupPartition_def om_find_eq_Some om_keyed_def)
qed

lemma topo_wf_values:
  "topo_wf t \<Longrightarrow> lookupSwitch t i = Some r \<Longrightarrow> r \<in> set (om_values (t_switches t))"
  "topo_wf t \<Longrightarrow> lookupPort t j = Some p \<Longrightarrow> p \<in> set (om_values (t_ports t))"
  "topo_wf t \<Longrightarrow> lookupLink t k = Some l \<Longrightarrow> l \<in> set (om_values (t_links t))"
  by (force simp: lookup_defs om_values_def dest: om_find_Some_in)+

end
