(* ===== verification/Fabric_Reachability.thy ===== *)
theory Fabric_Reachability
  imports Fabric_Paths Fabric_Integrity
begin

text \<open>
  What \<open>deviceReachability\<close> and \<open>fabricHealth\<close> report. Reachability is exact for the walks of
  the topology behind the partition gate; it does not look at the state of the switches on a
  path.
\<close>

section \<open>Reachability and walks\<close>

text \<open>The partition gate of \<open>deviceReachability\<close>.\<close>

definition partitions_differ :: "FabricTopology \<Rightarrow> DeviceId \<Rightarrow> DeviceId \<Rightarrow> bool" where
  "partitions_differ t src dst \<longleftrightarrow>
     (\<exists>p q. memberPartition t src = Some p \<and> memberPartition t dst = Some q \<and> pa_id p \<noteq> pa_id q)"

definition reachable_answer :: "Reachability \<Rightarrow> bool" where
  "reachable_answer a \<longleftrightarrow> a = Reachability.REACHABLE \<or> a = Reachability.REACHABLE_DEGRADED"

lemma path_reachability_iff: "reachable_answer (path_reachability t ps) \<longleftrightarrow> ps \<noteq> []"
  by (simp add: path_reachability_def reachable_answer_def)

lemma endpoint_live_state:
  "endpoint_live s \<Longrightarrow> \<not> entity_stale s \<and> s \<noteq> EntityState.UNSUPPORTED \<and> \<not> endpoint_gone s"
  by (auto simp: endpoint_live_def entity_stale_def endpoint_gone_def)

lemma deviceReachability_ready:
  assumes "endpoints_ready t src dst"
  shows "deviceReachability t src dst =
    (if partitions_differ t src dst then Reachability.PARTITION_BLOCKED
     else path_reachability t (enumeratePaths t src dst default_TraversalConfig))"
proof -
  obtain s d where "lookupDevice t src = Some s" "lookupDevice t dst = Some d" "src \<noteq> dst"
    "endpoint_live (dev_state s)" "endpoint_live (dev_state d)"
    using assms by (auto simp: endpoints_ready_def)
  then show ?thesis
    using endpoint_live_state [of "dev_state s"] endpoint_live_state [of "dev_state d"]
    by (simp add: deviceReachability_def partitions_differ_def split: option.split)
qed

lemma default_config_positive:
  "tc_maxDepth default_TraversalConfig \<noteq> 0" "0 < unat (tc_maxPaths default_TraversalConfig)"
  by (simp_all add: default_TraversalConfig_def limit_defs)

lemma enumeratePaths_Nil_iff:
  assumes "endpoints_ready t src dst"
  shows "enumeratePaths t src dst default_TraversalConfig \<noteq> [] \<longleftrightarrow>
    (\<exists>ls ss. fabric_route t default_TraversalConfig src dst ls ss)"
  using enumeratePaths_path_ok [OF hd_in_set, of t src dst default_TraversalConfig]
    enumeratePaths_reports [OF assms default_config_positive(1)] default_config_positive(2)
  by (fastforce simp: path_ok_def reported_def)

section \<open>The switch states\<close>

lemma switches_irrelevant [simp]:
  "lookupPort (t\<lparr>t_switches := sws\<rparr>) = lookupPort t"
  "lookupLink (t\<lparr>t_switches := sws\<rparr>) = lookupLink t"
  "lookupDevice (t\<lparr>t_switches := sws\<rparr>) = lookupDevice t"
  "mkEdge (t\<lparr>t_switches := sws\<rparr>) = mkEdge t"
  "push_edge (t\<lparr>t_switches := sws\<rparr>) = push_edge t"
  "swEdges (t\<lparr>t_switches := sws\<rparr>) = swEdges t"
  "finish_path (t\<lparr>t_switches := sws\<rparr>) = finish_path t"
  "memberPartition (t\<lparr>t_switches := sws\<rparr>) = memberPartition t"
proof -
  show look: "lookupPort (t\<lparr>t_switches := sws\<rparr>) = lookupPort t"
    "lookupLink (t\<lparr>t_switches := sws\<rparr>) = lookupLink t"
    "lookupDevice (t\<lparr>t_switches := sws\<rparr>) = lookupDevice t"
    by (simp_all add: fun_eq_iff lookup_defs)
  show mk: "mkEdge (t\<lparr>t_switches := sws\<rparr>) = mkEdge t"
    by (simp add: fun_eq_iff mkEdge_def look)
  show push: "push_edge (t\<lparr>t_switches := sws\<rparr>) = push_edge t"
    by (simp add: fun_eq_iff push_edge_def mk)
  show "swEdges (t\<lparr>t_switches := sws\<rparr>) = swEdges t"
    by (simp add: swEdges_def push)
  show "finish_path (t\<lparr>t_switches := sws\<rparr>) = finish_path t"
    by (simp add: fun_eq_iff finish_path_def anyDegraded_def look)
  show "memberPartition (t\<lparr>t_switches := sws\<rparr>) = memberPartition t"
    by (simp add: fun_eq_iff memberPartition_def)
qed

lemma expand_switches [simp]:
  "expand (t\<lparr>t_switches := sws\<rparr>) cfg m src dst p es result frontier =
   expand t cfg m src dst p es result frontier"
  by (induction es arbitrary: result frontier) simp_all

lemma search_switches [simp]:
  "search (t\<lparr>t_switches := sws\<rparr>) cfg m src dst frontier result =
   search t cfg m src dst frontier result"
  by (induction t cfg m src dst frontier result rule: search.induct) (simp_all split: option.splits)

lemma enumeratePaths_switches [simp]:
  "enumeratePaths (t\<lparr>t_switches := sws\<rparr>) src dst cfg = enumeratePaths t src dst cfg"
  by (simp add: enumeratePaths_def split: option.split)

section \<open>Properties\<close>



text \<open>
  Reachability ignores the state of the switches: whatever happens to the switch records
  (all of them may go down or disappear), a pair that was reachable is still reported with
  the same answer, because the search only looks at links, ports and endpoints.
\<close>

theorem deviceReachability_ignores_switches:
  assumes "reachable_answer (deviceReachability t src dst)"
  shows "deviceReachability (t\<lparr>t_switches := sws\<rparr>) src dst = deviceReachability t src dst"
proof -
  have "path_reachability (t\<lparr>t_switches := sws\<rparr>) ps = path_reachability t ps" if "ps \<noteq> []" for ps
    using that by (simp add: path_reachability_def)
  then show ?thesis
    using assms path_reachability_iff
    by (auto simp: deviceReachability_def reachable_answer_def split: option.splits if_splits)
qed

lemma redundant_reachable: "deviceReachability redundant_fabric (MkId 1) (MkId 2) = Reachability.REACHABLE"
  by code_simp

theorem deviceReachability_ignores_switches_witness:
  "deviceReachability (redundant_fabric\<lparr>t_switches :=
     om_map (\<lambda>s. s\<lparr>sw_state := EntityState.DOWN\<rparr>) (t_switches redundant_fabric)\<rparr>) (MkId 1) (MkId 2)
   = Reachability.REACHABLE"
  using deviceReachability_ignores_switches [of redundant_fabric "MkId 1" "MkId 2"]
    redundant_reachable by (simp add: reachable_answer_def)

text \<open>
  The answers \<open>REVALIDATION_REQUIRED\<close> and \<open>TOPOLOGY_STALE\<close> are never given: a stale switch
  already counts as a switch that is down.
\<close>

theorem deviceReachability_unused_answers:
  "deviceReachability t src dst \<noteq> Reachability.REVALIDATION_REQUIRED \<and>
   deviceReachability t src dst \<noteq> Reachability.TOPOLOGY_STALE"
proof -
  have "list_ex (\<lambda>r. entity_stale (sw_state r)) rs \<Longrightarrow> list_ex (\<lambda>r. switch_blocks (sw_state r)) rs"
    for rs :: "SwitchRecord list"
    by (auto simp: list_ex_iff entity_stale_def switch_blocks_def)
  then show ?thesis
    by (auto simp: deviceReachability_def path_reachability_def split: option.splits if_splits)
qed

text \<open>
  Health takes an unknown state for a good one: a fabric whose switches, ports and devices
  are all in state \<open>UNKNOWN\<close>, and whose partitions are active, is reported \<open>HEALTHY\<close>.
\<close>

theorem fabricHealth_unknown_is_healthy:
  assumes "\<forall>r \<in> set (om_values (t_switches t)). sw_state r = EntityState.UNKNOWN"
    and "\<forall>r \<in> set (om_values (t_ports t)). po_state r = EntityState.UNKNOWN"
    and "\<forall>r \<in> set (om_values (t_devices t)). dev_state r = EntityState.UNKNOWN"
    and "\<forall>p \<in> set (om_values (t_partitions t)). pa_state p = PartitionState.ACTIVE"
  shows "fabricHealth t = FabricHealth.HEALTHY"
  using assms by (auto simp: fabricHealth_def Let_def list_ex_iff entity_stale_def endpoint_gone_def
      partition_stale_def)

theorem fabricHealth_unknown_is_healthy_witness:
  "fabricHealth (default_FabricTopology\<lparr>t_switches :=
     [(MkId 10, (makeSyntheticSwitch (MkId 10) ''s'' 2)\<lparr>sw_state := EntityState.UNKNOWN\<rparr>)]\<rparr>)
   = FabricHealth.HEALTHY"
  by (rule fabricHealth_unknown_is_healthy)
    (simp_all add: om_values_def default_FabricTopology_def)

end
