(* ===== verification/Fabric_Wire.thy ===== *)
theory Fabric_Wire
  imports Fabric_Records "HOL-Library.Monad_Syntax"
begin

unbundle bit_operations_syntax

text \<open>
  The binary codec (\<open>wire.h\<close>, \<open>wire.cpp\<close>): the CRC-32, the little-endian writer and the
  bounded reader.

  The writer's \<open>v_\<close> only ever grows at its end, so a writing operation is the list of
  bytes it appends. The reader is modelled twice: \<open>ByteReader\<close> is the class with its
  cursor, its \<open>ok_\<close> flag and its error text, and the \<open>get\<close> functions are parsers
  that return a value together with the bytes that remain, which is how the decoders of the
  other components use it. The locale \<open>reads\<close> says that an operation of the class
  refines a parser; it is interpreted for every operation.
\<close>

section \<open>The checksum\<close>

definition crc_poly :: u32 where
  "crc_poly = 0xEDB88320"

definition crc_shift :: "u32 \<Rightarrow> u32" where
  "crc_shift c = (if c AND 1 \<noteq> 0 then crc_poly XOR drop_bit 1 c else drop_bit 1 c)"

definition crc_table :: "u32 list" where
  "crc_table = map (\<lambda>i. (crc_shift ^^ 8) (word_of_nat i)) [0..<256]"

definition crc_update :: "u8 \<Rightarrow> u32 \<Rightarrow> u32" where
  "crc_update b crc = crc_table ! unat ((crc XOR ucast b) AND 0xFF) XOR drop_bit 8 crc"

definition crc32 :: "bytes \<Rightarrow> u32" where
  "crc32 data = fold crc_update data 0xFFFFFFFF XOR 0xFFFFFFFF"

section \<open>The writer\<close>

definition put_u8 :: "u8 \<Rightarrow> bytes" where
  "put_u8 v = [v]"

definition put_u16 :: "u16 \<Rightarrow> bytes" where
  "put_u16 v = [ucast (v AND 0xFF), ucast (drop_bit 8 v AND 0xFF)]"

text \<open>\<open>for (i < n) v_.push_back((uint8_t)((v >> (8 * i)) & 0xFF))\<close>\<close>

definition scatter :: "nat \<Rightarrow> 'w::len word \<Rightarrow> bytes" where
  "scatter n v = map (\<lambda>i. ucast (drop_bit (8 * i) v AND 0xFF)) [0..<n]"

definition put_u32 :: "u32 \<Rightarrow> bytes" where
  "put_u32 v = scatter 4 v"

definition put_u64 :: "u64 \<Rightarrow> bytes" where
  "put_u64 v = scatter 8 v"

text \<open>An \<open>int64_t\<close> is an integer between \<open>-2^63\<close> and \<open>2^63 - 1\<close>.\<close>

definition put_i64 :: "int \<Rightarrow> bytes" where
  "put_i64 v = put_u64 (word_of_int v)"

text \<open>A character of a \<open>std::string\<close> and the byte that stores it.\<close>

definition byte_of_char :: "char \<Rightarrow> u8" where
  "byte_of_char c = word_of_nat (of_char c)"

definition char_of_byte :: "u8 \<Rightarrow> char" where
  "char_of_byte b = char_of (unat b)"

definition put_str :: "string \<Rightarrow> bytes" where
  "put_str s = put_u32 (word_of_nat (length s)) @ map byte_of_char s"

text \<open>A flag is written as \<open>b ? 1 : 0\<close>.\<close>

definition put_bool :: "bool \<Rightarrow> bytes" where
  "put_bool b = put_u8 (if b then 1 else 0)"

section \<open>The reader as a parser\<close>

type_synonym 'a parser = "bytes \<Rightarrow> ('a \<times> bytes) option"

definition get_u8 :: "u8 parser" where
  "get_u8 bs = (if length bs < 1 then None else Some (bs ! 0, drop 1 bs))"

definition get_u16 :: "u16 parser" where
  "get_u16 bs =
     (if length bs < 2 then None
      else Some (ucast (bs ! 0) OR push_bit 8 (ucast (bs ! 1)), drop 2 bs))"

text \<open>\<open>for (i < n) v |= ((uintN_t) p[i]) << (8 * i)\<close>\<close>

definition gather :: "nat \<Rightarrow> bytes \<Rightarrow> 'w::len word" where
  "gather n bs = fold (\<lambda>i v. v OR push_bit (8 * i) (ucast (bs ! i))) [0..<n] 0"

definition get_u32 :: "u32 parser" where
  "get_u32 bs = (if length bs < 4 then None else Some (gather 4 bs, drop 4 bs))"

definition get_u64 :: "u64 parser" where
  "get_u64 bs = (if length bs < 8 then None else Some (gather 8 bs, drop 8 bs))"

definition get_i64 :: "int parser" where
  "get_i64 bs = do { (v, bs) \<leftarrow> get_u64 bs; Some (sint v, bs) }"

definition kMaxStringBytes :: nat where
  "kMaxStringBytes = 64 * 1024 * 1024"

definition get_str :: "string parser" where
  "get_str bs = do {
     (len, bs) \<leftarrow> get_u32 bs;
     if unat len > length bs then None
     else if unat len > kMaxStringBytes then None
     else Some (map char_of_byte (take (unat len) bs), drop (unat len) bs)}"

definition get_bytes :: "nat \<Rightarrow> bytes parser" where
  "get_bytes n bs = (if n > length bs then None else Some (take n bs, drop n bs))"

text \<open>A flag is read as \<open>b != 0\<close>.\<close>

definition get_bool :: "bool parser" where
  "get_bool bs = do { (b, bs) \<leftarrow> get_u8 bs; Some (b \<noteq> 0, bs) }"

text \<open>Reading \<open>n\<close> items in a row.\<close>

fun get_many :: "'a parser \<Rightarrow> nat \<Rightarrow> 'a list parser" where
  "get_many rd 0 bs = Some ([], bs)"
| "get_many rd (Suc n) bs = do {
     (x, bs) \<leftarrow> rd bs; (xs, bs) \<leftarrow> get_many rd n bs; Some (x # xs, bs)}"

section \<open>The reader as a class\<close>

record ByteReader =
  br_data :: bytes
  br_pos :: nat
  br_ok :: bool
  br_err :: string

definition ByteReader_new :: "bytes \<Rightarrow> ByteReader" where
  "ByteReader_new v = \<lparr>br_data = v, br_pos = 0, br_ok = True, br_err = []\<rparr>"

definition br_fail :: "string \<Rightarrow> ByteReader \<Rightarrow> 'a option \<times> ByteReader" where
  "br_fail msg r = (None, r\<lparr>br_ok := False, br_err := msg\<rparr>)"

definition br_remaining :: "ByteReader \<Rightarrow> nat" where
  "br_remaining r = length (br_data r) - br_pos r"

definition br_eof :: "ByteReader \<Rightarrow> bool" where
  "br_eof r \<longleftrightarrow> br_pos r = length (br_data r)"

type_synonym 'a br_op = "ByteReader \<Rightarrow> 'a option \<times> ByteReader"

definition br_u8 :: "u8 br_op" where
  "br_u8 r =
     (if br_pos r + 1 > length (br_data r) then br_fail ''overrun reading u8'' r
      else (Some (br_data r ! br_pos r), r\<lparr>br_pos := br_pos r + 1\<rparr>))"

definition br_u16 :: "u16 br_op" where
  "br_u16 r =
     (if br_pos r + 2 > length (br_data r) then br_fail ''overrun reading u16'' r
      else (Some (ucast (br_data r ! br_pos r) OR push_bit 8 (ucast (br_data r ! (br_pos r + 1)))),
            r\<lparr>br_pos := br_pos r + 2\<rparr>))"

definition br_u32 :: "u32 br_op" where
  "br_u32 r =
     (if br_pos r + 4 > length (br_data r) then br_fail ''overrun reading u32'' r
      else (Some (fold (\<lambda>i v. v OR push_bit (8 * i) (ucast (br_data r ! (br_pos r + i)))) [0..<4] 0),
            r\<lparr>br_pos := br_pos r + 4\<rparr>))"

definition br_u64 :: "u64 br_op" where
  "br_u64 r =
     (if br_pos r + 8 > length (br_data r) then br_fail ''overrun reading u64'' r
      else (Some (fold (\<lambda>i v. v OR push_bit (8 * i) (ucast (br_data r ! (br_pos r + i)))) [0..<8] 0),
            r\<lparr>br_pos := br_pos r + 8\<rparr>))"

definition br_i64 :: "int br_op" where
  "br_i64 r = (case br_u64 r of (None, r) \<Rightarrow> (None, r) | (Some t, r) \<Rightarrow> (Some (sint t), r))"

definition br_bytes :: "nat \<Rightarrow> bytes br_op" where
  "br_bytes n r =
     (if n > br_remaining r then br_fail ''bytes length exceeds remaining'' r
      else (Some (take n (drop (br_pos r) (br_data r))), r\<lparr>br_pos := br_pos r + n\<rparr>))"

definition br_skip :: "nat \<Rightarrow> unit br_op" where
  "br_skip n r =
     (if n > br_remaining r then br_fail ''skip exceeds remaining'' r
      else (Some (), r\<lparr>br_pos := br_pos r + n\<rparr>))"

definition br_str :: "string br_op" where
  "br_str r = (case br_u32 r of
       (None, r) \<Rightarrow> (None, r)
     | (Some len, r) \<Rightarrow>
         if unat len > br_remaining r then br_fail ''string length exceeds remaining'' r
         else if unat len > kMaxStringBytes then br_fail ''string length absurd'' r
         else (Some (map char_of_byte (take (unat len) (drop (br_pos r) (br_data r)))),
               r\<lparr>br_pos := br_pos r + unat len\<rparr>))"

text \<open>Two operations in a row, the second one only after the first has succeeded, as in
  \<open>if (!r.u64(x)) return false; if (!r.str(y)) return false;\<close>.\<close>

definition br_bind :: "'a br_op \<Rightarrow> ('a \<Rightarrow> 'b br_op) \<Rightarrow> 'b br_op" where
  "br_bind f g r = (case f r of (None, r) \<Rightarrow> (None, r) | (Some x, r) \<Rightarrow> g x r)"

section \<open>Facts about the checksum\<close>

lemma crc_shift_bits:
  "bit (crc_shift c) n \<longleftrightarrow> n < 32 \<and> ((bit c 0 \<and> bit crc_poly n) \<noteq> bit c (Suc n))"
  by (auto simp: crc_shift_def bit_xor_iff bit_drop_bit_eq and_one_eq mod_2_eq_odd bit_0 
      dest: bit_imp_le_length)

lemma crc_shift_xor: "crc_shift (a XOR b) = crc_shift a XOR crc_shift b"
  by (rule bit_word_eqI) (auto simp: crc_shift_bits bit_xor_iff)

lemma crc_shift_even: "\<not> bit c 0 \<Longrightarrow> crc_shift c = drop_bit 1 c"
  by (simp add: crc_shift_def and_one_eq mod_2_eq_odd bit_0)

lemma crc_poly_top: "bit crc_poly 31"
  by (simp add: crc_poly_def bit_numeral_rec)

lemma crc_shift_inject: "crc_shift a = crc_shift b \<longleftrightarrow> a = b"
proof
  assume eq: "crc_shift a = crc_shift b"
  have n: "bit (crc_shift a) n = bit (crc_shift b) n" for n by (simp add: eq)
  have 0: "bit a 0 = bit b 0"
    using n [of 31] bit_imp_le_length [of a 32] bit_imp_le_length [of b 32]
    by (auto simp: crc_shift_bits crc_poly_top)
  show "a = b"
  proof (rule bit_word_eqI)
    fix m assume "m < LENGTH(32)"
    then show "bit a m = bit b m"
      using 0 n [of "m - 1"] by (cases m) (auto simp: crc_shift_bits)
  qed
qed simp

lemma crc_shifts_xor: "(crc_shift ^^ n) (a XOR b) = (crc_shift ^^ n) a XOR (crc_shift ^^ n) b"
  by (induction n) (simp_all add: crc_shift_xor)

lemma crc_shifts_inject: "(crc_shift ^^ n) a = (crc_shift ^^ n) b \<longleftrightarrow> a = b"
  by (induction n) (simp_all add: crc_shift_inject)

lemma crc_shifts_clear: "(\<forall>i < n. \<not> bit c i) \<Longrightarrow> (crc_shift ^^ n) c = drop_bit n c"
proof (induction n)
  case (Suc n)
  then have "(crc_shift ^^ n) c = drop_bit n c" "\<not> bit (drop_bit n c) 0"
    by (simp_all add: bit_drop_bit_eq)
  then show ?case
    by (simp add: crc_shift_even drop_bit_drop_bit)
qed simp

lemma bit_gather:
  "bit (gather n bs :: 'w::len word) k \<longleftrightarrow> k < LENGTH('w) \<and> k < 8 * n \<and> bit (bs ! (k div 8)) (k mod 8)"
proof (induction n)
  case 0
  then show ?case by (simp add: gather_def)
next
  case (Suc n)
  have step: "gather (Suc n) bs = (gather n bs OR push_bit (8 * n) (ucast (bs ! n)) :: 'w word)"
    by (simp add: gather_def)
  have "k div 8 = n \<and> k mod 8 = k - 8 * n" if "8 * n \<le> k" "k < 8 * Suc n"
    using that by (auto simp: div_nat_eqI mod_nat_eqI)
  moreover have "k - 8 * n < 8" if "bit (bs ! n) (k - 8 * n)"
    using bit_imp_le_length [OF that] by simp
  ultimately show ?case
    by (auto simp: step Suc bit_or_iff bit_push_bit_iff bit_ucast_iff not_less dest: bit_imp_le_length)
qed

lemma crc_update_shift: "crc_update b c = (crc_shift ^^ 8) (c XOR ucast b)"
proof -
  define x where "x = c XOR ucast b"
  have small: "\<not> bit b i" if "8 \<le> i" for i
    using that bit_imp_le_length [of b i] by auto
  have low: "bit (x AND 0xFF) i \<longleftrightarrow> i < 8 \<and> bit x i" for i
    using take_bit_eq_mask [of 8 x] bit_take_bit_iff [of 8 x i] by (simp add: mask_eq_exp_minus_1)
  have "x = (x AND 0xFF) XOR push_bit 8 (drop_bit 8 x)"
    by (rule bit_word_eqI) (auto simp: bit_xor_iff low bit_push_bit_iff bit_drop_bit_eq)
  then have "(crc_shift ^^ 8) x = (crc_shift ^^ 8) (x AND 0xFF) XOR (crc_shift ^^ 8) (push_bit 8 (drop_bit 8 x))"
    using crc_shifts_xor by metis
  also have "(crc_shift ^^ 8) (push_bit 8 (drop_bit 8 x)) = drop_bit 8 (push_bit 8 (drop_bit 8 x))"
    by (rule crc_shifts_clear) (simp add: bit_push_bit_iff)
  also have "drop_bit 8 (push_bit 8 (drop_bit 8 x)) = drop_bit 8 c"
    by (rule bit_word_eqI) (auto simp: x_def bit_push_bit_iff bit_drop_bit_eq bit_xor_iff bit_ucast_iff small dest: bit_imp_le_length)
  also have "(crc_shift ^^ 8) (x AND 0xFF) = crc_table ! unat (x AND 0xFF)"
  proof -
    have "unat (x AND 0xFF) < 256"
      using word_and_le1 [of x "0xFF"] by (simp add: word_le_nat_alt)
    then show ?thesis by (simp add: crc_table_def)
  qed
  finally show ?thesis
    by (simp add: crc_update_def x_def)
qed

lemma crc_shifts_pushed:
  assumes "n \<le> 24"
  shows "(crc_shift ^^ n) (push_bit n (ucast (b :: u8))) = ucast b"
proof -
  have "(crc_shift ^^ n) (push_bit n (ucast b)) = drop_bit n (push_bit n (ucast b))"
    by (rule crc_shifts_clear) (simp add: bit_push_bit_iff)
  also have "\<dots> = ucast b"
    by (rule bit_word_eqI) (use assms in \<open>auto simp: bit_push_bit_iff bit_drop_bit_eq bit_ucast_iff
        dest: bit_imp_le_length\<close>)
  finally show ?thesis .
qed

lemma gather_snoc:
  assumes "length bs < 4"
  shows "(gather (Suc (length bs)) (bs @ [b]) :: u32) =
    gather (length bs) bs XOR push_bit (8 * length bs) (ucast b)"
proof (rule bit_word_eqI)
  fix k :: nat assume "k < LENGTH(32)"
  show "bit (gather (Suc (length bs)) (bs @ [b]) :: u32) k =
    bit (gather (length bs) bs XOR push_bit (8 * length bs) (ucast b) :: u32) k"
  proof (cases "k < 8 * length bs")
    case True
    then have "k div 8 < length bs" by auto
    with True show ?thesis by (simp add: bit_gather bit_xor_iff bit_push_bit_iff nth_append)
  next
    case False
    show ?thesis
    proof (cases "k < 8 * Suc (length bs)")
      case True
      with False have "k div 8 = length bs" "k mod 8 = k - 8 * length bs"
        by (auto simp: div_nat_eqI mod_nat_eqI)
      with True False \<open>k < LENGTH(32)\<close> show ?thesis
        by (auto simp: bit_gather bit_xor_iff bit_push_bit_iff bit_ucast_iff)
    next
      case False
      then have "\<not> bit b (k - 8 * length bs)"
        using bit_imp_le_length [of b "k - 8 * length bs"] by auto
      with False show ?thesis
        by (simp add: bit_gather bit_xor_iff bit_push_bit_iff bit_ucast_iff)
    qed
  qed
qed

text \<open>Feeding at most four bytes is one shift of the register with the bytes added to it.\<close>

lemma crc_window:
  "length bs \<le> 4 \<Longrightarrow>
    fold crc_update bs c = (crc_shift ^^ (8 * length bs)) (c XOR gather (length bs) bs)"
proof (induction bs rule: rev_induct)
  case Nil
  then show ?case by (simp add: gather_def)
next
  case (snoc b bs)
  let ?n = "8 * length bs"
  have "fold crc_update (bs @ [b]) c =
      (crc_shift ^^ 8) ((crc_shift ^^ ?n) (c XOR gather (length bs) bs) XOR ucast b)"
    using snoc by (simp add: crc_update_shift [of b])
  also have "ucast b = (crc_shift ^^ ?n) (push_bit ?n (ucast b))"
    using snoc.prems by (simp add: crc_shifts_pushed)
  also have "(crc_shift ^^ 8) ((crc_shift ^^ ?n) (c XOR gather (length bs) bs)
        XOR (crc_shift ^^ ?n) (push_bit ?n (ucast b))) =
      (crc_shift ^^ 8) ((crc_shift ^^ ?n) (c XOR gather (Suc (length bs)) (bs @ [b])))"
    using snoc.prems by (simp add: gather_snoc crc_shifts_xor ac_simps)
  also have "\<dots> = (crc_shift ^^ (8 * length (bs @ [b]))) (c XOR gather (length (bs @ [b])) (bs @ [b]))"
    by (simp add: funpow_add)
  finally show ?case .
qed


lemma xor_cancel [simp]:
  "c XOR a = c XOR b \<longleftrightarrow> a = b" "a XOR c = b XOR c \<longleftrightarrow> a = b" for a b c :: "'w::len word"
  by (auto simp: bit_eq_iff bit_xor_iff)

lemma gather_inject:
  assumes "gather n bs = (gather n cs :: 'w::len word)" "length bs = n" "length cs = n" "8 * n \<le> LENGTH('w)"
  shows "bs = cs"
proof (rule nth_equalityI)
  fix i assume "i < length bs"
  show "bs ! i = cs ! i"
  proof (rule bit_word_eqI)
    fix j :: nat assume j: "j < LENGTH(8)"
    have "8 * i + j < LENGTH('w)" "8 * i + j < 8 * n"
      using assms \<open>i < length bs\<close> j by simp_all
    with arg_cong [where f = "\<lambda>w. bit w (8 * i + j)", OF assms(1)] j
    show "bit (bs ! i) j = bit (cs ! i) j" by (simp add: bit_gather)
  qed
qed (simp add: assms)

lemma fold_crc_inject: "fold crc_update bs a = fold crc_update bs b \<longleftrightarrow> a = b"
  by (induction bs arbitrary: a b) (auto simp: crc_update_shift crc_shifts_inject)

lemma crc_window_inject:
  assumes "fold crc_update bs c = fold crc_update cs c" "length bs = length cs" "length cs \<le> 4"
  shows "bs = cs"
proof -
  have "gather (length cs) bs = (gather (length cs) cs :: u32)"
    using assms crc_window [of bs c] crc_window [of cs c] by (simp add: crc_shifts_inject)
  then show ?thesis
    using gather_inject assms(2,3) by fastforce
qed

lemma crc_burst:
  assumes "fold crc_update (xs @ bs @ zs) c = fold crc_update (xs @ cs @ zs) c"
    "length bs = length cs" "length cs \<le> 4"
  shows "bs = cs"
  using assms crc_window_inject by (simp add: fold_crc_inject)

section \<open>Reading back what was written\<close>

text \<open>The interfaces of the codec. A parser takes a prefix of its input; a codec reads back
  every valid value it has written, whatever follows; an exact codec accepts only what it
  writes itself.\<close>

locale parser =
  fixes rd :: "'a parser"
  assumes consumes: "rd bs = Some (x, rest) \<Longrightarrow> \<exists>used. bs = used @ rest"

locale codec = parser rd for rd :: "'a parser" +
  fixes wr :: "'a \<Rightarrow> bytes" and ok :: "'a \<Rightarrow> bool"
  assumes read_back: "ok x \<Longrightarrow> rd (wr x @ rest) = Some (x, rest)"
begin

lemma written_inject:
  assumes "ok x" "ok y" "wr x @ xs = wr y @ ys"
  shows "x = y \<and> xs = ys"
  using read_back [OF assms(1), of xs] read_back [OF assms(2), of ys] unfolding assms(3) by simp

lemma read_many_back:
  "list_all ok xs \<Longrightarrow> get_many rd (length xs) (concat (map wr xs) @ rest) = Some (xs, rest)"
  by (induction xs) (simp_all add: read_back)

end

locale exact_codec = codec rd wr ok for rd :: "'a parser" and wr and ok +
  assumes exact: "rd bs = Some (x, rest) \<Longrightarrow> bs = wr x @ rest \<and> ok x"

lemma get_many_consumes:
  assumes "parser rd" "get_many rd n bs = Some (xs, rest)"
  shows "length xs = n \<and> (\<exists>used. bs = used @ rest)"
  using assms(2)
proof (induction n arbitrary: bs xs)
  case (Suc n)
  then obtain x cs ys where "rd bs = Some (x, cs)" "get_many rd n cs = Some (ys, rest)" "xs = x # ys"
    by (auto split: bind_splits)
  moreover from this obtain used where "bs = used @ cs"
    using parser.consumes [OF assms(1)] by blast
  ultimately show ?case
    using Suc.IH by fastforce
qed simp

section \<open>The fixed-width codecs\<close>

lemma length_scatter [simp]: "length (scatter n v) = n"
  by (simp add: scatter_def)

lemma bit_scatter:
  "i < n \<Longrightarrow> j < 8 \<Longrightarrow> bit (scatter n v ! i) j \<longleftrightarrow> bit v (8 * i + j)"
proof -
  assume "i < n" "j < 8"
  have "(drop_bit (8 * i) v AND 0xFF) = take_bit 8 (drop_bit (8 * i) v)"
    by (simp add: take_bit_eq_mask mask_eq_exp_minus_1)
  then show ?thesis
    using \<open>i < n\<close> \<open>j < 8\<close>
    by (auto simp: scatter_def bit_ucast_iff bit_take_bit_iff bit_drop_bit_eq dest: bit_imp_le_length)
qed

lemma gather_scatter:
  assumes "LENGTH('w) = 8 * n"
  shows "gather n (scatter n v @ rest) = (v :: 'w::len word)"
proof (rule bit_word_eqI)
  fix k :: nat assume k: "k < LENGTH('w)"
  then have d: "k div 8 < n"
    using assms by auto
  then have "bit (scatter n v ! (k div 8)) (k mod 8) = bit v k"
    by (simp add: bit_scatter)
  with d show "bit (gather n (scatter n v @ rest) :: 'w word) k = bit v k"
    using k assms by (auto simp: bit_gather nth_append)
qed

lemma gather_take: "gather n (take n bs) = (gather n bs :: 'w::len word)"
proof (rule bit_word_eqI)
  fix k :: nat
  show "bit (gather n (take n bs) :: 'w word) k = bit (gather n bs :: 'w word) k"
    by (cases "k < 8 * n") (auto simp: bit_gather)
qed

lemma scatter_gather:
  assumes "n \<le> length bs" "LENGTH('w) = 8 * n"
  shows "scatter n (gather n bs :: 'w::len word) = take n bs"
proof (rule gather_inject [where 'w = 'w])
  show "gather n (scatter n (gather n bs :: 'w word)) = (gather n (take n bs) :: 'w word)"
    using gather_scatter [OF assms(2), of _ "[]"] by (simp add: gather_take)
qed (use assms in simp_all)

lemma put_u16_scatter: "put_u16 v = scatter 2 v"
  by (simp add: put_u16_def scatter_def numeral_2_eq_2)

lemma get_u16_gather: "get_u16 bs = (if length bs < 2 then None else Some (gather 2 bs, drop 2 bs))"
  by (simp add: get_u16_def gather_def numeral_2_eq_2)

interpretation u8c: exact_codec get_u8 put_u8 "\<lambda>_. True"
  by unfold_locales (auto simp: get_u8_def put_u8_def neq_Nil_conv Suc_le_eq split: if_splits)

lemma fixed_width:
  assumes "\<And>bs. rd bs = (if length bs < n then None else Some (gather n bs :: 'w::len word, drop n bs))"
    and "\<And>v. wr v = scatter n v" and "LENGTH('w) = 8 * n"
  shows "exact_codec rd wr (\<lambda>_. True)"
proof
  show "\<exists>used. bs = used @ rest" if "rd bs = Some (x, rest)" for bs x rest
    using that assms(1) by (metis append_take_drop_id option.distinct(1) option.inject prod.inject)
  show "rd (wr x @ rest) = Some (x, rest)" for x rest
    by (simp add: assms(1,2) gather_scatter [OF assms(3)])
  show "bs = wr x @ rest \<and> True" if "rd bs = Some (x, rest)" for bs x rest
    using that assms by (auto simp: scatter_gather split: if_splits)
qed

interpretation u16c: exact_codec get_u16 put_u16 "\<lambda>_. True"
  by (rule fixed_width) (simp_all add: get_u16_gather put_u16_scatter)

interpretation u32c: exact_codec get_u32 put_u32 "\<lambda>_. True"
  by (rule fixed_width) (simp_all add: get_u32_def put_u32_def)

interpretation u64c: exact_codec get_u64 put_u64 "\<lambda>_. True"
  by (rule fixed_width) (simp_all add: get_u64_def put_u64_def)


definition i64_range :: "int \<Rightarrow> bool" where
  "i64_range v \<longleftrightarrow> - (2 ^ 63) \<le> v \<and> v < 2 ^ 63"

lemma bind_Some_iff: "Option.bind m f = Some y \<longleftrightarrow> (\<exists>x. m = Some x \<and> f x = Some y)"
  by (cases m) auto

lemma sint_i64: "i64_range v \<Longrightarrow> sint (word_of_int v :: u64) = v"
  by (simp add: i64_range_def sint_sbintrunc' signed_take_bit_int_eq_self)

interpretation i64c: exact_codec get_i64 put_i64 i64_range
proof
  show "\<exists>used. bs = used @ rest" if "get_i64 bs = Some (x, rest)" for bs x rest
    using that u64c.consumes by (auto simp: get_i64_def bind_Some_iff)
  show "get_i64 (put_i64 x @ rest) = Some (x, rest)" if "i64_range x" for x rest
    using that by (simp add: get_i64_def put_i64_def u64c.read_back sint_i64)
  show "bs = put_i64 x @ rest \<and> i64_range x" if "get_i64 bs = Some (x, rest)" for bs x rest
    using that u64c.exact sint_greater_eq [where 'a = 64] sint_less [where 'a = 64]
    by (auto simp: get_i64_def put_i64_def bind_Some_iff i64_range_def)
qed

interpretation boolc: codec get_bool put_bool "\<lambda>_. True"
  by unfold_locales (auto simp: get_bool_def put_bool_def bind_Some_iff u8c.read_back dest: u8c.consumes)

lemma char_of_byte_of_char [simp]: "char_of_byte (byte_of_char c) = c"
  by (simp add: char_of_byte_def byte_of_char_def unat_of_nat)

lemma byte_of_char_of_byte [simp]: "byte_of_char (char_of_byte b) = b"
proof -
  have "unat b < 2 ^ LENGTH(8)"
    by (rule unsigned_less)
  then show ?thesis
    by (simp add: char_of_byte_def byte_of_char_def)
qed

text \<open>Strings that \<open>str\<close> can read back.\<close>

definition str_ok :: "string \<Rightarrow> bool" where
  "str_ok s \<longleftrightarrow> length s \<le> kMaxStringBytes"

lemma unat_u32_of_nat: "n < 2 ^ 32 \<Longrightarrow> unat (word_of_nat n :: u32) = n"
  by (simp add: unat_of_nat)

lemma kMaxStringBytes_u32: "n \<le> kMaxStringBytes \<Longrightarrow> n < 2 ^ 32"
  by (simp add: kMaxStringBytes_def)

interpretation strc: exact_codec get_str put_str str_ok
proof
  show "\<exists>used. bs = used @ rest" if h: "get_str bs = Some (x, rest)" for bs x rest
  proof -
    obtain n cs where "get_u32 bs = Some (n, cs)" "rest = drop (unat n) cs"
      using h by (auto simp: get_str_def bind_Some_iff split: if_splits)
    then show ?thesis
      using u32c.consumes by (metis append.assoc append_take_drop_id)
  qed
  show "get_str (put_str x @ rest) = Some (x, rest)" if "str_ok x" for x rest
  proof -
    have "unat (word_of_nat (length x) :: u32) = length x"
      using that kMaxStringBytes_u32 unat_u32_of_nat by (simp add: str_ok_def)
    then show ?thesis
      using that by (simp add: get_str_def put_str_def u32c.read_back str_ok_def comp_def)
  qed
  show "bs = put_str x @ rest \<and> str_ok x" if h: "get_str bs = Some (x, rest)" for bs x rest
  proof -
    obtain n cs where n: "get_u32 bs = Some (n, cs)" "unat n \<le> length cs" "unat n \<le> kMaxStringBytes"
      "x = map char_of_byte (take (unat n) cs)" "rest = drop (unat n) cs"
      using h by (auto simp: get_str_def bind_Some_iff split: if_splits)
    then show ?thesis
      using u32c.exact [OF n(1)] by (simp add: put_str_def str_ok_def comp_def min_absorb2)
  qed
qed

lemma get_bytes_append [simp]: "length xs = n \<Longrightarrow> get_bytes n (xs @ rest) = Some (xs, rest)"
  by (simp add: get_bytes_def)

interpretation bytesc: exact_codec "get_bytes n" "\<lambda>xs. xs" "\<lambda>xs. length xs = n"
proof
  show "\<exists>used. bs = used @ rest" if "get_bytes n bs = Some (x, rest)" for bs x rest
    using that by (metis append_take_drop_id get_bytes_def option.distinct(1) option.inject prod.inject)
qed (auto simp: get_bytes_def split: if_splits)

text \<open>The read-back equations, as rewrite rules for the decoders.\<close>

declare u8c.read_back [OF TrueI, simp] u16c.read_back [OF TrueI, simp] u32c.read_back [OF TrueI, simp]
  u64c.read_back [OF TrueI, simp] boolc.read_back [OF TrueI, simp] strc.read_back [simp]

lemma read_back_nil [simp]:
  "get_u8 (put_u8 a) = Some (a, [])" "get_u32 (put_u32 b) = Some (b, [])" "get_u64 (put_u64 c) = Some (c, [])"
  "get_bool (put_bool d) = Some (d, [])" "str_ok s \<Longrightarrow> get_str (put_str s) = Some (s, [])"
  using u8c.read_back [of a "[]"] u32c.read_back [of b "[]"] u64c.read_back [of c "[]"]
    boolc.read_back [of d "[]"] strc.read_back [of s "[]"] by simp_all

section \<open>The class refines the parsers\<close>

definition br_rest :: "ByteReader \<Rightarrow> bytes" where
  "br_rest r = drop (br_pos r) (br_data r)"

definition br_wf :: "ByteReader \<Rightarrow> bool" where
  "br_wf r \<longleftrightarrow> br_pos r \<le> length (br_data r)"

text \<open>On success the operation returns the parser's value and moves the cursor to the rest the
  parser leaves; on failure it sets the error and keeps the data.\<close>

locale reads = parser rd for rd :: "'a parser" +
  fixes op :: "'a br_op"
  assumes success: "br_wf r \<Longrightarrow> rd (br_rest r) = Some (v, rest) \<Longrightarrow>
      op r = (Some v, r\<lparr>br_pos := length (br_data r) - length rest\<rparr>)"
    and failure: "br_wf r \<Longrightarrow> rd (br_rest r) = None \<Longrightarrow> fst (op r) = None \<and> \<not> br_ok (snd (op r))"
begin

lemma rest_after:
  assumes "br_wf r" "rd (br_rest r) = Some (v, rest)"
  shows "br_wf (snd (op r)) \<and> br_rest (snd (op r)) = rest"
proof -
  obtain used where "drop (br_pos r) (br_data r) = used @ rest"
    using consumes [OF assms(2)] by (auto simp: br_rest_def)
  then have "br_data r = (take (br_pos r) (br_data r) @ used) @ rest"
    by (metis append.assoc append_take_drop_id)
  then have "drop (length (br_data r) - length rest) (br_data r) = rest"
    by (metis append_eq_conv_conj diff_add_inverse2 length_append)
  then show ?thesis
    using success [OF assms] by (simp add: br_wf_def br_rest_def)
qed

end

lemma reads_bind:
  assumes f: "reads rd f" and g: "\<And>x. reads (rd' x) (g x)"
  shows "reads (\<lambda>bs. Option.bind (rd bs) (\<lambda>(x, bs). rd' x bs)) (br_bind f g)"
proof
  have p: "parser rd" "\<And>x. parser (rd' x)"
    using f g by (simp_all add: reads_def)
  show "\<exists>used. bs = used @ rest" if "Option.bind (rd bs) (\<lambda>(x, bs). rd' x bs) = Some (y, rest)" for bs y rest
    using that parser.consumes [OF p(1)] parser.consumes [OF p(2)]
    by (fastforce simp: bind_Some_iff)
  fix r assume wf: "br_wf r"
  show "br_bind f g r = (Some y, r\<lparr>br_pos := length (br_data r) - length rest\<rparr>)"
    if h: "Option.bind (rd (br_rest r)) (\<lambda>(x, bs). rd' x bs) = Some (y, rest)" for y rest
  proof -
    obtain x cs where x: "rd (br_rest r) = Some (x, cs)" "rd' x cs = Some (y, rest)"
      using h by (auto simp: bind_Some_iff)
    show ?thesis
      using reads.success [OF f wf x(1)] reads.rest_after [OF f wf x(1)]
        reads.success [OF g, of "snd (f r)" x y rest] x(2)
      by (simp add: br_bind_def)
  qed
  show "fst (br_bind f g r) = None \<and> \<not> br_ok (snd (br_bind f g r))"
    if h: "Option.bind (rd (br_rest r)) (\<lambda>(x, bs). rd' x bs) = None"
  proof (cases "rd (br_rest r)")
    case None
    then show ?thesis
      using reads.failure [OF f wf] by (auto simp: br_bind_def split: prod.splits option.splits)
  next
    case (Some xc)
    then obtain x cs where x: "rd (br_rest r) = Some (x, cs)" "rd' x cs = None"
      using h by (cases xc) auto
    show ?thesis
      using reads.success [OF f wf x(1)] reads.rest_after [OF f wf x(1)]
        reads.failure [OF g, of "snd (f r)" x] x(2)
      by (simp add: br_bind_def)
  qed
qed

lemma br_rest_simps:
  "br_wf r \<Longrightarrow> length (br_rest r) = length (br_data r) - br_pos r"
  "br_pos r + i < length (br_data r) \<Longrightarrow> br_rest r ! i = br_data r ! (br_pos r + i)"
  by (simp_all add: br_rest_def br_wf_def)


lemma gather_rest:
  assumes "br_pos r + n \<le> length (br_data r)"
  shows "gather n (br_rest r) =
    (fold (\<lambda>i v. v OR push_bit (8 * i) (ucast (br_data r ! (br_pos r + i)))) [0..<n] 0 :: 'w::len word)"
  using assms unfolding gather_def by (intro fold_cong) (auto simp: br_rest_simps(2))

lemmas reads_defs = br_rest_simps br_wf_def br_fail_def br_remaining_def

interpretation u8r: reads get_u8 br_u8
  by unfold_locales
    (auto simp: get_u8_def br_u8_def reads_defs gather_rest split: if_splits)

interpretation u16r: reads get_u16 br_u16
  by unfold_locales (auto simp: get_u16_def br_u16_def reads_defs split: if_splits)

interpretation u32r: reads get_u32 br_u32
  by unfold_locales (auto simp: get_u32_def br_u32_def reads_defs gather_rest split: if_splits)

interpretation u64r: reads get_u64 br_u64
  by unfold_locales (auto simp: get_u64_def br_u64_def reads_defs gather_rest split: if_splits)

interpretation bytesr: reads "get_bytes n" "br_bytes n"
  by unfold_locales (auto simp: get_bytes_def br_bytes_def reads_defs br_rest_def split: if_splits)


lemma reads_return: "reads (\<lambda>bs. Some (x, bs)) (\<lambda>r. (Some x, r))"
  by unfold_locales (simp_all add: br_rest_simps, simp add: br_wf_def)

interpretation i64r: reads get_i64 br_i64
proof -
  have a: "get_i64 = (\<lambda>bs. Option.bind (get_u64 bs) (\<lambda>(t, bs). Some (sint t, bs)))"
    by (simp add: fun_eq_iff get_i64_def)
  have b: "br_i64 = br_bind br_u64 (\<lambda>t r. (Some (sint t), r))"
    by (simp add: fun_eq_iff br_i64_def br_bind_def)
  show "reads get_i64 br_i64"
    unfolding a b by (rule reads_bind [OF u64r.reads_axioms reads_return])
qed

text \<open>The part of \<open>str\<close> after the length.\<close>

definition get_chars :: "u32 \<Rightarrow> string parser" where
  "get_chars len bs =
     (if unat len > length bs then None else if unat len > kMaxStringBytes then None
      else Some (map char_of_byte (take (unat len) bs), drop (unat len) bs))"

definition br_chars :: "u32 \<Rightarrow> string br_op" where
  "br_chars len r =
     (if unat len > br_remaining r then br_fail ''string length exceeds remaining'' r
      else if unat len > kMaxStringBytes then br_fail ''string length absurd'' r
      else (Some (map char_of_byte (take (unat len) (drop (br_pos r) (br_data r)))),
            r\<lparr>br_pos := br_pos r + unat len\<rparr>))"

lemma reads_chars: "reads (get_chars len) (br_chars len)"
proof
  show "\<exists>used. bs = used @ rest" if "get_chars len bs = Some (x, rest)" for bs x rest
    using that by (metis append_take_drop_id get_chars_def option.distinct(1) option.inject prod.inject)
qed (auto simp: get_chars_def br_chars_def reads_defs br_rest_def split: if_splits)

interpretation strr: reads get_str br_str
proof -
  have a: "get_str = (\<lambda>bs. Option.bind (get_u32 bs) (\<lambda>(len, bs). get_chars len bs))"
    by (simp add: fun_eq_iff get_str_def get_chars_def)
  have b: "br_str = br_bind br_u32 br_chars"
    by (simp add: fun_eq_iff br_str_def br_bind_def br_chars_def split: prod.split option.split)
  show "reads get_str br_str"
    unfolding a b by (rule reads_bind [OF u32r.reads_axioms reads_chars])
qed

section \<open>The stored checksum\<close>

lemma xor_eq_iff: "a XOR b = m \<longleftrightarrow> b = a XOR m" for a b m :: "'w::len word"
  by (auto simp: bit_eq_iff bit_xor_iff)

lemma put_u32_gather: "length bs = 4 \<Longrightarrow> put_u32 (gather 4 bs) = bs"
  using scatter_gather [of 4 bs, where 'w = 32] by (simp add: put_u32_def)

text \<open>A message is followed by its own checksum exactly when running on over the stored
  checksum ends in a fixed residue.\<close>

lemma crc_residue:
  assumes "length st = 4"
  shows "gather 4 st = crc32 data \<longleftrightarrow>
    fold crc_update (data @ st) 0xFFFFFFFF = (crc_shift ^^ 32) 0xFFFFFFFF"
proof -
  have "fold crc_update (data @ st) 0xFFFFFFFF =
      (crc_shift ^^ 32) (fold crc_update data 0xFFFFFFFF XOR gather 4 st)"
    using crc_window [of st "fold crc_update data 0xFFFFFFFF"] assms by simp
  moreover have "fold crc_update data 0xFFFFFFFF XOR gather 4 st = 0xFFFFFFFF \<longleftrightarrow>
      gather 4 st = crc32 data"
    unfolding crc32_def by (rule xor_eq_iff)
  ultimately show ?thesis
    by (simp add: crc_shifts_inject)
qed

section \<open>Properties\<close>

text \<open>The register transition of the CRC-32 (reflected polynomial \<open>0xEDB88320\<close>) for one message
  bit, and the checksum as its iteration over the bits of the message, lowest bit first.\<close>

definition crc_bit :: "bool \<Rightarrow> u32 \<Rightarrow> u32" where
  "crc_bit m c = (if bit c 0 \<noteq> m then crc_poly XOR drop_bit 1 c else drop_bit 1 c)"

definition bits_of_bytes :: "bytes \<Rightarrow> bool list" where
  "bits_of_bytes bs = concat (map (\<lambda>b. map (bit b) [0..<8]) bs)"

lemma crc_bit_shift: "crc_bit m c = crc_shift (c XOR of_bool m)"
  by (rule bit_word_eqI)
    (auto simp: crc_bit_def crc_shift_bits bit_xor_iff bit_drop_bit_eq bit_1_iff dest: bit_imp_le_length)

lemma take_bit_Suc_ucast:
  fixes b :: u8
  assumes "n < 8"
  shows "(ucast (take_bit (Suc n) b) :: u32) = ucast (take_bit n b) XOR push_bit n (of_bool (bit b n))"
  by (rule bit_word_eqI)
    (use assms in \<open>auto simp: bit_xor_iff bit_ucast_iff bit_take_bit_iff bit_push_bit_iff bit_1_iff less_Suc_eq\<close>)

lemma crc_byte_bits:
  "n \<le> 8 \<Longrightarrow> fold crc_bit (map (bit b) [0..<n]) c = (crc_shift ^^ n) (c XOR ucast (take_bit n b))"
  for b :: u8
proof (induction n)
  case (Suc n)
  have "(crc_shift ^^ n) (push_bit n (of_bool m)) = of_bool m" for m
  proof -
    have "(crc_shift ^^ n) (push_bit n (of_bool m)) = drop_bit n (push_bit n (of_bool m))"
      by (rule crc_shifts_clear) (simp add: bit_push_bit_iff)
    also have "\<dots> = of_bool m"
      by (rule bit_word_eqI) (use Suc.prems in \<open>auto simp: bit_push_bit_iff bit_drop_bit_eq bit_1_iff\<close>)
    finally show ?thesis .
  qed
  then show ?case
    using Suc by (simp add: crc_bit_shift take_bit_Suc_ucast crc_shifts_xor flip: xor.assoc)
qed simp

lemma crc_update_bits: "crc_update b c = fold crc_bit (map (bit b) [0..<8]) c"
  by (simp add: crc_byte_bits crc_update_shift take_bit_word_eq_self)

lemma fold_crc_bits: "fold crc_update data c = fold crc_bit (bits_of_bytes data) c"
  by (induction data arbitrary: c) (simp_all only: bits_of_bytes_def fold_append comp_apply list.map
      concat.simps fold_simps crc_update_bits)

text \<open>
  (C21) The table-driven checksum is the bit-serial CRC-32: looking up one table entry per byte
  gives the same register as shifting the message in bit by bit.
\<close>

theorem crc32_bit_serial:
  "crc32 data = fold crc_bit (bits_of_bytes data) 0xFFFFFFFF XOR 0xFFFFFFFF"
  by (simp add: crc32_def fold_crc_bits)

text \<open>
  The checksum detects every burst: two messages of the same length that differ, but only
  within four consecutive bytes, have different checksums.
\<close>

theorem crc32_detects_bursts:
  assumes "length bs = length cs" "length cs \<le> 4" "bs \<noteq> cs"
  shows "crc32 (xs @ bs @ zs) \<noteq> crc32 (xs @ cs @ zs)"
  using crc_burst [of xs bs zs _ cs] assms by (auto simp: crc32_def)

theorem crc32_detects_bursts_witness:
  "crc32 [1, 2, 3, 4, 5] \<noteq> crc32 [1, 9, 3, 4, 5]"
  using crc32_detects_bursts [of "[2]" "[9]" "[1]" "[3, 4, 5]"] by simp


end
