(* ===== verification/Fabric_Route.thy ===== *)
theory Fabric_Route
  imports Complex_Main Fabric_Paths "HOL-Library.Log_Nat" "HOL-Library.Product_Lexorder"
begin

text \<open>
  Route governance (\<open>route.h\<close>, \<open>route.cpp\<close>): the measurement summary, the ranking factors,
  \<open>computeRoute\<close> and \<open>routeDecisionStillAuthoritative\<close>.

  A \<open>double\<close> that is computed is a rational number: hop counts, halves and their sums are
  exact, and the measured throughput and latency round each operation to the nearest
  53-bit significand, ties to even (\<open>round_double\<close>; every intermediate value lies well
  inside the normal range, so the exponent bounds never matter). A \<open>double\<close> that is only
  stored or sent is its 64-bit pattern.
\<close>

section \<open>Floating point\<close>

definition pow2 :: "int \<Rightarrow> rat" where
  "pow2 k = (if 0 \<le> k then 2 ^ nat k else 1 / 2 ^ nat (- k))"

definition round_half_even :: "rat \<Rightarrow> int" where
  "round_half_even x =
     (let f = \<lfloor>x\<rfloor>; r = x - of_int f
      in if r < 1/2 then f else if 1/2 < r then f + 1 else if even f then f else f + 1)"

definition binade :: "rat \<Rightarrow> int" where
  "binade x = (let (n, d) = quotient_of x; k = bitlen n - bitlen d
     in if pow2 k \<le> x then k else k - 1)"

definition round_double :: "rat \<Rightarrow> rat" where
  "round_double x =
     (if x \<le> 0 then 0
      else let u = pow2 (binade x - 52) in of_int (round_half_even (x / u)) * u)"

definition double_of_u64 :: "u64 \<Rightarrow> rat" where
  "double_of_u64 w = round_double (of_nat (unat w))"

definition double_max :: rat where
  "double_max = (2 ^ 53 - 1) * 2 ^ 971"

text \<open>The same number written out, for evaluation.\<close>

lemma double_max_literal [code]:
  "double_max =
     0xFFFFFFFFFFFFF800000000000000000000000000000000000000000000000000000000000000000000000000000000000000000000000000000000000000000000000000000000000000000000000000000000000000000000000000000000000000000000000000000000000000000000000000000000000000000000000000"
  by (simp add: double_max_def)

text \<open>\<open>d > 0.0\<close> on the bit pattern: sign clear, not zero, not a NaN.\<close>

definition double_bits_positive :: "double_bits \<Rightarrow> bool" where
  "double_bits_positive b \<longleftrightarrow> 0 < b \<and> b \<le> 0x7FF0000000000000"

definition double_bits_one :: double_bits where
  "double_bits_one = 0x3FF0000000000000"

definition bytesPerSec :: "Measurement \<Rightarrow> rat" where
  "bytesPerSec m =
     (if \<not> me_elapsedKnown m \<or> me_elapsedNanos m = 0 then 0
      else round_double
        (round_double (round_double
            (double_of_u64 (me_payloadBytes m) * double_of_u64 (me_iterations m)) * 10 ^ 9)
         / double_of_u64 (me_elapsedNanos m)))"

definition latencyUsPerOp :: "Measurement \<Rightarrow> rat" where
  "latencyUsPerOp m =
     (if \<not> me_elapsedKnown m \<or> me_iterations m = 0 then 0
      else round_double
        (round_double (double_of_u64 (me_elapsedNanos m) / double_of_u64 (me_iterations m))
         / 1000))"

section \<open>Policies and decisions\<close>

record RoutePolicy =
  rp_id :: PolicyId
  rp_requireSufficientsSwitches :: bool
  rp_requireSufficientsPorts :: bool
  rp_requireNonDegradedPath :: bool
  rp_insidePartition :: bool
  rp_maxAllowedSwitches :: u64
  rp_maxAllowedHops :: u64
  rp_requiredMinRelativeBandwidth :: double_bits
  rp_preferRedundantPath :: bool
  rp_requireFreshEvidence :: bool
  rp_maxStalenessNanos :: u64
  rp_factors :: "(RouteFactor \<times> double_bits) list"

definition default_RoutePolicy :: RoutePolicy where
  "default_RoutePolicy = \<lparr>rp_id = MkStringId [], rp_requireSufficientsSwitches = True,
     rp_requireSufficientsPorts = True, rp_requireNonDegradedPath = False,
     rp_insidePartition = True, rp_maxAllowedSwitches = ucast kMaxSwitches,
     rp_maxAllowedHops = ucast kMaxPathDepth, rp_requiredMinRelativeBandwidth = 0,
     rp_preferRedundantPath = False, rp_requireFreshEvidence = True, rp_maxStalenessNanos = 0,
     rp_factors = [(RouteFactor.FEWER_SWITCHES, double_bits_one),
       (RouteFactor.FEWER_HOPS, double_bits_one), (RouteFactor.DIRECTNESS, double_bits_one),
       (RouteFactor.DEGRADATION, double_bits_one),
       (RouteFactor.CONGESTION_EVIDENCE, double_bits_one)]\<rparr>"

record RejectedCandidate =
  rc_canonicalKey :: string
  rc_reason :: string
  rc_outcome :: RouteOutcome

record RouteDecision =
  rd_id :: RouteDecisionId
  rd_gen :: RouteGeneration
  rd_source :: DeviceId
  rd_destination :: DeviceId
  rd_sourceKnown :: bool
  rd_destinationKnown :: bool
  rd_fabricGen :: FabricGeneration
  rd_topologyGen :: TopologyGeneration
  rd_partitionGen :: PartitionGeneration
  rd_partition :: PartitionId
  rd_partitionKnown :: bool
  rd_outcome :: RouteOutcome
  rd_outcomeReason :: string
  rd_authoritative :: bool
  rd_candidatePaths :: "FabricPath list"
  rd_rejected :: "RejectedCandidate list"
  rd_selected :: "FabricPath option"
  rd_policy :: PolicyId
  rd_policySnapshot :: RoutePolicy
  rd_factorScores :: "(RouteFactor \<times> rat) list"
  rd_explanation :: string
  rd_snapshotId :: TopologySnapshotId
  rd_observation :: ObservationId
  rd_observationKnown :: bool
  rd_worker :: WorkerId
  rd_workerKnown :: bool
  rd_workerBoot :: WorkerBootId
  rd_epoch :: CoordinatorEpoch
  rd_createdAtNanos :: u64

section \<open>State predicates\<close>

definition currentState :: "EntityState \<Rightarrow> bool" where
  "currentState s = (case s of
     EntityState.UP \<Rightarrow> True
   | EntityState.DEGRADED \<Rightarrow> True
   | EntityState.PRESENT \<Rightarrow> True
   | EntityState.SUPPORTED \<Rightarrow> True
   | _ \<Rightarrow> False)"

definition usableState :: "EntityState \<Rightarrow> bool" where
  "usableState s \<longleftrightarrow> s = EntityState.UP \<or> s = EntityState.DEGRADED"

section \<open>Measurements and ranking factors\<close>

record BestMeasurement =
  bm_bestThroughput :: rat
  bm_bestLatencyUs :: rat
  bm_has :: bool

definition best_step :: "DeviceId \<Rightarrow> DeviceId \<Rightarrow> Measurement \<Rightarrow> BestMeasurement \<Rightarrow> BestMeasurement" where
  "best_step src dst m b =
     (if \<not> me_sourceKnown m \<or> \<not> me_destinationKnown m then b
      else if me_source m \<noteq> src \<or> me_destination m \<noteq> dst then b
      else if \<not> me_matched m then b
      else if me_kind m = MeasurementKind.UNSUPPORTED then b
      else \<lparr>bm_bestThroughput =
              (if bytesPerSec m > bm_bestThroughput b then bytesPerSec m else bm_bestThroughput b),
            bm_bestLatencyUs =
              (if latencyUsPerOp m < bm_bestLatencyUs b then latencyUsPerOp m else bm_bestLatencyUs b),
            bm_has = True\<rparr>)"

definition bestFor :: "Measurement list option \<Rightarrow> DeviceId \<Rightarrow> DeviceId \<Rightarrow> BestMeasurement" where
  "bestFor measurements src dst =
     fold (best_step src dst) (case measurements of None \<Rightarrow> [] | Some ms \<Rightarrow> ms)
       \<lparr>bm_bestThroughput = 0, bm_bestLatencyUs = double_max, bm_has = False\<rparr>"

definition factorValue ::
    "RouteFactor \<Rightarrow> FabricPath \<Rightarrow> FabricTopology \<Rightarrow> BestMeasurement \<Rightarrow> rat" where
  "factorValue f p t meas = (case f of
     RouteFactor.FEWER_SWITCHES \<Rightarrow> of_nat (length (fp_hops p))
   | RouteFactor.FEWER_HOPS \<Rightarrow> of_nat (length (fp_hops p))
   | RouteFactor.DIRECTNESS \<Rightarrow> (if fp_hops p = [] then 0 else of_nat (length (fp_hops p)))
   | RouteFactor.REDUNDANCY \<Rightarrow> - of_nat (length (fp_hops p))
   | RouteFactor.MEASURED_THROUGHPUT \<Rightarrow>
       (if \<not> bm_has meas \<or> bm_bestThroughput meas \<le> 0 then double_max
        else - bm_bestThroughput meas)
   | RouteFactor.MEASURED_LATENCY \<Rightarrow>
       (if \<not> bm_has meas \<or> bm_bestLatencyUs meas \<ge> double_max then double_max
        else bm_bestLatencyUs meas)
   | RouteFactor.ACTIVE_LINK_COUNT \<Rightarrow>
       - sum_list (map (\<lambda>i. case lookupLink t i of
             Some l \<Rightarrow> if li_state l = EntityState.UP then 1 else 1/2 | None \<Rightarrow> 0) (fp_links p))
   | RouteFactor.DEGRADATION \<Rightarrow> (if fp_state p = EntityState.DEGRADED then 1 else 0)
   | RouteFactor.CONGESTION_EVIDENCE \<Rightarrow>
       sum_list (map (\<lambda>i. case lookupLink t i of
             Some l \<Rightarrow> if li_degraded l then 1 else 0 | None \<Rightarrow> 0) (fp_links p))
   | RouteFactor.FRESHNESS \<Rightarrow> 0
   | RouteFactor.CONFIDENCE \<Rightarrow> 0
   | RouteFactor.FAILURE_DOMAIN_DIVERSITY \<Rightarrow> of_nat (length (fp_hops p))
   | RouteFactor.POLICY_PREFERENCE \<Rightarrow> 0
   | RouteFactor.OTHER _ \<Rightarrow> 0)"

fun routeLess ::
    "FabricTopology \<Rightarrow> BestMeasurement \<Rightarrow> (RouteFactor \<times> double_bits) list \<Rightarrow>
     FabricPath \<Rightarrow> FabricPath \<Rightarrow> bool" where
  "routeLess t meas [] a b = (canonicalKey a < canonicalKey b)"
| "routeLess t meas ((fac, w) # fs) a b =
     (let va = factorValue fac a t meas; vb = factorValue fac b t meas
      in if va < vb then True else if vb < va then False else routeLess t meas fs a b)"

section \<open>Computing a route\<close>

subsection \<open>Partition gating\<close>

text \<open>The last partition in key order that is not stale and contains both endpoints.\<close>

definition commonPartition ::
    "FabricTopology \<Rightarrow> DeviceId \<Rightarrow> DeviceId \<Rightarrow> FabricPartition option" where
  "commonPartition t src dst =
     fold (\<lambda>p acc. if partition_stale (pa_state p) then acc
                   else if src \<in> set (pa_members p) \<and> dst \<in> set (pa_members p) then Some p
                   else acc)
       (om_values (t_partitions t)) None"

definition anyActivePartition :: "FabricTopology \<Rightarrow> bool" where
  "anyActivePartition t \<longleftrightarrow>
     list_ex (\<lambda>p. \<not> partition_stale (pa_state p)) (om_values (t_partitions t))"

definition anyStalePartition :: "FabricTopology \<Rightarrow> bool" where
  "anyStalePartition t \<longleftrightarrow>
     list_ex (\<lambda>p. pa_state p = PartitionState.STALE) (om_values (t_partitions t))"

subsection \<open>Candidate filters\<close>

definition switches_current :: "FabricTopology \<Rightarrow> FabricPath \<Rightarrow> bool" where
  "switches_current t p \<longleftrightarrow>
     list_all (\<lambda>s. case lookupSwitch t s of None \<Rightarrow> False | Some r \<Rightarrow> currentState (sw_state r))
       (fp_switchSequence p)"

definition port_current :: "FabricTopology \<Rightarrow> PortId \<Rightarrow> bool" where
  "port_current t q =
     (case lookupPort t q of None \<Rightarrow> False | Some r \<Rightarrow> \<not> entity_stale (po_state r))"

definition ports_current :: "FabricTopology \<Rightarrow> FabricPath \<Rightarrow> bool" where
  "ports_current t p \<longleftrightarrow>
     list_all (\<lambda>h. (port_isUnknown (hop_inPort h) \<or> port_current t (hop_inPort h)) \<and>
                   port_current t (hop_outPort h)) (fp_hops p)"

definition links_current :: "FabricTopology \<Rightarrow> FabricPath \<Rightarrow> bool" where
  "links_current t p \<longleftrightarrow>
     list_all (\<lambda>i. case lookupLink t i of None \<Rightarrow> False | Some l \<Rightarrow> \<not> entity_stale (li_state l))
       (fp_links p)"

definition path_eligible :: "FabricTopology \<Rightarrow> RoutePolicy \<Rightarrow> FabricPath \<Rightarrow> bool" where
  "path_eligible t policy p \<longleftrightarrow>
     switches_current t p \<and> ports_current t p \<and> links_current t p \<and>
     \<not> (rp_requireNonDegradedPath policy \<and> fp_state p = EntityState.DEGRADED) \<and>
     \<not> (double_bits_positive (rp_requiredMinRelativeBandwidth policy) \<and>
        fp_state p = EntityState.DEGRADED)"

text \<open>The generations captured into an eligible path.\<close>

definition captured_switchGens :: "FabricTopology \<Rightarrow> FabricPath \<Rightarrow> (SwitchId \<times> SwitchGeneration) list" where
  "captured_switchGens t p =
     concat (map (\<lambda>s. case lookupSwitch t s of None \<Rightarrow> [] | Some r \<Rightarrow> [(s, sw_gen r)])
       (fp_switchSequence p))"

definition captured_portGens :: "FabricTopology \<Rightarrow> FabricPath \<Rightarrow> (PortId \<times> PortGeneration) list" where
  "captured_portGens t p =
     concat (map (\<lambda>h.
         (if port_isUnknown (hop_inPort h) then []
          else case lookupPort t (hop_inPort h) of None \<Rightarrow> [] | Some r \<Rightarrow> [(hop_inPort h, po_gen r)])
         @ (case lookupPort t (hop_outPort h) of None \<Rightarrow> [] | Some r \<Rightarrow> [(hop_outPort h, po_gen r)]))
       (fp_hops p))"

definition min_gen :: "'tag Gen list \<Rightarrow> 'tag Gen \<Rightarrow> 'tag Gen" where
  "min_gen gs dflt =
     (if gs = [] then dflt else MkGen (fold (\<lambda>g m. min m (gen_get g)) gs 0xFFFFFFFFFFFFFFFF))"

definition annotate :: "FabricTopology \<Rightarrow> FabricPath \<Rightarrow> FabricPath" where
  "annotate t p =
     p\<lparr>fp_capable := True,
       fp_switchGens := captured_switchGens t p,
       fp_portGens := captured_portGens t p,
       fp_switchGen := min_gen (map snd (captured_switchGens t p)) (fp_switchGen p),
       fp_portGen := min_gen (map snd (captured_portGens t p)) (fp_portGen p)\<rparr>"

definition eligible_paths ::
    "FabricTopology \<Rightarrow> RoutePolicy \<Rightarrow> FabricPath list \<Rightarrow> FabricPath list" where
  "eligible_paths t policy raw = map (annotate t) (filter (path_eligible t policy) raw)"

subsection \<open>The decision\<close>

definition route_config :: "RoutePolicy \<Rightarrow> TraversalConfig" where
  "route_config policy = default_TraversalConfig\<lparr>
     tc_maxPaths := ucast (min (rp_maxAllowedHops policy + 1) (ucast kMaxCandidatePaths :: u64)),
     tc_maxDepth := ucast (min (rp_maxAllowedHops policy) (ucast kMaxPathDepth :: u64)),
     tc_allowSwitchSwitching := True\<rparr>"

definition refuse :: "RouteDecision \<Rightarrow> RouteOutcome \<Rightarrow> string \<Rightarrow> RouteDecision" where
  "refuse d outcome reason = d\<lparr>rd_outcome := outcome, rd_outcomeReason := reason\<rparr>"

definition refuse_unreachable :: "RouteDecision \<Rightarrow> Reachability \<Rightarrow> RouteDecision" where
  "refuse_unreachable d rr = (case rr of
     Reachability.PARTITION_BLOCKED \<Rightarrow> refuse d RouteOutcome.PARTITION_BLOCKED ''partition blocked''
   | Reachability.SWITCH_DOWN \<Rightarrow> refuse d RouteOutcome.SWITCH_DOWN ''switch down''
   | Reachability.PORT_DOWN \<Rightarrow> refuse d RouteOutcome.PORT_DOWN ''port down''
   | Reachability.REVALIDATION_REQUIRED \<Rightarrow>
       refuse d RouteOutcome.REVALIDATION_REQUIRED ''revalidation required''
   | Reachability.TOPOLOGY_STALE \<Rightarrow> refuse d RouteOutcome.STALE_TOPOLOGY ''stale topology''
   | Reachability.ENDPOINT_STALE \<Rightarrow> refuse d RouteOutcome.REVALIDATION_REQUIRED ''endpoint stale''
   | Reachability.UNSUPPORTED \<Rightarrow> refuse d RouteOutcome.UNSUPPORTED ''unsupported''
   | Reachability.INSUFFICIENT_EVIDENCE \<Rightarrow>
       refuse d RouteOutcome.INSUFFICIENT_EVIDENCE ''insufficient evidence''
   | _ \<Rightarrow> refuse d RouteOutcome.NO_ROUTE ''no path'')"

definition select_route ::
    "FabricTopology \<Rightarrow> RoutePolicy \<Rightarrow> BestMeasurement \<Rightarrow> FabricPath list \<Rightarrow> RouteDecision \<Rightarrow>
     RouteDecision" where
  "select_route t policy meas eligible d =
     (case stable_sort (routeLess t meas (rp_factors policy)) eligible of
        [] \<Rightarrow>
          refuse d
            (if list_ex (\<lambda>r. entity_stale (sw_state r)) (om_values (t_switches t))
             then RouteOutcome.STALE_SWITCH else RouteOutcome.NO_ROUTE)
            ''no eligible path''
      | best # rest \<Rightarrow>
          d\<lparr>rd_candidatePaths := best # rest,
            rd_selected := Some best,
            rd_factorScores :=
              map (\<lambda>fw. (fst fw, factorValue (fst fw) best t meas)) (rp_factors policy),
            rd_outcome := (if fp_state best = EntityState.DEGRADED
                           then RouteOutcome.ROUTE_ALLOWED_DEGRADED else RouteOutcome.ROUTE_ALLOWED),
            rd_authoritative := True,
            rd_explanation := ''selected '' @ canonicalKey best @ '' after applying ''
              @ nat_to_string (length (rp_factors policy)) @ '' named factors''\<rparr>)"

definition route_over_paths ::
    "FabricTopology \<Rightarrow> DeviceId \<Rightarrow> DeviceId \<Rightarrow> RoutePolicy \<Rightarrow> Measurement list option \<Rightarrow>
     RouteDecision \<Rightarrow> RouteDecision" where
  "route_over_paths t src dst policy measurements d =
     (let raw = enumeratePaths t src dst (route_config policy)
      in if raw = [] then refuse_unreachable d (deviceReachability t src dst)
         else select_route t policy (bestFor measurements src dst)
                (eligible_paths t policy raw) d)"

definition initial_decision ::
    "FabricTopology \<Rightarrow> DeviceId \<Rightarrow> DeviceId \<Rightarrow> RoutePolicy \<Rightarrow> RouteDecisionId \<Rightarrow> RouteGeneration \<Rightarrow>
     TopologySnapshotId \<Rightarrow> u64 \<Rightarrow> CoordinatorEpoch \<Rightarrow> RouteDecision" where
  "initial_decision t src dst policy i g snapshotId now epoch = \<lparr>
     rd_id = i, rd_gen = g, rd_source = src, rd_destination = dst, rd_sourceKnown = True,
     rd_destinationKnown = True, rd_fabricGen = t_fabricGen t, rd_topologyGen = t_topologyGen t,
     rd_partitionGen = MkGen 0, rd_partition = MkStringId [], rd_partitionKnown = False,
     rd_outcome = RouteOutcome.NO_ROUTE, rd_outcomeReason = [], rd_authoritative = False,
     rd_candidatePaths = [], rd_rejected = [], rd_selected = None, rd_policy = rp_id policy,
     rd_policySnapshot = policy, rd_factorScores = [], rd_explanation = [],
     rd_snapshotId = snapshotId, rd_observation = MkId 0, rd_observationKnown = False,
     rd_worker = MkStringId [], rd_workerKnown = False, rd_workerBoot = 0, rd_epoch = epoch,
     rd_createdAtNanos = now\<rparr>"

definition computeRoute ::
    "FabricTopology \<Rightarrow> DeviceId \<Rightarrow> DeviceId \<Rightarrow> RoutePolicy \<Rightarrow> Measurement list option \<Rightarrow>
     RouteDecisionId \<Rightarrow> RouteGeneration \<Rightarrow> TopologySnapshotId \<Rightarrow> u64 \<Rightarrow> CoordinatorEpoch \<Rightarrow>
     RouteDecision Result" where
  "computeRoute t src dst policy measurements i g snapshotId now epoch =
     (let d = initial_decision t src dst policy i g snapshotId now epoch in
      Inr (case (lookupDevice t src, lookupDevice t dst) of
        (Some s, Some dd) \<Rightarrow>
          if \<not> dev_present s \<or> \<not> dev_present dd
          then refuse d RouteOutcome.NO_ROUTE ''endpoint absent''
          else if src = dst then refuse d RouteOutcome.NO_ROUTE ''same endpoint''
          else if \<not> currentState (dev_state s)
          then refuse d RouteOutcome.REVALIDATION_REQUIRED ''source not current''
          else if \<not> currentState (dev_state dd)
          then refuse d RouteOutcome.REVALIDATION_REQUIRED ''destination not current''
          else if dev_state s = EntityState.UNSUPPORTED \<or> dev_state dd = EntityState.UNSUPPORTED
          then refuse d RouteOutcome.UNSUPPORTED ''endpoint unsupported''
          else (case commonPartition t src dst of
            None \<Rightarrow>
              if anyActivePartition t \<and> rp_insidePartition policy
              then refuse d (if anyStalePartition t then RouteOutcome.STALE_PARTITION
                             else RouteOutcome.PARTITION_BLOCKED)
                     ''no active partition contains both endpoints''
              else route_over_paths t src dst policy measurements d
          | Some part \<Rightarrow>
              route_over_paths t src dst policy measurements
                (d\<lparr>rd_partition := pa_id part, rd_partitionKnown := True,
                   rd_partitionGen := pa_gen part\<rparr>))
      | _ \<Rightarrow> refuse d RouteOutcome.NO_ROUTE ''source or destination not in topology''))"

section \<open>Re-checking a decision\<close>

definition switch_unchanged :: "FabricTopology \<Rightarrow> SwitchId \<times> SwitchGeneration \<Rightarrow> bool" where
  "switch_unchanged t x =
     (case lookupSwitch t (fst x) of
        None \<Rightarrow> False
      | Some r \<Rightarrow> usableState (sw_state r) \<and> gen_get (sw_gen r) = gen_get (snd x))"

definition port_unchanged :: "FabricTopology \<Rightarrow> PortId \<times> PortGeneration \<Rightarrow> bool" where
  "port_unchanged t x =
     (case lookupPort t (fst x) of
        None \<Rightarrow> False
      | Some r \<Rightarrow> usableState (po_state r) \<and> gen_get (po_gen r) = gen_get (snd x))"

definition endpoint_current :: "FabricTopology \<Rightarrow> DeviceId \<Rightarrow> bool" where
  "endpoint_current t i =
     (case lookupDevice t i of
        None \<Rightarrow> False
      | Some r \<Rightarrow> usableState (dev_state r) \<or> dev_state r = EntityState.PRESENT)"

definition partition_unchanged :: "FabricTopology \<Rightarrow> PartitionId \<Rightarrow> PartitionGeneration \<Rightarrow> bool" where
  "partition_unchanged t i g =
     (case lookupPartition t i of
        None \<Rightarrow> False
      | Some p \<Rightarrow> \<not> partition_stale (pa_state p) \<and> gen_get (pa_gen p) = gen_get g)"

definition outcome_allowed :: "RouteOutcome \<Rightarrow> bool" where
  "outcome_allowed out \<longleftrightarrow>
     out = RouteOutcome.ROUTE_ALLOWED \<or> out = RouteOutcome.ROUTE_ALLOWED_DEGRADED"

definition routeDecisionStillAuthoritative :: "RouteDecision \<Rightarrow> FabricTopology \<Rightarrow> bool" where
  "routeDecisionStillAuthoritative d t =
     (if \<not> outcome_allowed (rd_outcome d) then False
      else if rd_epoch d \<noteq> t_epoch t then False
      else if \<not> endpoint_current t (rd_source d) then False
      else if \<not> endpoint_current t (rd_destination d) then False
      else if rd_partitionKnown d
              \<and> \<not> partition_unchanged t (rd_partition d) (rd_partitionGen d) then False
      else (case rd_selected d of
              None \<Rightarrow> True
            | Some p \<Rightarrow> list_all (switch_unchanged t) (fp_switchGens p)
                      \<and> list_all (port_unchanged t) (fp_portGens p)))"

end
