(* ===== verification/Fabric_Registry.thy ===== *)
theory Fabric_Registry
  imports Fabric_Route Fabric_Synthetic
begin

text \<open>
  The fabric registry (\<open>fabric_registry.h\<close>, \<open>fabric_registry.cpp\<close>): its state, the
  validation of a candidate snapshot, every mutation, the route query and the backend
  calls.

  Each C++ mutation copies the current snapshot, edits the copy (or returns an error
  early), validates it, stamps it and publishes it, all under the exclusive lock. Here an
  operation \<open>f\<close> is \<open>transact f_edit\<close>: the edit is a function on topologies that may fail,
  and \<open>transact\<close> is the shared tail of the C++ methods. The clock is an argument. A
  snapshot is an immutable value, as the shared pointer to a const topology is.
\<close>

section \<open>State\<close>

text \<open>A bound backend: what its virtual calls return at the moment.\<close>

record Backend =
  bk_capabilities :: BackendCapabilities
  bk_scan :: "Scan Result"

record FabricRegistry =
  r_current :: FabricTopology
  r_measurements :: "Measurement list"
  r_decisionLog :: "RouteDecision list"
  r_nextSnapshotId :: u64
  r_nextDecisionId :: u64
  r_nextObservationId :: u64
  r_nextMeasurementId :: u64
  r_epoch :: CoordinatorEpoch
  r_version :: u64
  r_lastSnapshotNanos :: u64
  r_backend :: "Backend option"

definition FabricRegistry_new :: FabricRegistry where
  "FabricRegistry_new = \<lparr>
     r_current = default_FabricTopology\<lparr>t_id := 1, t_label := ''initial''\<rparr>,
     r_measurements = [], r_decisionLog = [], r_nextSnapshotId = 2, r_nextDecisionId = 1,
     r_nextObservationId = 1, r_nextMeasurementId = 1, r_epoch = 0, r_version = 0,
     r_lastSnapshotNanos = 0, r_backend = None\<rparr>"

definition snapshot :: "FabricRegistry \<Rightarrow> FabricTopology" where
  "snapshot r = r_current r"

definition setEpoch :: "CoordinatorEpoch \<Rightarrow> FabricRegistry \<Rightarrow> FabricRegistry" where
  "setEpoch e r = r\<lparr>r_epoch := e\<rparr>"

section \<open>Validation and publication\<close>

definition all_provenances :: "FabricTopology \<Rightarrow> Provenance list" where
  "all_provenances t =
     map dev_provenance (om_values (t_devices t)) @ map sw_provenance (om_values (t_switches t))
     @ map po_provenance (om_values (t_ports t)) @ map li_provenance (om_values (t_links t))
     @ map pa_provenance (om_values (t_partitions t))"

definition summary_provenance :: "FabricTopology \<Rightarrow> Provenance" where
  "summary_provenance t =
     (if Provenance.SYNTHETIC \<in> set (all_provenances t) then Provenance.SYNTHETIC
      else if Provenance.REAL \<in> set (all_provenances t) then Provenance.REAL
      else Provenance.UNSUPPORTED)"

definition finalizeProvenance :: "FabricTopology \<Rightarrow> FabricTopology" where
  "finalizeProvenance t = t\<lparr>t_provenance := summary_provenance t\<rparr>"

text \<open>Whether some entry has a smaller generation than the entry it replaces.\<close>

definition gen_decreased ::
    "('v \<Rightarrow> 'tag Gen) \<Rightarrow> ('k, 'v) omap \<Rightarrow> ('k, 'v) omap \<Rightarrow> bool" where
  "gen_decreased gen old new \<longleftrightarrow>
     list_ex (\<lambda>x. case om_find old (fst x) of
                    None \<Rightarrow> False | Some v \<Rightarrow> gen_get (gen (snd x)) < gen_get (gen v)) new"

definition candidate_problem :: "FabricTopology \<Rightarrow> FabricTopology \<Rightarrow> string option" where
  "candidate_problem old cand =
     (if checkIntegrity cand \<noteq> [] then Some (hd (checkIntegrity cand))
      else if length (t_devices cand) > unat kMaxDevices then Some ''too many devices''
      else if length (t_switches cand) > unat kMaxSwitches then Some ''too many switches''
      else if length (t_ports cand) > unat kMaxPorts then Some ''too many ports''
      else if length (t_links cand) > unat kMaxLinks then Some ''too many links''
      else if length (t_partitions cand) > unat kMaxPartitions then Some ''too many partitions''
      else if gen_decreased sw_gen (t_switches old) (t_switches cand)
      then Some ''switch generation decreased''
      else if gen_decreased po_gen (t_ports old) (t_ports cand)
      then Some ''port generation decreased''
      else if gen_decreased li_gen (t_links old) (t_links cand)
      then Some ''link generation decreased''
      else if gen_decreased pa_gen (t_partitions old) (t_partitions cand)
      then Some ''partition generation decreased''
      else if gen_get (t_topologyGen cand) < gen_get (t_topologyGen old)
      then Some ''topology generation decreased''
      else None)"

text \<open>\<open>Inl why\<close> when the candidate is rejected, else the candidate with its provenance set.\<close>

definition validateCandidate :: "FabricTopology \<Rightarrow> FabricTopology \<Rightarrow> string + FabricTopology" where
  "validateCandidate old cand =
     (let c = finalizeProvenance cand
      in case candidate_problem old c of Some why \<Rightarrow> Inl why | None \<Rightarrow> Inr c)"

definition commit :: "string \<Rightarrow> u64 \<Rightarrow> FabricTopology \<Rightarrow> FabricRegistry \<Rightarrow>
    FabricTopology Result \<times> FabricRegistry" where
  "commit pfx now cand r =
     (case validateCandidate (r_current r) cand of
        Inl why \<Rightarrow> (Inl (err ErrorCode.INVALID_TOPOLOGY (pfx @ why)), r)
      | Inr c \<Rightarrow>
          (let t = c\<lparr>t_id := r_nextSnapshotId r, t_epoch := r_epoch r\<rparr>
           in (Inr t, r\<lparr>r_current := t, r_nextSnapshotId := r_nextSnapshotId r + 1,
                        r_version := r_version r + 1, r_lastSnapshotNanos := now\<rparr>)))"

type_synonym edit = "FabricTopology \<Rightarrow> FabricTopology Result"

definition transact_with :: "string \<Rightarrow> edit \<Rightarrow> u64 \<Rightarrow> FabricRegistry \<Rightarrow>
    FabricTopology Result \<times> FabricRegistry" where
  "transact_with pfx edit now r =
     (case edit (r_current r) of Inl e \<Rightarrow> (Inl e, r) | Inr cand \<Rightarrow> commit pfx now cand r)"

abbreviation transact :: "edit \<Rightarrow> u64 \<Rightarrow> FabricRegistry \<Rightarrow> FabricTopology Result \<times> FabricRegistry" where
  "transact \<equiv> transact_with []"

definition bump :: "FabricTopology \<Rightarrow> FabricTopology" where
  "bump t = t\<lparr>t_topologyGen := gen_next (t_topologyGen t)\<rparr>"

section \<open>Devices and switches\<close>

definition addDevice_edit :: "DeviceRecord \<Rightarrow> edit" where
  "addDevice_edit rec t =
     (if om_count (t_devices t) (dev_id rec) then Inl (err ErrorCode.ALREADY_EXISTS ''device exists'')
      else if length (t_devices t) \<ge> unat kMaxDevices
      then Inl (err ErrorCode.RESOURCE_LIMIT ''max devices'')
      else Inr (bump (t\<lparr>t_devices := om_insert (dev_id rec) rec (t_devices t)\<rparr>)))"

definition link_to_device :: "DeviceId \<Rightarrow> LinkRecord \<Rightarrow> bool" where
  "link_to_device i l \<longleftrightarrow> le_kind (li_otherEnd l) = KDevice \<and> le_device (li_otherEnd l) = i"

definition removeDevice_edit :: "DeviceId \<Rightarrow> edit" where
  "removeDevice_edit i t =
     (if \<not> om_count (t_devices t) i then Inl (err ErrorCode.NOT_FOUND ''device not found'')
      else Inr (bump (t\<lparr>t_devices := om_erase i (t_devices t),
                        t_links := om_erase_if (link_to_device i) (t_links t)\<rparr>)))"

definition addSwitch_edit :: "SwitchRecord \<Rightarrow> edit" where
  "addSwitch_edit rec t =
     (if om_count (t_switches t) (sw_id rec) then Inl (err ErrorCode.ALREADY_EXISTS ''switch exists'')
      else if length (t_switches t) \<ge> unat kMaxSwitches
      then Inl (err ErrorCode.RESOURCE_LIMIT ''max switches'')
      else Inr (bump (t\<lparr>t_switches := om_insert (sw_id rec) rec (t_switches t)\<rparr>)))"

definition link_touches_switch :: "SwitchId \<Rightarrow> LinkRecord \<Rightarrow> bool" where
  "link_touches_switch i l \<longleftrightarrow>
     li_rootSwitch l = i \<or> le_kind (li_otherEnd l) = KSwitch \<and> le_sw (li_otherEnd l) = i"

definition removeSwitch_edit :: "SwitchId \<Rightarrow> edit" where
  "removeSwitch_edit i t =
     (if \<not> om_count (t_switches t) i then Inl (err ErrorCode.NOT_FOUND ''switch not found'')
      else Inr (bump (t\<lparr>t_switches := om_erase i (t_switches t),
                        t_ports := om_erase_keys (\<lambda>p. port_sw p = i) (t_ports t),
                        t_links := om_erase_if (link_touches_switch i) (t_links t)\<rparr>)))"

definition switch_failing :: "EntityState \<Rightarrow> bool" where
  "switch_failing s \<longleftrightarrow>
     s = EntityState.DOWN \<or> s = EntityState.UNREACHABLE \<or> s = EntityState.STALE \<or>
     s = EntityState.REVALIDATION_REQUIRED \<or> s = EntityState.ABSENT"

definition setSwitchState_edit :: "SwitchId \<Rightarrow> EntityState \<Rightarrow> edit" where
  "setSwitchState_edit i state t =
     (if \<not> om_count (t_switches t) i then Inl (err ErrorCode.NOT_FOUND ''switch not found'')
      else Inr (bump (t\<lparr>t_switches := om_update i (\<lambda>r.
             r\<lparr>sw_gen := (if switch_failing state then gen_next (sw_gen r) else sw_gen r),
               sw_state := state\<rparr>) (t_switches t)\<rparr>)))"

definition restartSwitch_edit :: "SwitchId \<Rightarrow> SwitchGeneration \<Rightarrow> edit" where
  "restartSwitch_edit i newGen t =
     (case om_find (t_switches t) i of
        None \<Rightarrow> Inl (err ErrorCode.NOT_FOUND ''switch not found'')
      | Some r \<Rightarrow>
          if gen_get newGen < gen_get (sw_gen r)
          then Inl (err ErrorCode.STALE_GENERATION ''new gen < current'')
          else Inr (bump (t\<lparr>t_switches := om_update i (\<lambda>r.
                 r\<lparr>sw_gen := newGen, sw_state := EntityState.REVALIDATION_REQUIRED\<rparr>)
                 (t_switches t)\<rparr>)))"

section \<open>Ports and links\<close>

definition addPort_edit :: "SwitchPortRecord \<Rightarrow> edit" where
  "addPort_edit rec t =
     (let i = po_id rec in
      if \<not> om_count (t_switches t) (port_sw i)
      then Inl (err ErrorCode.INVALID_ARGUMENT ''port switch missing'')
      else if om_count (t_ports t) i then Inl (err ErrorCode.ALREADY_EXISTS ''port exists'')
      else if length (t_ports t) \<ge> unat kMaxPorts
      then Inl (err ErrorCode.RESOURCE_LIMIT ''max ports'')
      else if port_index i \<ge> kMaxPortsPerSwitch
      then Inl (err ErrorCode.INVALID_ARGUMENT ''port index bound'')
      else Inr (bump (t\<lparr>t_switches := om_update (port_sw i) (\<lambda>s.
               if port_index i \<ge> sw_portCount s then s\<lparr>sw_portCount := port_index i + 1\<rparr> else s)
               (t_switches t),
             t_ports := om_insert i rec (t_ports t)\<rparr>)))"

definition removePort_edit :: "PortId \<Rightarrow> edit" where
  "removePort_edit i t =
     (if \<not> om_count (t_ports t) i then Inl (err ErrorCode.NOT_FOUND ''port not found'')
      else Inr (bump (t\<lparr>t_ports := om_erase i (t_ports t),
                        t_links := om_erase_if (\<lambda>l. li_port l = i) (t_links t)\<rparr>)))"

definition port_failing :: "EntityState \<Rightarrow> bool" where
  "port_failing s \<longleftrightarrow>
     s = EntityState.DOWN \<or> s = EntityState.UNREACHABLE \<or> s = EntityState.STALE \<or>
     s = EntityState.REVALIDATION_REQUIRED \<or> s = EntityState.DISABLED \<or> s = EntityState.ABSENT"

definition setPortState_edit :: "PortId \<Rightarrow> EntityState \<Rightarrow> edit" where
  "setPortState_edit i state t =
     (if \<not> om_count (t_ports t) i then Inl (err ErrorCode.NOT_FOUND ''port not found'')
      else Inr (bump (t\<lparr>t_ports := om_update i (\<lambda>r.
             r\<lparr>po_gen := (if port_failing state then gen_next (po_gen r) else po_gen r),
               po_state := state\<rparr>) (t_ports t)\<rparr>)))"

definition addLink_edit :: "LinkRecord \<Rightarrow> edit" where
  "addLink_edit rec t =
     (if \<not> om_count (t_switches t) (li_rootSwitch rec)
      then Inl (err ErrorCode.INVALID_ARGUMENT ''link root switch missing'')
      else if \<not> om_count (t_ports t) (li_port rec)
      then Inl (err ErrorCode.INVALID_ARGUMENT ''link port missing'')
      else if port_sw (li_port rec) \<noteq> li_rootSwitch rec
      then Inl (err ErrorCode.INVALID_ARGUMENT ''link port sw != root'')
      else if le_kind (li_otherEnd rec) = KDevice
              \<and> \<not> om_count (t_devices t) (le_device (li_otherEnd rec))
      then Inl (err ErrorCode.INVALID_ARGUMENT ''link device missing'')
      else if le_kind (li_otherEnd rec) = KSwitch
              \<and> \<not> om_count (t_switches t) (le_sw (li_otherEnd rec))
      then Inl (err ErrorCode.INVALID_ARGUMENT ''link switch missing'')
      else if om_count (t_links t) (li_id rec)
      then Inl (err ErrorCode.ALREADY_EXISTS ''link exists'')
      else if length (t_links t) \<ge> unat kMaxLinks
      then Inl (err ErrorCode.RESOURCE_LIMIT ''max links'')
      else Inr (bump (t\<lparr>t_links := om_insert (li_id rec) rec (t_links t)\<rparr>)))"

definition removeLink_edit :: "LinkId \<Rightarrow> edit" where
  "removeLink_edit i t =
     (if \<not> om_count (t_links t) i then Inl (err ErrorCode.NOT_FOUND ''link not found'')
      else Inr (bump (t\<lparr>t_links := om_erase i (t_links t)\<rparr>)))"

definition link_failing :: "EntityState \<Rightarrow> bool" where
  "link_failing s \<longleftrightarrow>
     s = EntityState.DOWN \<or> s = EntityState.STALE \<or> s = EntityState.REVALIDATION_REQUIRED \<or>
     s = EntityState.UNREACHABLE"

definition setLinkState_edit :: "LinkId \<Rightarrow> EntityState \<Rightarrow> bool \<Rightarrow> edit" where
  "setLinkState_edit i state degraded t =
     (if \<not> om_count (t_links t) i then Inl (err ErrorCode.NOT_FOUND ''link not found'')
      else Inr (bump (t\<lparr>t_links := om_update i (\<lambda>r.
             r\<lparr>li_gen := (if link_failing state then gen_next (li_gen r) else li_gen r),
               li_state := state, li_degraded := degraded\<rparr>) (t_links t)\<rparr>)))"

section \<open>Partitions\<close>

definition partition_changed :: "FabricPartition \<Rightarrow> FabricPartition \<Rightarrow> bool" where
  "partition_changed existing part \<longleftrightarrow>
     sort (pa_members existing) \<noteq> sort (pa_members part) \<or>
     pa_fabric existing \<noteq> pa_fabric part \<or> pa_state existing \<noteq> pa_state part"

definition staged_partition :: "FabricPartition option \<Rightarrow> FabricPartition \<Rightarrow> FabricPartition" where
  "staged_partition old part =
     (case old of
        None \<Rightarrow> if gen_get (pa_gen part) = 0 then part\<lparr>pa_gen := MkGen 1\<rparr> else part
      | Some existing \<Rightarrow>
          let m = max (gen_get (pa_gen existing)) (gen_get (pa_gen part)) in
          if partition_changed existing part then part\<lparr>pa_gen := MkGen (m + 1)\<rparr>
          else part\<lparr>pa_gen := MkGen m\<rparr>)"

definition publishPartition_edit :: "FabricPartition \<Rightarrow> edit" where
  "publishPartition_edit part t =
     (let old = om_find (t_partitions t) (pa_id part) in
      if old = None \<and> length (t_partitions t) \<ge> unat kMaxPartitions
      then Inl (err ErrorCode.RESOURCE_LIMIT ''max partitions'')
      else let p = staged_partition old part in
        if list_ex (\<lambda>m. \<not> om_count (t_devices t) m) (pa_members p)
        then Inl (err ErrorCode.INVALID_PARTITION ''partition member device missing'')
        else if list_ex (\<lambda>s. \<not> om_count (t_switches t) s) (pa_switches p)
        then Inl (err ErrorCode.INVALID_PARTITION ''partition member switch missing'')
        else Inr (bump (t\<lparr>t_partitions := om_insert (pa_id part) p (t_partitions t)\<rparr>)))"

definition removePartition_edit :: "PartitionId \<Rightarrow> edit" where
  "removePartition_edit i t =
     (if \<not> om_count (t_partitions t) i then Inl (err ErrorCode.NOT_FOUND ''partition not found'')
      else Inr (bump (t\<lparr>t_partitions := om_erase i (t_partitions t)\<rparr>)))"

definition markPartitionStale_edit :: "PartitionId \<Rightarrow> edit" where
  "markPartitionStale_edit i t =
     (if \<not> om_count (t_partitions t) i then Inl (err ErrorCode.NOT_FOUND ''partition not found'')
      else Inr (bump (t\<lparr>t_partitions := om_update i (\<lambda>p.
             p\<lparr>pa_gen := (if pa_state p \<noteq> PartitionState.STALE then gen_next (pa_gen p)
                          else pa_gen p),
               pa_state := PartitionState.STALE\<rparr>) (t_partitions t)\<rparr>)))"

section \<open>Congestion, fencing and revalidation\<close>

definition merge_degradation ::
    "LinkDegradation \<Rightarrow> (LinkId, LinkRecord) omap \<Rightarrow> (LinkId, LinkRecord) omap" where
  "merge_degradation ld m =
     (if \<not> ld_linkKnown ld then m
      else om_update (ld_link ld) (\<lambda>l.
             l\<lparr>li_degraded := ld_degraded ld,
               li_state := (if ld_degraded ld then EntityState.DEGRADED else li_state l)\<rparr>) m)"

definition publishCongestion_edit :: "CongestionObservation \<Rightarrow> edit" where
  "publishCongestion_edit c t =
     Inr (bump (t\<lparr>t_links := fold merge_degradation (co_links c) (t_links t)\<rparr>))"

definition fence_device :: "WorkerId \<Rightarrow> WorkerBootId \<Rightarrow> DeviceRecord \<Rightarrow> DeviceRecord" where
  "fence_device w b r =
     (if dev_workerKnown r \<and> dev_worker r = w \<and> dev_workerBoot r = b
      then r\<lparr>dev_state := EntityState.REVALIDATION_REQUIRED\<rparr> else r)"

definition fence_switch :: "WorkerId \<Rightarrow> WorkerBootId \<Rightarrow> SwitchRecord \<Rightarrow> SwitchRecord" where
  "fence_switch w b r =
     (if sw_workerKnown r \<and> sw_worker r = w \<and> sw_workerBoot r = b
      then r\<lparr>sw_state := EntityState.REVALIDATION_REQUIRED, sw_gen := gen_next (sw_gen r)\<rparr> else r)"

definition fence_port :: "WorkerId \<Rightarrow> WorkerBootId \<Rightarrow> SwitchPortRecord \<Rightarrow> SwitchPortRecord" where
  "fence_port w b r =
     (if po_workerKnown r \<and> po_worker r = w \<and> po_workerBoot r = b
      then r\<lparr>po_state := EntityState.REVALIDATION_REQUIRED, po_gen := gen_next (po_gen r)\<rparr> else r)"

definition fence_link :: "WorkerId \<Rightarrow> WorkerBootId \<Rightarrow> LinkRecord \<Rightarrow> LinkRecord" where
  "fence_link w b r =
     (if li_workerKnown r \<and> li_worker r = w \<and> li_workerBoot r = b
      then r\<lparr>li_state := EntityState.REVALIDATION_REQUIRED, li_gen := gen_next (li_gen r)\<rparr> else r)"

definition fence_partition :: "WorkerId \<Rightarrow> WorkerBootId \<Rightarrow> FabricPartition \<Rightarrow> FabricPartition" where
  "fence_partition w b r =
     (if pa_workerKnown r \<and> pa_worker r = w \<and> pa_workerBoot r = b
      then r\<lparr>pa_state := PartitionState.REVALIDATION_REQUIRED, pa_gen := gen_next (pa_gen r)\<rparr>
      else r)"

text \<open>Whether some record of the topology comes from this incarnation of the worker.\<close>

definition owns_any :: "WorkerId \<Rightarrow> WorkerBootId \<Rightarrow> FabricTopology \<Rightarrow> bool" where
  "owns_any w b t \<longleftrightarrow>
     list_ex (\<lambda>r. sw_workerKnown r \<and> sw_worker r = w \<and> sw_workerBoot r = b) (om_values (t_switches t))
   \<or> list_ex (\<lambda>r. po_workerKnown r \<and> po_worker r = w \<and> po_workerBoot r = b) (om_values (t_ports t))
   \<or> list_ex (\<lambda>r. li_workerKnown r \<and> li_worker r = w \<and> li_workerBoot r = b) (om_values (t_links t))
   \<or> list_ex (\<lambda>r. pa_workerKnown r \<and> pa_worker r = w \<and> pa_workerBoot r = b) (om_values (t_partitions t))
   \<or> list_ex (\<lambda>r. dev_workerKnown r \<and> dev_worker r = w \<and> dev_workerBoot r = b) (om_values (t_devices t))"

definition invalidateForWorker_edit :: "WorkerId \<Rightarrow> WorkerBootId \<Rightarrow> edit" where
  "invalidateForWorker_edit w b t =
     (let t' = t\<lparr>t_switches := om_map (fence_switch w b) (t_switches t),
                 t_ports := om_map (fence_port w b) (t_ports t),
                 t_links := om_map (fence_link w b) (t_links t),
                 t_partitions := om_map (fence_partition w b) (t_partitions t),
                 t_devices := om_map (fence_device w b) (t_devices t)\<rparr>
      in Inr (if owns_any w b t then bump t' else t'))"

text \<open>Evidence that came from a worker or from hardware has to be revalidated.\<close>

definition dynamic :: "bool \<Rightarrow> Provenance \<Rightarrow> bool" where
  "dynamic workerKnown prov \<longleftrightarrow> workerKnown \<or> prov = Provenance.REAL"

definition expireDynamicEvidence_edit :: edit where
  "expireDynamicEvidence_edit t = Inr (bump (t\<lparr>
     t_switches := om_map (\<lambda>r. if dynamic (sw_workerKnown r) (sw_provenance r)
       then r\<lparr>sw_state := EntityState.REVALIDATION_REQUIRED\<rparr> else r) (t_switches t),
     t_ports := om_map (\<lambda>r. if dynamic (po_workerKnown r) (po_provenance r)
       then r\<lparr>po_state := EntityState.REVALIDATION_REQUIRED\<rparr> else r) (t_ports t),
     t_links := om_map (\<lambda>r. if dynamic (li_workerKnown r) (li_provenance r)
       then r\<lparr>li_state := EntityState.REVALIDATION_REQUIRED\<rparr> else r) (t_links t),
     t_partitions := om_map (\<lambda>r. if dynamic (pa_workerKnown r) (pa_provenance r)
       then r\<lparr>pa_state := PartitionState.REVALIDATION_REQUIRED\<rparr> else r) (t_partitions t),
     t_devices := om_map (\<lambda>r. if dynamic (dev_workerKnown r) (dev_provenance r)
       then r\<lparr>dev_state := EntityState.REVALIDATION_REQUIRED\<rparr> else r) (t_devices t)\<rparr>))"

definition revalidateAll_edit :: edit where
  "revalidateAll_edit t = Inr (bump (t\<lparr>
     t_switches := om_map (\<lambda>r. if entity_stale (sw_state r)
       then r\<lparr>sw_state := EntityState.UP\<rparr> else r) (t_switches t),
     t_ports := om_map (\<lambda>r. if entity_stale (po_state r)
       then r\<lparr>po_state := EntityState.UP\<rparr> else r) (t_ports t),
     t_links := om_map (\<lambda>r. if entity_stale (li_state r)
       then r\<lparr>li_state := EntityState.UP\<rparr> else r) (t_links t),
     t_partitions := om_map (\<lambda>r. if partition_stale (pa_state r)
       then r\<lparr>pa_state := PartitionState.ACTIVE\<rparr> else r) (t_partitions t),
     t_devices := om_map (\<lambda>r. if entity_stale (dev_state r)
       then r\<lparr>dev_state := EntityState.UP\<rparr> else r) (t_devices t)\<rparr>))"

definition applyBulk_edit :: "BulkEdit \<Rightarrow> edit" where
  "applyBulk_edit e t = Inr (bump (t\<lparr>
     t_devices := om_insert_all dev_id (be_devices e) (t_devices t),
     t_switches := om_insert_all sw_id (be_switches e) (t_switches t),
     t_ports := om_insert_all po_id (be_ports e) (t_ports t),
     t_links := om_insert_all li_id (be_links e) (t_links t),
     t_partitions := om_insert_all pa_id (be_partitions e) (t_partitions t)\<rparr>))"

section \<open>The operations\<close>

type_synonym operation = "u64 \<Rightarrow> FabricRegistry \<Rightarrow> FabricTopology Result \<times> FabricRegistry"

definition addDevice :: "DeviceRecord \<Rightarrow> operation" where
  "addDevice rec = transact (addDevice_edit rec)"

definition removeDevice :: "DeviceId \<Rightarrow> operation" where
  "removeDevice i = transact (removeDevice_edit i)"

definition addSwitch :: "SwitchRecord \<Rightarrow> operation" where
  "addSwitch rec = transact (addSwitch_edit rec)"

definition removeSwitch :: "SwitchId \<Rightarrow> operation" where
  "removeSwitch i = transact (removeSwitch_edit i)"

definition setSwitchState :: "SwitchId \<Rightarrow> EntityState \<Rightarrow> operation" where
  "setSwitchState i st = transact (setSwitchState_edit i st)"

definition restartSwitch :: "SwitchId \<Rightarrow> SwitchGeneration \<Rightarrow> operation" where
  "restartSwitch i g = transact (restartSwitch_edit i g)"

definition addPort :: "SwitchPortRecord \<Rightarrow> operation" where
  "addPort rec = transact (addPort_edit rec)"

definition removePort :: "PortId \<Rightarrow> operation" where
  "removePort i = transact (removePort_edit i)"

definition setPortState :: "PortId \<Rightarrow> EntityState \<Rightarrow> operation" where
  "setPortState i st = transact (setPortState_edit i st)"

definition addLink :: "LinkRecord \<Rightarrow> operation" where
  "addLink rec = transact (addLink_edit rec)"

definition removeLink :: "LinkId \<Rightarrow> operation" where
  "removeLink i = transact (removeLink_edit i)"

definition setLinkState :: "LinkId \<Rightarrow> EntityState \<Rightarrow> bool \<Rightarrow> operation" where
  "setLinkState i st degraded = transact (setLinkState_edit i st degraded)"

definition publishPartition :: "FabricPartition \<Rightarrow> operation" where
  "publishPartition part = transact (publishPartition_edit part)"

definition removePartition :: "PartitionId \<Rightarrow> operation" where
  "removePartition i = transact (removePartition_edit i)"

definition markPartitionStale :: "PartitionId \<Rightarrow> operation" where
  "markPartitionStale i = transact (markPartitionStale_edit i)"

definition publishCongestion :: "CongestionObservation \<Rightarrow> operation" where
  "publishCongestion c = transact (publishCongestion_edit c)"

definition invalidateForWorker :: "WorkerId \<Rightarrow> WorkerBootId \<Rightarrow> operation" where
  "invalidateForWorker w b = transact (invalidateForWorker_edit w b)"

text \<open>The measurements lose their match before the candidate is validated.\<close>

definition expireDynamicEvidence :: operation where
  "expireDynamicEvidence now r =
     transact expireDynamicEvidence_edit now
       (r\<lparr>r_measurements := map (\<lambda>m. m\<lparr>me_matched := False\<rparr>) (r_measurements r)\<rparr>)"

definition revalidateAll :: operation where
  "revalidateAll = transact revalidateAll_edit"

definition applyBulk :: "BulkEdit \<Rightarrow> operation" where
  "applyBulk e = transact_with ''bulk rejected: '' (applyBulk_edit e)"

definition bulk_of_scan :: "Scan \<Rightarrow> BulkEdit" where
  "bulk_of_scan s = \<lparr>be_devices = sc_devices s, be_switches = sc_switches s,
     be_ports = sc_ports s, be_links = sc_links s, be_partitions = sc_partitions s\<rparr>"

definition applyBackendScan :: "Scan \<Rightarrow> operation" where
  "applyBackendScan s = applyBulk (bulk_of_scan s)"

definition applyScenarioToRegistry :: "ScenarioType \<Rightarrow> operation" where
  "applyScenarioToRegistry type = applyBulk (bulk_of_scan (buildSyntheticScan type))"

definition publishMeasurement :: "Measurement \<Rightarrow> FabricRegistry \<Rightarrow> FabricTopology Result \<times> FabricRegistry" where
  "publishMeasurement m r =
     (let kept = (if length (r_measurements r) \<ge> unat kMaxMeasurements
                  then tl (r_measurements r) else r_measurements r);
          mm = m\<lparr>me_matched := True\<rparr>;
          fresh = (get (me_id mm) = 0);
          mm' = (if fresh then mm\<lparr>me_id := MkId (r_nextMeasurementId r)\<rparr> else mm)
      in (Inr (r_current r),
          r\<lparr>r_measurements := kept @ [mm'],
            r_nextMeasurementId :=
              (if fresh then r_nextMeasurementId r + 1 else r_nextMeasurementId r)\<rparr>))"

definition log_decision :: "RouteDecision \<Rightarrow> RouteDecision list \<Rightarrow> RouteDecision list" where
  "log_decision d xs =
     (let ys = xs @ [d] in if length ys > unat kMaxHistory then tl ys else ys)"

definition recordDecision :: "RouteDecision \<Rightarrow> FabricRegistry \<Rightarrow> unit Result \<times> FabricRegistry" where
  "recordDecision d r = (Inr (), r\<lparr>r_decisionLog := log_decision d (r_decisionLog r)\<rparr>)"

section \<open>Queries\<close>

definition reachability :: "FabricRegistry \<Rightarrow> DeviceId \<Rightarrow> DeviceId \<Rightarrow> Reachability" where
  "reachability r src dst = deviceReachability (snapshot r) src dst"

definition health :: "FabricRegistry \<Rightarrow> FabricHealth" where
  "health r = fabricHealth (snapshot r)"

definition paths :: "FabricRegistry \<Rightarrow> DeviceId \<Rightarrow> DeviceId \<Rightarrow> TraversalConfig \<Rightarrow> FabricPath list" where
  "paths r src dst cfg = enumeratePaths (snapshot r) src dst cfg"

text \<open>
  \<open>route\<close> takes the lock three times: to read the snapshot and the measurements, to draw
  the identifiers, and to log the decision; the computation runs without it.
\<close>

definition route_read :: "FabricRegistry \<Rightarrow> FabricTopology \<times> Measurement list" where
  "route_read r = (r_current r, r_measurements r)"

definition route_draw :: "FabricRegistry \<Rightarrow> (RouteDecisionId \<times> ObservationId) \<times> FabricRegistry" where
  "route_draw r =
     ((MkId (r_nextDecisionId r), MkId (r_nextObservationId r)),
      r\<lparr>r_nextDecisionId := r_nextDecisionId r + 1,
        r_nextObservationId := r_nextObservationId r + 1\<rparr>)"

definition route_compute ::
    "FabricTopology \<times> Measurement list \<Rightarrow> RouteDecisionId \<times> ObservationId \<Rightarrow> CoordinatorEpoch \<Rightarrow>
     u64 \<Rightarrow> DeviceId \<Rightarrow> DeviceId \<Rightarrow> RoutePolicy \<Rightarrow> RouteDecision Result" where
  "route_compute seen ids epoch now src dst policy =
     (case computeRoute (fst seen) src dst policy (Some (snd seen)) (fst ids) (MkGen 0)
             (MkStringId (''snap'' @ u64_to_string (t_id (fst seen)))) now epoch of
        Inl e \<Rightarrow> Inl e
      | Inr d \<Rightarrow> Inr (d\<lparr>rd_observation := snd ids, rd_observationKnown := True\<rparr>))"

definition route_log :: "RouteDecision Result \<Rightarrow> FabricRegistry \<Rightarrow> FabricRegistry" where
  "route_log res r =
     (case res of
        Inl e \<Rightarrow> r
      | Inr d \<Rightarrow> r\<lparr>r_decisionLog := log_decision d (r_decisionLog r)\<rparr>)"

definition route :: "DeviceId \<Rightarrow> DeviceId \<Rightarrow> RoutePolicy \<Rightarrow> u64 \<Rightarrow> FabricRegistry \<Rightarrow>
    RouteDecision Result \<times> FabricRegistry" where
  "route src dst policy now r =
     (let seen = route_read r; (ids, r1) = route_draw r;
          res = route_compute seen ids (r_epoch r1) now src dst policy
      in (res, route_log res r1))"

definition decisionStillAuthoritative :: "FabricRegistry \<Rightarrow> RouteDecision \<Rightarrow> bool" where
  "decisionStillAuthoritative r d = routeDecisionStillAuthoritative d (snapshot r)"

definition recentDecisions :: "FabricRegistry \<Rightarrow> RouteDecision list" where
  "recentDecisions r =
     map (\<lambda>d. d\<lparr>rd_authoritative :=
                  routeDecisionStillAuthoritative d (r_current r) \<and> rd_authoritative d\<rparr>)
       (r_decisionLog r)"

definition recentMeasurements :: "FabricRegistry \<Rightarrow> Measurement list" where
  "recentMeasurements r = r_measurements r"

section \<open>Backends\<close>

definition bindBackend :: "Backend option \<Rightarrow> FabricRegistry \<Rightarrow> unit Result \<times> FabricRegistry" where
  "bindBackend b r =
     (case b of
        None \<Rightarrow> (Inl (err ErrorCode.INVALID_ARGUMENT ''null backend''), r)
      | Some _ \<Rightarrow> (Inr (), r\<lparr>r_backend := b\<rparr>))"

definition backendCapabilities :: "FabricRegistry \<Rightarrow> BackendCapabilities Result" where
  "backendCapabilities r =
     (case r_backend r of
        None \<Rightarrow> Inl (err ErrorCode.BACKEND_UNAVAILABLE ''no backend bound'')
      | Some b \<Rightarrow> Inr (bk_capabilities b))"

definition scanBackend :: "u64 \<Rightarrow> FabricRegistry \<Rightarrow> unit Result \<times> FabricRegistry" where
  "scanBackend now r =
     (case r_backend r of
        None \<Rightarrow> (Inl (err ErrorCode.BACKEND_UNAVAILABLE ''no backend bound''), r)
      | Some b \<Rightarrow>
          if bc_provenance (bk_capabilities b) = Provenance.UNSUPPORTED then (Inr (), r)
          else (case bk_scan b of
                  Inl e \<Rightarrow> (Inl e, r)
                | Inr sc \<Rightarrow>
                    (case applyBackendScan sc now r of
                       (Inl e, r') \<Rightarrow> (Inl e, r')
                     | (Inr _, r') \<Rightarrow> (Inr (), r'))))"

end
