(* ===== verification/Fabric_Governance.thy ===== *)
theory Fabric_Governance
  imports Fabric_Route Fabric_Integrity Fabric_Synthetic
begin

text \<open>
  Correctness of route governance. \<open>routeLess\<close> is the comparison of a key (the factor
  values in policy order, then the canonical key), hence a strict weak order, and the
  selected path is the least of the eligible ones. A decision is allowed exactly when it
  selects a path; the path then is a walk of the topology whose elements are all current,
  within the policy's hop bound and inside the partition gate.
\<close>

section \<open>The ranking\<close>

definition rank :: "FabricTopology \<Rightarrow> BestMeasurement \<Rightarrow> (RouteFactor \<times> double_bits) list \<Rightarrow>
    FabricPath \<Rightarrow> rat list \<times> string" where
  "rank t meas fs p = (map (\<lambda>fw. factorValue (fst fw) p t meas) fs, canonicalKey p)"

lemma routeLess_rank: "routeLess t meas fs a b \<longleftrightarrow> rank t meas fs a < rank t meas fs b"
  by (induction t meas fs a b rule: routeLess.induct)
    (auto simp: rank_def less_prod_def Let_def)

interpretation route_order: strict_weak_order "routeLess t meas fs" for t meas fs
  unfolding routeLess_rank by (rule strict_weak_order_key)

lemma rank_annotate [simp]: "rank t meas fs (annotate t p) = rank t meas fs p"
proof -
  have "factorValue f (annotate t p) t meas = factorValue f p t meas" for f
    by (cases f) (simp_all add: factorValue_def annotate_def)
  moreover have "canonicalKey (annotate t p) = canonicalKey p"
    by (simp add: canonicalKey_def annotate_def)
  ultimately show ?thesis by (simp add: rank_def)
qed

section \<open>The bounds of the search\<close>

lemma ucast_min_u32:
  "unat (ucast (min x (ucast (k :: u32) :: u64)) :: u32) = min (unat x) (unat k)"
proof -
  have small: "unat k < 2 ^ 32"
    using unsigned_less [of k, where 'a = nat] by simp
  then have "unat (ucast k :: u64) = unat k"
    by (simp add: unsigned_ucast_eq take_bit_nat_eq_self)
  then have "unat (min x (ucast k :: u64)) = min (unat x) (unat k)"
    by (simp add: min_def word_le_nat_alt)
  moreover have "min (unat x) (unat k) < 2 ^ 32"
    using small by simp
  ultimately show ?thesis
    by (simp add: unsigned_ucast_eq take_bit_nat_eq_self)
qed

lemma route_config_bounds:
  "unat (tc_maxDepth (route_config policy)) = min (unat (rp_maxAllowedHops policy)) (unat kMaxPathDepth)"
  "unat (tc_maxPaths (route_config policy)) =
     min (unat (rp_maxAllowedHops policy + 1)) (unat kMaxCandidatePaths)"
  by (simp_all add: route_config_def ucast_min_u32)

section \<open>How a decision comes about\<close>

text \<open>The endpoint and partition gates in front of the search.\<close>

definition endpoints_current :: "FabricTopology \<Rightarrow> DeviceId \<Rightarrow> DeviceId \<Rightarrow> bool" where
  "endpoints_current t src dst \<longleftrightarrow> src \<noteq> dst \<and>
     (\<exists>s. lookupDevice t src = Some s \<and> dev_present s \<and> currentState (dev_state s)) \<and>
     (\<exists>d. lookupDevice t dst = Some d \<and> dev_present d \<and> currentState (dev_state d))"

definition partition_gate :: "FabricTopology \<Rightarrow> RoutePolicy \<Rightarrow> DeviceId \<Rightarrow> DeviceId \<Rightarrow> bool" where
  "partition_gate t policy src dst \<longleftrightarrow>
     commonPartition t src dst \<noteq> None \<or> \<not> anyActivePartition t \<or> \<not> rp_insidePartition policy"

definition pin_partition :: "FabricPartition option \<Rightarrow> RouteDecision \<Rightarrow> RouteDecision" where
  "pin_partition p d = (case p of
     None \<Rightarrow> d
   | Some part \<Rightarrow> d\<lparr>rd_partition := pa_id part, rd_partitionKnown := True,
                     rd_partitionGen := pa_gen part\<rparr>)"

definition candidates :: "FabricTopology \<Rightarrow> DeviceId \<Rightarrow> DeviceId \<Rightarrow> RoutePolicy \<Rightarrow> FabricPath list" where
  "candidates t src dst policy =
     eligible_paths t policy (enumeratePaths t src dst (route_config policy))"

lemma select_route_Nil [simp]:
  "rd_selected (select_route t policy meas [] d) = rd_selected d"
  "rd_authoritative (select_route t policy meas [] d) = rd_authoritative d"
  "\<not> outcome_allowed (rd_outcome (select_route t policy meas [] d))"
  by (simp_all add: select_route_def refuse_def outcome_allowed_def stable_sort_def)

lemma refuse_unreachable_simps [simp]:
  "rd_selected (refuse_unreachable d rr) = rd_selected d"
  "rd_authoritative (refuse_unreachable d rr) = rd_authoritative d"
  "\<not> outcome_allowed (rd_outcome (refuse_unreachable d rr))"
  by (cases rr; simp add: refuse_unreachable_def refuse_def outcome_allowed_def)+

lemma refuse_simps [simp]:
  "rd_selected (refuse d out why) = rd_selected d"
  "rd_authoritative (refuse d out why) = rd_authoritative d"
  "rd_outcome (refuse d out why) = out"
  by (simp_all add: refuse_def)

lemma initial_decision_simps [simp]:
  "rd_selected (initial_decision t src dst policy i g snap now epoch) = None"
  "\<not> rd_authoritative (initial_decision t src dst policy i g snap now epoch)"
  by (simp_all add: initial_decision_def)

lemma pin_partition_simps [simp]:
  "rd_selected (pin_partition p d) = rd_selected d"
  "rd_authoritative (pin_partition p d) = rd_authoritative d"
  by (simp_all add: pin_partition_def split: option.splits)

text \<open>
  Every decision is a refusal, which selects nothing and is not authoritative, or the
  outcome of \<open>select_route\<close> on a non-empty list of candidates after both gates.
\<close>

definition refused :: "RouteDecision \<Rightarrow> bool" where
  "refused d \<longleftrightarrow> \<not> outcome_allowed (rd_outcome d) \<and> rd_selected d = None \<and> \<not> rd_authoritative d"

lemma route_over_paths_cases:
  assumes "rd_selected d = None" and "\<not> rd_authoritative d"
  shows "refused (route_over_paths t src dst policy ms d) \<and> candidates t src dst policy = [] \<or>
    candidates t src dst policy \<noteq> [] \<and>
    route_over_paths t src dst policy ms d =
      select_route t policy (bestFor ms src dst) (candidates t src dst policy) d"
proof (cases "enumeratePaths t src dst (route_config policy) = []")
  case True
  then show ?thesis
    using assms by (simp add: route_over_paths_def refused_def candidates_def eligible_paths_def)
next
  case False
  then show ?thesis
    using assms by (cases "candidates t src dst policy = []")
      (simp_all add: route_over_paths_def refused_def candidates_def)
qed

lemma computeRoute_cases:
  assumes "computeRoute t src dst policy ms i g snap now epoch = Inr d"
  obtains (refused) "refused d"
      "\<not> (endpoints_current t src dst \<and> partition_gate t policy src dst \<and>
          candidates t src dst policy \<noteq> [])"
  | (selected) "endpoints_current t src dst" "partition_gate t policy src dst"
      "candidates t src dst policy \<noteq> []"
      "d = select_route t policy (bestFor ms src dst) (candidates t src dst policy)
             (pin_partition (commonPartition t src dst)
               (initial_decision t src dst policy i g snap now epoch))"
proof -
  let ?d0 = "initial_decision t src dst policy i g snap now epoch"
  let ?d1 = "pin_partition (commonPartition t src dst) ?d0"
  have unsupported: "\<not> currentState EntityState.UNSUPPORTED"
    by (simp add: currentState_def)
  have "refused d \<and> \<not> (endpoints_current t src dst \<and> partition_gate t policy src dst) \<or>
      endpoints_current t src dst \<and> partition_gate t policy src dst \<and>
      d = route_over_paths t src dst policy ms ?d1"
    using assms
    by (cases "lookupDevice t src"; cases "lookupDevice t dst"; cases "commonPartition t src dst")
      (auto simp: computeRoute_def Let_def refused_def outcome_allowed_def pin_partition_def
        endpoints_current_def partition_gate_def unsupported split: if_splits)
  then show ?thesis
    using route_over_paths_cases [of ?d1 t src dst policy ms] refused selected by auto
qed

lemma computeRoute_total: "\<exists>d. computeRoute t src dst policy ms i g snap now epoch = Inr d"
  by (simp add: computeRoute_def Let_def)

text \<open>What \<open>select_route\<close> returns on a non-empty candidate list.\<close>

lemma select_route_best:
  assumes "eligible \<noteq> []"
  obtains best rest where
    "stable_sort (routeLess t meas (rp_factors policy)) eligible = best # rest"
    "rd_candidatePaths (select_route t policy meas eligible d) = best # rest"
    "rd_selected (select_route t policy meas eligible d) = Some best"
    "rd_authoritative (select_route t policy meas eligible d)"
    "rd_outcome (select_route t policy meas eligible d) =
       (if fp_state best = EntityState.DEGRADED then RouteOutcome.ROUTE_ALLOWED_DEGRADED
        else RouteOutcome.ROUTE_ALLOWED)"
    "best \<in> set eligible"
proof -
  obtain best rest where
    s: "stable_sort (routeLess t meas (rp_factors policy)) eligible = best # rest"
    using assms by (metis neq_Nil_conv stable_sort_Nil_iff)
  then have "best \<in> set eligible"
    by (metis list.set_intros(1) set_stable_sort)
  with s show ?thesis
    by (intro that [of best rest]) (simp_all add: select_route_def)
qed

lemma select_route_frame:
  "rd_partitionKnown (select_route t policy meas eligible d) = rd_partitionKnown d"
  "rd_partition (select_route t policy meas eligible d) = rd_partition d"
  "rd_partitionGen (select_route t policy meas eligible d) = rd_partitionGen d"
  "rd_source (select_route t policy meas eligible d) = rd_source d"
  "rd_destination (select_route t policy meas eligible d) = rd_destination d"
  "rd_epoch (select_route t policy meas eligible d) = rd_epoch d"
  by (simp_all add: select_route_def refuse_def split: list.splits)

section \<open>Partitions\<close>

lemma fold_keep_last:
  "fold (\<lambda>p acc. if P p then acc else if Q p then Some p else acc) xs a =
     (case find (\<lambda>p. \<not> P p \<and> Q p) (rev xs) of None \<Rightarrow> a | Some p \<Rightarrow> Some p)"
  by (induction xs rule: rev_induct) auto

lemma commonPartition_find:
  "commonPartition t src dst =
     find (\<lambda>p. \<not> partition_stale (pa_state p) \<and> src \<in> set (pa_members p) \<and> dst \<in> set (pa_members p))
       (rev (om_values (t_partitions t)))"
  unfolding commonPartition_def fold_keep_last by (simp split: option.splits)

lemma commonPartition_SomeD:
  "commonPartition t src dst = Some p \<Longrightarrow>
   p \<in> set (om_values (t_partitions t)) \<and> \<not> partition_stale (pa_state p) \<and>
   src \<in> set (pa_members p) \<and> dst \<in> set (pa_members p)"
  unfolding commonPartition_find find_Some_iff by (metis length_rev nth_mem set_rev)

lemma commonPartition_None_iff:
  "commonPartition t src dst = None \<longleftrightarrow>
   (\<forall>p \<in> set (om_values (t_partitions t)).
      partition_stale (pa_state p) \<or> src \<notin> set (pa_members p) \<or> dst \<notin> set (pa_members p))"
  unfolding commonPartition_find find_None_iff by auto

section \<open>The selected path\<close>

lemma in_candidates:
  "x \<in> set (candidates t src dst policy) \<longleftrightarrow>
   (\<exists>p \<in> set (enumeratePaths t src dst (route_config policy)).
      path_eligible t policy p \<and> x = annotate t p)"
  by (auto simp: candidates_def eligible_paths_def)

lemma annotate_simps [simp]:
  "fp_links (annotate t p) = fp_links p"
  "fp_switchSequence (annotate t p) = fp_switchSequence p"
  "fp_hops (annotate t p) = fp_hops p"
  "fp_state (annotate t p) = fp_state p"
  "fp_switchGens (annotate t p) = captured_switchGens t p"
  "fp_portGens (annotate t p) = captured_portGens t p"
  by (simp_all add: annotate_def)

lemma path_eligible_annotate [simp]: "path_eligible t policy (annotate t p) = path_eligible t policy p"
  by (simp add: path_eligible_def switches_current_def ports_current_def links_current_def)

lemma computeRoute_selected:
  assumes "computeRoute t src dst policy ms i g snap now epoch = Inr d"
    and "rd_selected d = Some best"
  obtains p where "p \<in> set (enumeratePaths t src dst (route_config policy))"
    "path_eligible t policy p" "best = annotate t p"
    "endpoints_current t src dst" "partition_gate t policy src dst"
    "outcome_allowed (rd_outcome d)" "rd_authoritative d"
    "rd_candidatePaths d =
       stable_sort (routeLess t (bestFor ms src dst) (rp_factors policy)) (candidates t src dst policy)"
    "rd_candidatePaths d = best # tl (rd_candidatePaths d)"
    "rd_source d = src" "rd_destination d = dst" "rd_epoch d = epoch"
    "rd_partitionKnown d = (commonPartition t src dst \<noteq> None)"
    "\<And>part. commonPartition t src dst = Some part \<Longrightarrow>
       rd_partition d = pa_id part \<and> rd_partitionGen d = pa_gen part"
  using assms(1)
proof (cases rule: computeRoute_cases)
  case refused
  then show ?thesis using assms(2) by (simp add: refused_def)
next
  case selected
  let ?d1 = "pin_partition (commonPartition t src dst)
    (initial_decision t src dst policy i g snap now epoch)"
  obtain b rest where b:
    "stable_sort (routeLess t (bestFor ms src dst) (rp_factors policy)) (candidates t src dst policy)
       = b # rest"
    "rd_candidatePaths d = b # rest" "rd_selected d = Some b" "rd_authoritative d"
    "rd_outcome d = (if fp_state b = EntityState.DEGRADED
       then RouteOutcome.ROUTE_ALLOWED_DEGRADED else RouteOutcome.ROUTE_ALLOWED)"
    "b \<in> set (candidates t src dst policy)"
    using select_route_best [OF selected(3), of t "bestFor ms src dst" policy ?d1]
    unfolding selected(4) [symmetric] by metis
  moreover obtain p where "p \<in> set (enumeratePaths t src dst (route_config policy))"
    "path_eligible t policy p" "b = annotate t p"
    using b(6) by (auto simp: in_candidates)
  moreover have "rd_source ?d1 = src" "rd_destination ?d1 = dst" "rd_epoch ?d1 = epoch"
    "rd_partitionKnown ?d1 = (commonPartition t src dst \<noteq> None)"
    "\<And>part. commonPartition t src dst = Some part \<Longrightarrow>
       rd_partition ?d1 = pa_id part \<and> rd_partitionGen ?d1 = pa_gen part"
    by (auto simp: pin_partition_def initial_decision_def split: option.splits)
  ultimately show ?thesis
    using selected assms(2) that [of p] by (simp add: outcome_allowed_def select_route_frame)
qed

lemma computeRoute_allowed_iff:
  assumes "computeRoute t src dst policy ms i g snap now epoch = Inr d"
  shows "outcome_allowed (rd_outcome d) \<longleftrightarrow> rd_selected d \<noteq> None"
    and "rd_authoritative d \<longleftrightarrow> rd_selected d \<noteq> None"
    and "rd_selected d \<noteq> None \<longleftrightarrow> endpoints_current t src dst \<and> partition_gate t policy src dst \<and>
           candidates t src dst policy \<noteq> []"
proof -
  let ?gates = "endpoints_current t src dst \<and> partition_gate t policy src dst \<and>
    candidates t src dst policy \<noteq> []"
  have "refused d \<and> \<not> ?gates \<or>
      outcome_allowed (rd_outcome d) \<and> rd_authoritative d \<and> rd_selected d \<noteq> None \<and> ?gates"
    using assms
  proof (cases rule: computeRoute_cases)
    case selected
    then show ?thesis
      using select_route_best [OF selected(3)]
      by (metis option.distinct(1) outcome_allowed_def)
  qed simp
  then show "outcome_allowed (rd_outcome d) \<longleftrightarrow> rd_selected d \<noteq> None"
    and "rd_authoritative d \<longleftrightarrow> rd_selected d \<noteq> None"
    and "rd_selected d \<noteq> None \<longleftrightarrow> ?gates"
    by (auto simp: refused_def)
qed

section \<open>A fresh decision against its own topology\<close>

definition switch_usable :: "FabricTopology \<Rightarrow> SwitchId \<Rightarrow> bool" where
  "switch_usable t s \<longleftrightarrow> (\<exists>r. lookupSwitch t s = Some r \<and> usableState (sw_state r))"

definition port_usable :: "FabricTopology \<Rightarrow> PortId \<Rightarrow> bool" where
  "port_usable t q \<longleftrightarrow> (\<exists>r. lookupPort t q = Some r \<and> usableState (po_state r))"

lemma captured_switches_unchanged:
  "switches_current t p \<Longrightarrow>
   list_all (switch_unchanged t) (captured_switchGens t p) \<longleftrightarrow>
     (\<forall>s \<in> set (fp_switchSequence p). switch_usable t s)"
  by (force simp: switches_current_def captured_switchGens_def list_all_iff switch_unchanged_def
      switch_usable_def split: option.splits)

lemma list_all_concat_map:
  "list_all P (concat (map f xs)) \<longleftrightarrow> (\<forall>x \<in> set xs. list_all P (f x))"
  by (induction xs) auto

lemma captured_port_unchanged:
  "port_current t q \<Longrightarrow>
   list_all (port_unchanged t) (case lookupPort t q of None \<Rightarrow> [] | Some r \<Rightarrow> [(q, po_gen r)]) \<longleftrightarrow>
     port_usable t q"
  by (auto simp: port_current_def port_unchanged_def port_usable_def split: option.splits)

lemma captured_ports_unchanged:
  assumes "ports_current t p"
  shows "list_all (port_unchanged t) (captured_portGens t p) \<longleftrightarrow>
     (\<forall>h \<in> set (fp_hops p). (hop_inPort h \<noteq> port_unknown \<longrightarrow> port_usable t (hop_inPort h)) \<and>
        port_usable t (hop_outPort h))"
  unfolding captured_portGens_def list_all_concat_map
  using assms by (intro ball_cong refl)
    (auto simp: ports_current_def list_all_iff [where xs = "fp_hops p"] captured_port_unchanged
      port_isUnknown_iff)

lemma endpoints_ready_current:
  "endpoints_ready t src dst \<Longrightarrow> endpoint_current t src \<and> endpoint_current t dst"
  by (auto simp: endpoints_ready_def endpoint_current_def endpoint_live_def usableState_def)

lemma enumeratePaths_ready: "p \<in> set (enumeratePaths t src dst cfg) \<Longrightarrow> endpoints_ready t src dst"
  by (simp add: enumeratePaths_cases split: if_splits)

lemma out_ok_port_usable: "out_ok t h \<longleftrightarrow> port_usable t (hop_outPort h)"
  by (simp add: out_ok_def port_usable_def traversableState_def usableState_def)

lemma fresh_decision:
  assumes d: "computeRoute t src dst policy ms i g snap now (t_epoch t) = Inr d"
    and sel: "rd_selected d = Some best" and wf: "topo_wf t"
  shows "routeDecisionStillAuthoritative d t \<longleftrightarrow>
    (\<forall>s \<in> set (fp_switchSequence best). switch_usable t s) \<and>
    (\<forall>h \<in> set (fp_hops best). hop_inPort h \<noteq> port_unknown \<longrightarrow> port_usable t (hop_inPort h))"
proof -
  obtain p where p: "p \<in> set (enumeratePaths t src dst (route_config policy))"
    "path_eligible t policy p" "best = annotate t p" "outcome_allowed (rd_outcome d)"
    "rd_source d = src" "rd_destination d = dst" "rd_epoch d = t_epoch t"
    "rd_partitionKnown d = (commonPartition t src dst \<noteq> None)"
    "\<And>part. commonPartition t src dst = Some part \<Longrightarrow>
       rd_partition d = pa_id part \<and> rd_partitionGen d = pa_gen part"
    using computeRoute_selected [OF d sel] by metis
  have part: "rd_partitionKnown d \<Longrightarrow> partition_unchanged t (rd_partition d) (rd_partitionGen d)"
  proof -
    assume "rd_partitionKnown d"
    then obtain part where "commonPartition t src dst = Some part"
      using p(8) by auto
    then show ?thesis
      using p(9) commonPartition_SomeD lookupPartition_value [OF wf]
      by (fastforce simp: partition_unchanged_def)
  qed
  have "\<forall>h \<in> set (fp_hops p). port_usable t (hop_outPort h)"
    using enumeratePaths_path_ok [OF p(1)] by (simp add: path_ok_def list_all_iff out_ok_port_usable)
  then show ?thesis
    using p(2-7) part sel endpoints_ready_current [OF enumeratePaths_ready [OF p(1)]]
    by (auto simp: routeDecisionStillAuthoritative_def path_eligible_def
        captured_switches_unchanged captured_ports_unchanged)
qed

section \<open>A healthy fabric\<close>

text \<open>No switch, port or link is out of date, and the policy accepts degraded paths.\<close>

definition all_current :: "FabricTopology \<Rightarrow> bool" where
  "all_current t \<longleftrightarrow>
     (\<forall>r \<in> set (om_values (t_switches t)). currentState (sw_state r)) \<and>
     (\<forall>r \<in> set (om_values (t_ports t)). \<not> entity_stale (po_state r)) \<and>
     (\<forall>l \<in> set (om_values (t_links t)). \<not> entity_stale (li_state l))"

definition accepts_degraded :: "RoutePolicy \<Rightarrow> bool" where
  "accepts_degraded policy \<longleftrightarrow> \<not> rp_requireNonDegradedPath policy \<and>
     \<not> double_bits_positive (rp_requiredMinRelativeBandwidth policy)"

lemma usable_link_integral: "integral t \<Longrightarrow> usable_link t l \<Longrightarrow> link_integral t l"
  by (simp add: integral_def usable_link_def)

lemma link_integral_switches:
  "link_integral t l \<Longrightarrow> \<exists>r. lookupSwitch t (port_sw (li_port l)) = Some r"
  "link_integral t l \<Longrightarrow> isSwitchEnd (li_otherEnd l) \<Longrightarrow>
     \<exists>r. lookupSwitch t (le_sw (li_otherEnd l)) = Some r"
  by (auto simp: link_integral_def end_integral_def dest: not_device_and_switch split: if_splits)

lemma walk_switches_exist:
  "switch_walk t cfg src ls ss \<Longrightarrow> integral t \<Longrightarrow>
   \<forall>s \<in> set ss. \<exists>r. lookupSwitch t s = Some r"
proof (induction rule: switch_walk.induct)
  case (enter l)
  then show ?case
    by (simp add: attaches_def link_integral_switches(1) usable_link_integral)
next
  case (cross ls ss l)
  then show ?case
    by (simp add: crosses_def link_integral_switches(2) usable_link_integral)
qed

lemma healthy_path_eligible:
  assumes wf: "topo_wf t" "integral t" and cur: "all_current t" and pol: "accepts_degraded policy"
    and ok: "path_ok t cfg src dst p"
  shows "path_eligible t policy p"
proof -
  have "\<forall>s \<in> set (fp_switchSequence p). \<exists>r. lookupSwitch t s = Some r"
    using ok wf(2) by (auto simp: path_ok_def fabric_route_def dest: walk_switches_exist)
  then have "switches_current t p"
    using cur topo_wf_values(1) [OF wf(1)]
    by (fastforce simp: switches_current_def list_all_iff all_current_def)
  moreover have port: "port_current t (li_port l)" if "l \<in> set (om_values (t_links t))" for l
    using that wf(2) cur topo_wf_values(2) [OF wf(1)]
    by (fastforce simp: port_current_def all_current_def integral_def link_integral_def)
  have "ports_current t p"
    unfolding ports_current_def list_all_iff
  proof
    fix h assume "h \<in> set (fp_hops p)"
    then have "in_ok t h" "out_ok t h"
      using ok by (simp_all add: path_ok_def list_all_iff)
    then show "(port_isUnknown (hop_inPort h) \<or> port_current t (hop_inPort h)) \<and>
        port_current t (hop_outPort h)"
      using port by (auto simp: in_ok_def out_ok_def port_isUnknown_iff port_current_def
          entity_stale_def traversableState_def)
  qed
  moreover have "links_current t p"
    unfolding links_current_def list_all_iff
  proof
    fix k assume "k \<in> set (fp_links p)"
    then obtain l where "usable_link t l" "li_id l = k"
      using ok fabric_route_links by (fastforce simp: path_ok_def)
    then show "case lookupLink t k of None \<Rightarrow> False | Some l \<Rightarrow> \<not> entity_stale (li_state l)"
      using lookupLink_value [OF wf(1)] cur by (auto simp: usable_link_def all_current_def)
  qed
  ultimately show ?thesis
    using pol by (simp add: path_eligible_def accepts_degraded_def)
qed

lemma candidates_Nil_iff:
  assumes "topo_wf t" "integral t" "all_current t" "accepts_degraded policy"
    and "endpoints_ready t src dst" and "rp_maxAllowedHops policy \<noteq> 0" "rp_maxAllowedHops policy + 1 \<noteq> 0"
  shows "candidates t src dst policy \<noteq> [] \<longleftrightarrow>
    (\<exists>ls ss. fabric_route t (route_config policy) src dst ls ss)"
proof -
  let ?cfg = "route_config policy"
  let ?raw = "enumeratePaths t src dst ?cfg"
  have lim: "0 < unat kMaxPathDepth" "0 < unat kMaxCandidatePaths"
    by (simp_all add: limit_defs)
  have "0 < unat (tc_maxDepth ?cfg)" and paths: "0 < unat (tc_maxPaths ?cfg)"
    unfolding route_config_bounds using lim assms(6,7) by (simp_all only: min_less_iff_conj unat_gt_0 simp_thms)
  then have "tc_maxDepth ?cfg \<noteq> 0"
    by (simp add: unat_gt_0)
  then have "?raw \<noteq> []" if "fabric_route t ?cfg src dst ls ss" for ls ss
    using that paths enumeratePaths_reports [OF assms(5), of ?cfg ls ss] by (auto simp: reported_def)
  moreover have "\<exists>ls ss. fabric_route t ?cfg src dst ls ss" if "?raw \<noteq> []"
    using enumeratePaths_path_ok [OF hd_in_set [OF that]] by (auto simp: path_ok_def)
  moreover have "candidates t src dst policy = map (annotate t) ?raw"
    using healthy_path_eligible [OF assms(1-4) enumeratePaths_path_ok]
    by (simp add: candidates_def eligible_paths_def)
  ultimately show ?thesis by auto
qed

section \<open>Sample decisions\<close>

text \<open>The query from device 1 to device 2, and what it gives on two concrete fabrics.\<close>

definition sample_query :: "FabricTopology \<Rightarrow> RoutePolicy \<Rightarrow> RouteDecision Result" where
  "sample_query t policy = computeRoute t (MkId 1) (MkId 2) policy None (MkId 7) (MkGen 0)
     (MkStringId ''snap1'') 5 (t_epoch t)"

definition sample_decision :: "FabricTopology \<Rightarrow> RoutePolicy \<Rightarrow> RouteDecision" where
  "sample_decision t policy = projr (sample_query t policy)"

lemma sample_query: "sample_query t policy = Inr (sample_decision t policy)"
proof -
  obtain d where "sample_query t policy = Inr d"
    unfolding sample_query_def using computeRoute_total by metis
  then show ?thesis
    by (simp add: sample_decision_def)
qed

lemmas sample_route = sample_query [unfolded sample_query_def]

lemma redundant_selection:
  "map_option (\<lambda>p. (fp_links p, fp_switchSequence p, fp_portGens p))
     (rd_selected (sample_decision redundant_fabric default_RoutePolicy)) =
   Some ([MkId 100, MkId 102], [MkId 10],
     [(MkPortId (MkId 10) 0, MkGen 1), (MkPortId (MkId 10) 1, MkGen 1)])"
  by code_simp

lemma redundant_facts: "topo_wf redundant_fabric \<and> checkIntegrity redundant_fabric = [] \<and>
    all_current redundant_fabric \<and> \<not> anyActivePartition redundant_fabric"
  by code_simp

lemma redundant_selected:
  "rd_selected (sample_decision redundant_fabric default_RoutePolicy) \<noteq> None"
  using redundant_selection by auto

lemma redundant_allowed:
  "outcome_allowed (rd_outcome (sample_decision redundant_fabric default_RoutePolicy))"
  using computeRoute_allowed_iff(1) [OF sample_route] redundant_selected by blast

lemma split_facts: "anyActivePartition split_fabric \<and> topo_wf split_fabric \<and>
    rd_selected (sample_decision split_fabric default_RoutePolicy) \<noteq> None"
  by code_simp

lemma split_allowed: "outcome_allowed (rd_outcome (sample_decision split_fabric default_RoutePolicy))"
  using computeRoute_allowed_iff(1) [OF sample_route] split_facts by blast

section \<open>Properties\<close>

text \<open>
  (C4) An allowed decision selects a path that is a walk of the topology from the source to
  the destination: every link on it is usable and current, no switch is crossed twice, every
  switch is current, every hop leaves through a usable port, the number of hops is within the
  policy's bound, and a policy that requires a non-degraded path does not get a degraded one.
\<close>

theorem computeRoute_sound:
  assumes "computeRoute t src dst policy ms i g snap now epoch = Inr d"
    and "outcome_allowed (rd_outcome d)"
  shows "\<exists>p. rd_selected d = Some p \<and>
    fabric_route t (route_config policy) src dst (fp_links p) (fp_switchSequence p) \<and>
    distinct (fp_switchSequence p) \<and> map hop_sw (fp_hops p) = fp_switchSequence p \<and>
    length (fp_hops p) \<le> unat (rp_maxAllowedHops policy) \<and>
    (\<forall>s \<in> set (fp_switchSequence p). \<exists>r. lookupSwitch t s = Some r \<and> currentState (sw_state r)) \<and>
    (\<forall>h \<in> set (fp_hops p). port_usable t (hop_outPort h)) \<and>
    (\<forall>k \<in> set (fp_links p). \<exists>l. lookupLink t k = Some l \<and> \<not> entity_stale (li_state l)) \<and>
    (rp_requireNonDegradedPath policy \<longrightarrow> fp_state p \<noteq> EntityState.DEGRADED)"
proof -
  obtain best where sel: "rd_selected d = Some best"
    using assms computeRoute_allowed_iff(1) [OF assms(1)] by blast
  then obtain p where p: "p \<in> set (enumeratePaths t src dst (route_config policy))"
    "path_eligible t policy p" "best = annotate t p"
    using computeRoute_selected [OF assms(1)] by metis
  have "\<forall>h \<in> set (fp_hops p). port_usable t (hop_outPort h)"
    and "fabric_route t (route_config policy) src dst (fp_links p) (fp_switchSequence p)"
    and "map hop_sw (fp_hops p) = fp_switchSequence p"
    using enumeratePaths_path_ok [OF p(1)] by (simp_all add: path_ok_def list_all_iff out_ok_port_usable)
  moreover have "\<forall>s \<in> set (fp_switchSequence p). \<exists>r. lookupSwitch t s = Some r \<and> currentState (sw_state r)"
    and "\<forall>k \<in> set (fp_links p). \<exists>l. lookupLink t k = Some l \<and> \<not> entity_stale (li_state l)"
    and "rp_requireNonDegradedPath policy \<longrightarrow> fp_state p \<noteq> EntityState.DEGRADED"
    using p(2) by (fastforce simp: path_eligible_def switches_current_def links_current_def
        list_all_iff split: option.splits)+
  ultimately show ?thesis
    using sel p(3) enumeratePaths_depth [OF p(1)] route_config_bounds(1) [of policy] by simp
qed

theorem computeRoute_sound_witness:
  "\<exists>p. rd_selected (sample_decision redundant_fabric default_RoutePolicy) = Some p \<and>
     fabric_route redundant_fabric (route_config default_RoutePolicy) (MkId 1) (MkId 2)
       (fp_links p) (fp_switchSequence p) \<and>
     length (fp_hops p) \<le> 16"
proof -
  have "unat (rp_maxAllowedHops default_RoutePolicy) = 16"
    by (simp add: default_RoutePolicy_def limit_defs)
  then show ?thesis
    using computeRoute_sound [OF sample_route redundant_allowed] by auto
qed

text \<open>
  (C5) The selected path is a least one: no eligible path of the enumeration ranks before it
  under the policy's factors and the canonical key, and the candidate list is the eligible
  paths in that order.
\<close>

theorem computeRoute_least:
  assumes "computeRoute t src dst policy ms i g snap now epoch = Inr d"
    and "rd_selected d = Some best"
    and "p \<in> set (enumeratePaths t src dst (route_config policy))" and "path_eligible t policy p"
  shows "rank t (bestFor ms src dst) (rp_factors policy) best
      \<le> rank t (bestFor ms src dst) (rp_factors policy) p \<and>
    annotate t p \<in> set (rd_candidatePaths d) \<and>
    sorted (map (rank t (bestFor ms src dst) (rp_factors policy)) (rd_candidatePaths d))"
proof (intro conjI)
  let ?lt = "routeLess t (bestFor ms src dst) (rp_factors policy)"
  have c: "rd_candidatePaths d = stable_sort ?lt (candidates t src dst policy)"
    and hd: "rd_candidatePaths d = best # tl (rd_candidatePaths d)"
    using computeRoute_selected [OF assms(1,2)] by metis+
  have p: "annotate t p \<in> set (candidates t src dst policy)"
    using assms(3,4) by (auto simp: in_candidates)
  then show "annotate t p \<in> set (rd_candidatePaths d)"
    using c by simp
  show "sorted (map (rank t (bestFor ms src dst) (rp_factors policy)) (rd_candidatePaths d))"
    using route_order.sorted_stable_sort [of t "bestFor ms src dst" "rp_factors policy"]
    by (simp add: c sorted_wrt_map routeLess_rank not_less)
  show "rank t (bestFor ms src dst) (rp_factors policy) best
      \<le> rank t (bestFor ms src dst) (rp_factors policy) p"
    using route_order.stable_sort_hd_least [OF _ p] c hd by (metis routeLess_rank not_less rank_annotate)
qed

lemma redundant_other_path:
  "list_ex (\<lambda>p. path_eligible redundant_fabric default_RoutePolicy p \<and> fp_links p = [MkId 101, MkId 103])
     (enumeratePaths redundant_fabric (MkId 1) (MkId 2) (route_config default_RoutePolicy))"
  by code_simp

theorem computeRoute_least_witness:
  "\<exists>best p. rd_selected (sample_decision redundant_fabric default_RoutePolicy) = Some best \<and>
     fp_links p = [MkId 101, MkId 103] \<and>
     rank redundant_fabric (bestFor None (MkId 1) (MkId 2)) (rp_factors default_RoutePolicy) best
       \<le> rank redundant_fabric (bestFor None (MkId 1) (MkId 2)) (rp_factors default_RoutePolicy) p"
proof -
  obtain best where best: "rd_selected (sample_decision redundant_fabric default_RoutePolicy) = Some best"
    using redundant_selected by blast
  obtain p where "p \<in> set (enumeratePaths redundant_fabric (MkId 1) (MkId 2)
      (route_config default_RoutePolicy))"
    "path_eligible redundant_fabric default_RoutePolicy p" "fp_links p = [MkId 101, MkId 103]"
    using redundant_other_path by (auto simp: list_ex_iff)
  with computeRoute_least [OF sample_route best this(1,2)] best show ?thesis by blast
qed



text \<open>
  (C7) In a well-formed, integral fabric whose switches, ports and links are all current, and
  under a policy that accepts degraded paths, the governor allows a route exactly when the
  gates are open and the topology has a walk within the hop bound. The hop bound must not be
  0 nor the largest 64-bit number (whose successor wraps to a path bound of 0).
\<close>

theorem computeRoute_decides_reachability:
  assumes "computeRoute t src dst policy ms i g snap now epoch = Inr d"
    and "topo_wf t" "checkIntegrity t = []" "all_current t" "accepts_degraded policy"
    and "endpoints_ready t src dst"
    and "rp_maxAllowedHops policy \<noteq> 0" "rp_maxAllowedHops policy + 1 \<noteq> 0"
  shows "outcome_allowed (rd_outcome d) \<longleftrightarrow>
    endpoints_current t src dst \<and> partition_gate t policy src dst \<and>
    (\<exists>ls ss. fabric_route t (route_config policy) src dst ls ss)"
  using computeRoute_allowed_iff(1,3) [OF assms(1)] candidates_Nil_iff [of t policy src dst] assms
  by (simp add: checkIntegrity_iff)

theorem computeRoute_decides_reachability_witness:
  "outcome_allowed (rd_outcome (sample_decision redundant_fabric default_RoutePolicy)) \<and>
   (\<exists>ls ss. fabric_route redundant_fabric (route_config default_RoutePolicy) (MkId 1) (MkId 2) ls ss)"
proof -
  have "endpoints_ready redundant_fabric (MkId 1) (MkId 2)"
    using enumeratePaths_ready redundant_path_in by blast
  moreover have "accepts_degraded default_RoutePolicy"
    "rp_maxAllowedHops default_RoutePolicy \<noteq> 0" "rp_maxAllowedHops default_RoutePolicy + 1 \<noteq> 0"
    by (simp_all add: accepts_degraded_def default_RoutePolicy_def double_bits_positive_def limit_defs)
  ultimately show ?thesis
    using computeRoute_decides_reachability [OF sample_route, of redundant_fabric default_RoutePolicy]
      redundant_facts redundant_allowed by blast
qed

text \<open>
  The path bound is \<open>maxAllowedHops + 1\<close> in 64-bit arithmetic: with the largest hop bound
  it wraps to 0 and no route is ever allowed.
\<close>

theorem computeRoute_hop_bound_wraps:
  assumes "computeRoute t src dst policy ms i g snap now epoch = Inr d"
    and "rp_maxAllowedHops policy = 0xFFFFFFFFFFFFFFFF"
  shows "rd_selected d = None \<and> \<not> rd_authoritative d \<and> \<not> outcome_allowed (rd_outcome d)"
proof -
  have "rp_maxAllowedHops policy + 1 = 0"
    unfolding assms(2) by code_simp
  then have "tc_maxPaths (route_config policy) = 0"
    by (simp add: route_config_def)
  then have "candidates t src dst policy = []"
    by (simp add: candidates_def eligible_paths_def enumeratePaths_cases)
  then show ?thesis
    using computeRoute_allowed_iff [OF assms(1)] by simp
qed

theorem computeRoute_hop_bound_wraps_witness:
  "rd_selected (sample_decision redundant_fabric
     (default_RoutePolicy\<lparr>rp_maxAllowedHops := 0xFFFFFFFFFFFFFFFF\<rparr>)) = None"
  using computeRoute_hop_bound_wraps [OF sample_route, of "default_RoutePolicy\<lparr>rp_maxAllowedHops := 0xFFFFFFFFFFFFFFFF\<rparr>"]
  by simp

text \<open>
  (C9) A decision checked against the very topology it was computed on (same epoch) is still
  authoritative exactly when every switch on its path, and every port it enters through, is
  usable: a path through a merely present or supported switch, or in through a port that is
  down, is granted and at once not authoritative.
\<close>

theorem fresh_decision_authoritative:
  assumes "computeRoute t src dst policy ms i g snap now (t_epoch t) = Inr d"
    and "rd_selected d = Some best" and "topo_wf t"
  shows "routeDecisionStillAuthoritative d t \<longleftrightarrow>
    (\<forall>s \<in> set (fp_switchSequence best). switch_usable t s) \<and>
    (\<forall>h \<in> set (fp_hops best). hop_inPort h \<noteq> port_unknown \<longrightarrow> port_usable t (hop_inPort h))"
  using assms by (rule fresh_decision)

theorem fresh_decision_authoritative_witness:
  "\<exists>best. rd_selected (sample_decision redundant_fabric default_RoutePolicy) = Some best \<and>
     (routeDecisionStillAuthoritative (sample_decision redundant_fabric default_RoutePolicy)
        redundant_fabric \<longleftrightarrow>
      switch_usable redundant_fabric (MkId 10) \<and>
      (\<forall>h \<in> set (fp_hops best). hop_inPort h \<noteq> port_unknown \<longrightarrow>
         port_usable redundant_fabric (hop_inPort h)))"
proof -
  obtain best where best: "rd_selected (sample_decision redundant_fabric default_RoutePolicy) = Some best"
    "fp_switchSequence best = [MkId 10]"
    using redundant_selection by auto
  then show ?thesis
    using fresh_decision_authoritative [OF sample_route best(1)] redundant_facts by simp
qed

end
