(* ===== verification/Fabric_Transactions.thy ===== *)
theory Fabric_Transactions
  imports Fabric_Registry Fabric_Governance
begin

text \<open>
  Correctness of the registry's transactions. The contract of an edit is the locale
  \<open>registry_edit\<close>; what \<open>transact\<close> guarantees for an edit that satisfies it is proved once
  there, and every edit of the registry is an interpretation. The operations together form
  a transition system whose reachable states satisfy \<open>reg_inv\<close>.
\<close>

section \<open>The shared tail of the mutations\<close>

text \<open>Sizes within the limits, as \<open>validateCandidate\<close> checks them.\<close>

definition within_limits :: "FabricTopology \<Rightarrow> bool" where
  "within_limits t \<longleftrightarrow>
     length (t_devices t) \<le> unat kMaxDevices \<and> length (t_switches t) \<le> unat kMaxSwitches \<and>
     length (t_ports t) \<le> unat kMaxPorts \<and> length (t_links t) \<le> unat kMaxLinks \<and>
     length (t_partitions t) \<le> unat kMaxPartitions"

text \<open>No generation goes down from one snapshot to the next.\<close>

definition gens_le :: "('v \<Rightarrow> 'tag Gen) \<Rightarrow> ('k, 'v) omap \<Rightarrow> ('k, 'v) omap \<Rightarrow> bool" where
  "gens_le gen old new \<longleftrightarrow>
     (\<forall>k v v'. om_find old k = Some v \<longrightarrow> om_find new k = Some v' \<longrightarrow> gen v \<le> gen v')"

definition gens_monotone :: "FabricTopology \<Rightarrow> FabricTopology \<Rightarrow> bool" where
  "gens_monotone t t' \<longleftrightarrow>
     gens_le sw_gen (t_switches t) (t_switches t') \<and> gens_le po_gen (t_ports t) (t_ports t') \<and>
     gens_le li_gen (t_links t) (t_links t') \<and> gens_le pa_gen (t_partitions t) (t_partitions t') \<and>
     t_topologyGen t \<le> t_topologyGen t'"

lemma gen_le_iff: "a \<le> b \<longleftrightarrow> gen_get a \<le> gen_get b"
  by (simp add: less_eq_Gen_def)

lemma gen_decreased_iff:
  assumes "om_ok new"
  shows "gen_decreased gen old new \<longleftrightarrow> \<not> gens_le gen old new"
proof -
  have "gen_decreased gen old new \<longleftrightarrow>
      (\<exists>x \<in> set new. \<exists>v. om_find old (fst x) = Some v \<and> \<not> gen v \<le> gen (snd x))"
    unfolding gen_decreased_def list_ex_iff gen_le_iff not_le
    by (intro bex_cong) (auto split: option.splits)
  also have "\<dots> \<longleftrightarrow> (\<exists>k v v'. om_find old k = Some v \<and> (k, v') \<in> set new \<and> \<not> gen v \<le> gen v')"
    by force
  also have "\<dots> \<longleftrightarrow> \<not> gens_le gen old new"
    by (auto simp: gens_le_def om_find_eq_Some [OF assms])
  finally show ?thesis .
qed

lemma candidate_problem_None:
  assumes "topo_wf cand"
  shows "candidate_problem old cand = None \<longleftrightarrow>
    integral cand \<and> within_limits cand \<and> gens_monotone old cand"
proof -
  have "om_ok (t_switches cand)" "om_ok (t_ports cand)" "om_ok (t_links cand)"
    "om_ok (t_partitions cand)"
    using assms by (simp_all add: topo_wf_def)
  then show ?thesis
    by (simp add: candidate_problem_def checkIntegrity_iff [OF assms] gen_decreased_iff
        within_limits_def gens_monotone_def gen_le_iff not_less not_le)
qed

text \<open>What stamping a validated candidate changes.\<close>

definition stamped :: "FabricRegistry \<Rightarrow> FabricTopology \<Rightarrow> FabricTopology" where
  "stamped r cand =
     (finalizeProvenance cand)\<lparr>t_id := r_nextSnapshotId r, t_epoch := r_epoch r\<rparr>"

definition published :: "u64 \<Rightarrow> FabricTopology \<Rightarrow> FabricRegistry \<Rightarrow> FabricRegistry" where
  "published now t r = r\<lparr>r_current := t, r_nextSnapshotId := r_nextSnapshotId r + 1,
     r_version := r_version r + 1, r_lastSnapshotNanos := now\<rparr>"

lemma commit_cases:
  assumes "commit pfx now cand r = (res, r')"
  obtains (rejected) e where "res = Inl e" "err_code e = ErrorCode.INVALID_TOPOLOGY" "r' = r"
      "candidate_problem (r_current r) (finalizeProvenance cand) \<noteq> None"
  | (committed) "res = Inr (stamped r cand)" "r' = published now (stamped r cand) r"
      "candidate_problem (r_current r) (finalizeProvenance cand) = None"
  using assms
  by (auto simp: commit_def validateCandidate_def Let_def stamped_def published_def err_def
      split: option.splits)

lemma transact_cases:
  assumes "transact_with pfx edit now r = (res, r')"
  obtains (refused) e where "res = Inl e" "edit (r_current r) = Inl e" "r' = r"
  | (rejected) e cand where "res = Inl e" "err_code e = ErrorCode.INVALID_TOPOLOGY" "r' = r"
      "edit (r_current r) = Inr cand"
      "candidate_problem (r_current r) (finalizeProvenance cand) \<noteq> None"
  | (committed) cand where "edit (r_current r) = Inr cand" "res = Inr (stamped r cand)"
      "r' = published now (stamped r cand) r"
      "candidate_problem (r_current r) (finalizeProvenance cand) = None"
proof (cases "edit (r_current r)")
  case (Inl e)
  then show ?thesis
    using assms by (intro refused [of e]) (auto simp: transact_with_def)
next
  case (Inr cand)
  then have "commit pfx now cand r = (res, r')"
    using assms by (simp add: transact_with_def)
  then show ?thesis
    using Inr by (cases rule: commit_cases) (auto intro: rejected committed)
qed

section \<open>The invariant of the registry\<close>

definition reg_inv :: "FabricRegistry \<Rightarrow> bool" where
  "reg_inv r \<longleftrightarrow>
     topo_wf (r_current r) \<and> integral (r_current r) \<and> within_limits (r_current r) \<and>
     t_provenance (r_current r) = summary_provenance (r_current r) \<and>
     length (r_measurements r) \<le> unat kMaxMeasurements \<and>
     length (r_decisionLog r) \<le> unat kMaxHistory"

lemma finalize_fields [simp]:
  "t_devices (finalizeProvenance c) = t_devices c"
  "t_switches (finalizeProvenance c) = t_switches c"
  "t_ports (finalizeProvenance c) = t_ports c"
  "t_links (finalizeProvenance c) = t_links c"
  "t_partitions (finalizeProvenance c) = t_partitions c"
  "t_topologyGen (finalizeProvenance c) = t_topologyGen c"
  "t_provenance (finalizeProvenance c) = summary_provenance c"
  by (simp_all add: finalizeProvenance_def)

lemma stamped_fields [simp]:
  "t_provenance (stamped r c) = summary_provenance c"
  "t_topologyGen (stamped r c) = t_topologyGen c"
  "t_epoch (stamped r c) = r_epoch r"
  "t_id (stamped r c) = r_nextSnapshotId r"
  "t_devices (stamped r c) = t_devices c"
  "t_switches (stamped r c) = t_switches c"
  "t_ports (stamped r c) = t_ports c"
  "t_links (stamped r c) = t_links c"
  "t_partitions (stamped r c) = t_partitions c"
  by (simp_all add: stamped_def)

text \<open>A predicate that reads the five dictionaries only does not see the stamp.\<close>

lemma same_dictionaries:
  assumes "t_devices a = t_devices b" "t_switches a = t_switches b" "t_ports a = t_ports b"
    "t_links a = t_links b" "t_partitions a = t_partitions b"
  shows "topo_wf a = topo_wf b" and "integral a = integral b"
    and "within_limits a = within_limits b" and "summary_provenance a = summary_provenance b"
    and "lookupDevice a = lookupDevice b" and "lookupSwitch a = lookupSwitch b"
    and "lookupPort a = lookupPort b" and "lookupLink a = lookupLink b"
    and "lookupPartition a = lookupPartition b"
proof -
  show look: "lookupDevice a = lookupDevice b" "lookupSwitch a = lookupSwitch b"
    "lookupPort a = lookupPort b" "lookupLink a = lookupLink b"
    "lookupPartition a = lookupPartition b"
    using assms by (auto simp: lookup_defs)
  show "topo_wf a = topo_wf b"
    unfolding topo_wf_def assms ..
  have "port_integral a = port_integral b" "link_integral a = link_integral b"
    "partition_integral a = partition_integral b"
    unfolding fun_eq_iff port_integral_def link_integral_def end_integral_def
      partition_integral_def look by simp_all
  then show "integral a = integral b"
    unfolding integral_def assms by simp
  show "within_limits a = within_limits b"
    unfolding within_limits_def assms ..
  show "summary_provenance a = summary_provenance b"
    unfolding summary_provenance_def all_provenances_def assms ..
qed

lemmas stamped_simps [simp] = same_dictionaries [of "stamped r c" c for r c, simplified]

lemmas finalize_simps [simp] = same_dictionaries [of "finalizeProvenance c" c for c, simplified]

lemma published_simps [simp]:
  "r_current (published now t r) = t"
  "r_measurements (published now t r) = r_measurements r"
  "r_decisionLog (published now t r) = r_decisionLog r"
  "r_epoch (published now t r) = r_epoch r"
  "r_nextSnapshotId (published now t r) = r_nextSnapshotId r + 1"
  "r_version (published now t r) = r_version r + 1"
  by (simp_all add: published_def)

lemma gens_monotone_simps [simp]:
  "gens_monotone t (finalizeProvenance c) = gens_monotone t c"
  "gens_monotone t (stamped r c) = gens_monotone t c"
  by (simp_all add: gens_monotone_def)

lemma reg_inv_new: "reg_inv FabricRegistry_new"
  by (simp add: reg_inv_def FabricRegistry_new_def default_FabricTopology_def topo_wf_def
      integral_def within_limits_def summary_provenance_def all_provenances_def om_values_def)

section \<open>The contract of an edit\<close>

text \<open>
  An edit keeps the dictionaries well formed. The client facts about \<open>transact\<close> rest on that
  alone: the rest is checked by the validation.
\<close>

locale registry_edit =
  fixes edit :: edit
  assumes edit_wf: "topo_wf t \<Longrightarrow> edit t = Inr c \<Longrightarrow> topo_wf c"
begin

lemma transact_inv:
  assumes "reg_inv r" and "transact_with pfx edit now r = (res, r')"
  shows "reg_inv r'"
  using assms(2)
proof (cases rule: transact_cases)
  case (committed cand)
  then have "topo_wf cand"
    using assms(1) edit_wf by (auto simp: reg_inv_def)
  then show ?thesis
    using committed assms(1) by (simp add: reg_inv_def candidate_problem_None)
qed (use assms(1) in auto)

lemma transact_monotone:
  assumes "topo_wf (r_current r)" and "transact_with pfx edit now r = (Inr t, r')"
  shows "gens_monotone (r_current r) t \<and> integral t \<and> within_limits t \<and> r_current r' = t \<and>
    t_id t = r_nextSnapshotId r \<and> t_epoch t = r_epoch r \<and> r_version r' = r_version r + 1"
  using assms(2)
proof (cases rule: transact_cases)
  case (committed cand)
  then have "topo_wf cand"
    using assms(1) edit_wf by auto
  then show ?thesis
    using committed by (simp add: candidate_problem_None)
qed auto

end

text \<open>
  An edit that advances the topology generation: a committed one advances it strictly, since
  a wrap-around would be a decrease, which the validation refuses.
\<close>

locale bumping_edit = registry_edit +
  assumes edit_bumps: "edit t = Inr c \<Longrightarrow> t_topologyGen c = gen_next (t_topologyGen t)"
begin

lemma transact_advances:
  assumes "topo_wf (r_current r)" and "transact_with pfx edit now r = (Inr t, r')"
  shows "t_topologyGen (r_current r) < t_topologyGen t"
  using assms(2)
proof (cases rule: transact_cases)
  case (committed cand)
  then have "t_topologyGen (r_current r) \<le> t_topologyGen cand"
    using transact_monotone [OF assms] by (simp add: gens_monotone_def)
  moreover have "t_topologyGen cand = gen_next (t_topologyGen (r_current r))"
    using committed edit_bumps by simp
  ultimately show ?thesis
    using committed by (metis gen_next_neq order.strict_iff_order stamped_fields(2) sum.inject(2))
qed auto

end

section \<open>Every edit satisfies the contract\<close>

named_theorems edit_defs \<open>definitions of the registry's edits\<close>

declare addDevice_edit_def [edit_defs] removeDevice_edit_def [edit_defs]
  addSwitch_edit_def [edit_defs] removeSwitch_edit_def [edit_defs]
  setSwitchState_edit_def [edit_defs] restartSwitch_edit_def [edit_defs]
  addPort_edit_def [edit_defs] removePort_edit_def [edit_defs]
  setPortState_edit_def [edit_defs] addLink_edit_def [edit_defs]
  removeLink_edit_def [edit_defs] setLinkState_edit_def [edit_defs]
  publishPartition_edit_def [edit_defs] removePartition_edit_def [edit_defs]
  markPartitionStale_edit_def [edit_defs] publishCongestion_edit_def [edit_defs]
  invalidateForWorker_edit_def [edit_defs] expireDynamicEvidence_edit_def [edit_defs]
  revalidateAll_edit_def [edit_defs] applyBulk_edit_def [edit_defs]

lemma bump_fields [simp]:
  "t_devices (bump t) = t_devices t" "t_switches (bump t) = t_switches t"
  "t_ports (bump t) = t_ports t" "t_links (bump t) = t_links t"
  "t_partitions (bump t) = t_partitions t" "t_topologyGen (bump t) = gen_next (t_topologyGen t)"
  by (simp_all add: bump_def)

lemma staged_partition_id [simp]: "pa_id (staged_partition old part) = pa_id part"
  by (simp add: staged_partition_def Let_def split: option.splits)

lemma fence_ids [simp]:
  "dev_id (fence_device w b d) = dev_id d" "sw_id (fence_switch w b s) = sw_id s"
  "po_id (fence_port w b p) = po_id p" "li_id (fence_link w b l) = li_id l"
  "pa_id (fence_partition w b q) = pa_id q"
  by (simp_all add: fence_device_def fence_switch_def fence_port_def fence_link_def
      fence_partition_def)

lemma merge_degradations_wf:
  "om_ok m \<Longrightarrow> om_keyed li_id m \<Longrightarrow>
   om_ok (fold merge_degradation lds m) \<and> om_keyed li_id (fold merge_degradation lds m)"
proof (induction lds arbitrary: m)
  case (Cons ld lds)
  then have "om_ok (merge_degradation ld m) \<and> om_keyed li_id (merge_degradation ld m)"
    by (auto simp: merge_degradation_def intro!: om_keyed_update)
  with Cons.IH show ?case by simp
qed simp

lemmas wf_simps = topo_wf_def Let_def merge_degradations_wf

interpretation addDevice: bumping_edit "addDevice_edit rec" for rec
  by unfold_locales (auto simp: addDevice_edit_def wf_simps intro!: om_keyed_map om_keyed_update
      split: if_splits option.splits)

interpretation removeDevice: bumping_edit "removeDevice_edit i" for i
  by unfold_locales (auto simp: removeDevice_edit_def wf_simps intro!: om_keyed_map om_keyed_update
      split: if_splits option.splits)

interpretation addSwitch: bumping_edit "addSwitch_edit rec" for rec
  by unfold_locales (auto simp: addSwitch_edit_def wf_simps intro!: om_keyed_map om_keyed_update
      split: if_splits option.splits)

interpretation removeSwitch: bumping_edit "removeSwitch_edit i" for i
  by unfold_locales (auto simp: removeSwitch_edit_def wf_simps intro!: om_keyed_map om_keyed_update
      split: if_splits option.splits)

interpretation setSwitchState: bumping_edit "setSwitchState_edit i st" for i st
  by unfold_locales (auto simp: setSwitchState_edit_def wf_simps intro!: om_keyed_map om_keyed_update
      split: if_splits option.splits)

interpretation restartSwitch: bumping_edit "restartSwitch_edit i g" for i g
  by unfold_locales (auto simp: restartSwitch_edit_def wf_simps intro!: om_keyed_map om_keyed_update
      split: if_splits option.splits)

interpretation addPort: bumping_edit "addPort_edit rec" for rec
  by unfold_locales (auto simp: addPort_edit_def wf_simps intro!: om_keyed_map om_keyed_update
      split: if_splits option.splits)

interpretation removePort: bumping_edit "removePort_edit i" for i
  by unfold_locales (auto simp: removePort_edit_def wf_simps intro!: om_keyed_map om_keyed_update
      split: if_splits option.splits)

interpretation setPortState: bumping_edit "setPortState_edit i st" for i st
  by unfold_locales (auto simp: setPortState_edit_def wf_simps intro!: om_keyed_map om_keyed_update
      split: if_splits option.splits)

interpretation addLink: bumping_edit "addLink_edit rec" for rec
  by unfold_locales (auto simp: addLink_edit_def wf_simps intro!: om_keyed_map om_keyed_update
      split: if_splits option.splits)

interpretation removeLink: bumping_edit "removeLink_edit i" for i
  by unfold_locales (auto simp: removeLink_edit_def wf_simps intro!: om_keyed_map om_keyed_update
      split: if_splits option.splits)

interpretation setLinkState: bumping_edit "setLinkState_edit i st degraded" for i st degraded
  by unfold_locales (auto simp: setLinkState_edit_def wf_simps intro!: om_keyed_map om_keyed_update
      split: if_splits option.splits)

interpretation publishPartition: bumping_edit "publishPartition_edit part" for part
  by unfold_locales (auto simp: publishPartition_edit_def wf_simps intro!: om_keyed_map om_keyed_update
      split: if_splits option.splits)

interpretation removePartition: bumping_edit "removePartition_edit i" for i
  by unfold_locales (auto simp: removePartition_edit_def wf_simps intro!: om_keyed_map om_keyed_update
      split: if_splits option.splits)

interpretation markPartitionStale: bumping_edit "markPartitionStale_edit i" for i
  by unfold_locales (auto simp: markPartitionStale_edit_def wf_simps intro!: om_keyed_map om_keyed_update
      split: if_splits option.splits)

interpretation publishCongestion: bumping_edit "publishCongestion_edit obs" for obs
  by unfold_locales (auto simp: publishCongestion_edit_def wf_simps intro!: om_keyed_map om_keyed_update
      split: if_splits option.splits)

interpretation expireDynamicEvidence: bumping_edit expireDynamicEvidence_edit
  by unfold_locales (auto simp: expireDynamicEvidence_edit_def wf_simps intro!: om_keyed_map om_keyed_update
      split: if_splits option.splits)

interpretation revalidateAll: bumping_edit revalidateAll_edit
  by unfold_locales (auto simp: revalidateAll_edit_def wf_simps intro!: om_keyed_map om_keyed_update
      split: if_splits option.splits)

interpretation applyBulk: bumping_edit "applyBulk_edit e" for e
  by unfold_locales (auto simp: applyBulk_edit_def wf_simps intro!: om_keyed_map om_keyed_update
      split: if_splits option.splits)

interpretation invalidateForWorker: registry_edit "invalidateForWorker_edit w b" for w b
  by unfold_locales (auto simp: invalidateForWorker_edit_def wf_simps intro!: om_keyed_map
      split: if_splits)

section \<open>The registry as a transition system\<close>

text \<open>The operations by name, and one step of the registry.\<close>

datatype RegOp =
    AddDevice DeviceRecord | RemoveDevice DeviceId
  | AddSwitch SwitchRecord | RemoveSwitch SwitchId
  | SetSwitchState SwitchId EntityState | RestartSwitch SwitchId SwitchGeneration
  | AddPort SwitchPortRecord | RemovePort PortId | SetPortState PortId EntityState
  | AddLink LinkRecord | RemoveLink LinkId | SetLinkState LinkId EntityState bool
  | PublishPartition FabricPartition | RemovePartition PartitionId | MarkPartitionStale PartitionId
  | PublishCongestion CongestionObservation | InvalidateForWorker WorkerId WorkerBootId
  | ExpireDynamicEvidence | RevalidateAll | ApplyBulk BulkEdit
  | PublishMeasurement Measurement | RecordDecision RouteDecision
  | Route DeviceId DeviceId RoutePolicy | SetEpoch CoordinatorEpoch
  | BindBackend "Backend option" | ScanBackend

definition apply_op :: "RegOp \<Rightarrow> u64 \<Rightarrow> FabricRegistry \<Rightarrow> FabricRegistry" where
  "apply_op op now r = (case op of
     AddDevice rec \<Rightarrow> snd (addDevice rec now r)
   | RemoveDevice i \<Rightarrow> snd (removeDevice i now r)
   | AddSwitch rec \<Rightarrow> snd (addSwitch rec now r)
   | RemoveSwitch i \<Rightarrow> snd (removeSwitch i now r)
   | SetSwitchState i st \<Rightarrow> snd (setSwitchState i st now r)
   | RestartSwitch i g \<Rightarrow> snd (restartSwitch i g now r)
   | AddPort rec \<Rightarrow> snd (addPort rec now r)
   | RemovePort i \<Rightarrow> snd (removePort i now r)
   | SetPortState i st \<Rightarrow> snd (setPortState i st now r)
   | AddLink rec \<Rightarrow> snd (addLink rec now r)
   | RemoveLink i \<Rightarrow> snd (removeLink i now r)
   | SetLinkState i st degraded \<Rightarrow> snd (setLinkState i st degraded now r)
   | PublishPartition part \<Rightarrow> snd (publishPartition part now r)
   | RemovePartition i \<Rightarrow> snd (removePartition i now r)
   | MarkPartitionStale i \<Rightarrow> snd (markPartitionStale i now r)
   | PublishCongestion c \<Rightarrow> snd (publishCongestion c now r)
   | InvalidateForWorker w b \<Rightarrow> snd (invalidateForWorker w b now r)
   | ExpireDynamicEvidence \<Rightarrow> snd (expireDynamicEvidence now r)
   | RevalidateAll \<Rightarrow> snd (revalidateAll now r)
   | ApplyBulk e \<Rightarrow> snd (applyBulk e now r)
   | PublishMeasurement m \<Rightarrow> snd (publishMeasurement m r)
   | RecordDecision d \<Rightarrow> snd (recordDecision d r)
   | Route src dst policy \<Rightarrow> snd (route src dst policy now r)
   | SetEpoch e \<Rightarrow> setEpoch e r
   | BindBackend b \<Rightarrow> snd (bindBackend b r)
   | ScanBackend \<Rightarrow> snd (scanBackend now r))"

inductive reg_reaches :: "FabricRegistry \<Rightarrow> FabricRegistry \<Rightarrow> bool" for r where
  reg_refl: "reg_reaches r r"
| reg_step: "reg_reaches r r' \<Longrightarrow> reg_reaches r (apply_op op now r')"

inductive_cases reg_reachesE: "reg_reaches r r'"

text \<open>
  One shape for all operations: an optional change of the registry's own logs, then a
  transaction of one edit, or nothing.
\<close>

lemmas op_defs = addDevice_def removeDevice_def addSwitch_def removeSwitch_def setSwitchState_def
  restartSwitch_def addPort_def removePort_def setPortState_def addLink_def removeLink_def
  setLinkState_def publishPartition_def removePartition_def markPartitionStale_def
  publishCongestion_def invalidateForWorker_def revalidateAll_def applyBulk_def
  applyBackendScan_def applyScenarioToRegistry_def

fun op_edit :: "RegOp \<Rightarrow> (string \<times> edit) option" where
  "op_edit (AddDevice rec) = Some ([], addDevice_edit rec)"
| "op_edit (RemoveDevice i) = Some ([], removeDevice_edit i)"
| "op_edit (AddSwitch srec) = Some ([], addSwitch_edit srec)"
| "op_edit (RemoveSwitch s) = Some ([], removeSwitch_edit s)"
| "op_edit (SetSwitchState s st) = Some ([], setSwitchState_edit s st)"
| "op_edit (RestartSwitch s g) = Some ([], restartSwitch_edit s g)"
| "op_edit (AddPort prec) = Some ([], addPort_edit prec)"
| "op_edit (RemovePort p) = Some ([], removePort_edit p)"
| "op_edit (SetPortState p st) = Some ([], setPortState_edit p st)"
| "op_edit (AddLink lrec) = Some ([], addLink_edit lrec)"
| "op_edit (RemoveLink l) = Some ([], removeLink_edit l)"
| "op_edit (SetLinkState l st degraded) = Some ([], setLinkState_edit l st degraded)"
| "op_edit (PublishPartition part) = Some ([], publishPartition_edit part)"
| "op_edit (RemovePartition q) = Some ([], removePartition_edit q)"
| "op_edit (MarkPartitionStale q) = Some ([], markPartitionStale_edit q)"
| "op_edit (PublishCongestion c) = Some ([], publishCongestion_edit c)"
| "op_edit (InvalidateForWorker w b) = Some ([], invalidateForWorker_edit w b)"
| "op_edit RevalidateAll = Some ([], revalidateAll_edit)"
| "op_edit (ApplyBulk e) = Some (''bulk rejected: '', applyBulk_edit e)"
| "op_edit op = None"

lemma apply_op_edit:
  "op_edit op = Some (pfx, edit) \<Longrightarrow> apply_op op now r = snd (transact_with pfx edit now r)"
  by (cases op) (auto simp: apply_op_def op_defs)

lemma op_edit_contract: "op_edit op = Some (pfx, edit) \<Longrightarrow> registry_edit edit"
  by (cases op)
    (auto intro: addDevice.registry_edit_axioms removeDevice.registry_edit_axioms
      addSwitch.registry_edit_axioms removeSwitch.registry_edit_axioms
      setSwitchState.registry_edit_axioms restartSwitch.registry_edit_axioms
      addPort.registry_edit_axioms removePort.registry_edit_axioms
      setPortState.registry_edit_axioms addLink.registry_edit_axioms
      removeLink.registry_edit_axioms setLinkState.registry_edit_axioms
      publishPartition.registry_edit_axioms removePartition.registry_edit_axioms
      markPartitionStale.registry_edit_axioms publishCongestion.registry_edit_axioms
      invalidateForWorker.registry_edit_axioms revalidateAll.registry_edit_axioms
      applyBulk.registry_edit_axioms)

lemma op_edit_bumps:
  "op_edit op = Some (pfx, edit) \<Longrightarrow> \<nexists>w b. op = InvalidateForWorker w b \<Longrightarrow> bumping_edit edit"
  by (cases op)
    (auto intro: addDevice.bumping_edit_axioms removeDevice.bumping_edit_axioms
      addSwitch.bumping_edit_axioms removeSwitch.bumping_edit_axioms
      setSwitchState.bumping_edit_axioms restartSwitch.bumping_edit_axioms
      addPort.bumping_edit_axioms removePort.bumping_edit_axioms
      setPortState.bumping_edit_axioms addLink.bumping_edit_axioms
      removeLink.bumping_edit_axioms setLinkState.bumping_edit_axioms
      publishPartition.bumping_edit_axioms removePartition.bumping_edit_axioms
      markPartitionStale.bumping_edit_axioms publishCongestion.bumping_edit_axioms
      revalidateAll.bumping_edit_axioms applyBulk.bumping_edit_axioms)

lemma length_log_decision: "length xs \<le> unat kMaxHistory \<Longrightarrow> length (log_decision d xs) \<le> unat kMaxHistory"
  by (auto simp: log_decision_def Let_def)

lemma reg_inv_publishMeasurement: "reg_inv r \<Longrightarrow> reg_inv (snd (publishMeasurement m r))"
  by (auto simp: reg_inv_def publishMeasurement_def Let_def limit_defs)

lemma reg_inv_route: "reg_inv r \<Longrightarrow> reg_inv (snd (route src dst policy now r))"
  by (auto simp: reg_inv_def route_def route_draw_def route_log_def Let_def length_log_decision
      split: sum.splits)

lemma reg_inv_applyBulk: "reg_inv r \<Longrightarrow> reg_inv (snd (applyBulk e now r))"
  unfolding applyBulk_def using applyBulk.transact_inv by (metis prod.collapse)

lemma reg_inv_expire: "reg_inv r \<Longrightarrow> reg_inv (snd (expireDynamicEvidence now r))"
proof -
  assume "reg_inv r"
  then have "reg_inv (r\<lparr>r_measurements := map (\<lambda>m. m\<lparr>me_matched := False\<rparr>) (r_measurements r)\<rparr>)"
    by (simp add: reg_inv_def)
  then show ?thesis
    unfolding expireDynamicEvidence_def using expireDynamicEvidence.transact_inv by (metis prod.collapse)
qed

lemma snd_scanBackend:
  "snd (scanBackend now r) = r \<or> (\<exists>e. snd (scanBackend now r) = snd (applyBulk e now r))"
proof (cases "r_backend r")
  case (Some b)
  have "snd (case x of (Inl e, r') \<Rightarrow> (Inl e, r') | (Inr _, r') \<Rightarrow> (Inr (), r')) = snd x"
    for x :: "FabricTopology Result \<times> FabricRegistry"
    by (auto split: prod.splits sum.splits)
  then show ?thesis
    using Some by (auto simp: scanBackend_def applyBackendScan_def split: sum.splits)
qed (simp add: scanBackend_def)

lemma reg_inv_scanBackend: "reg_inv r \<Longrightarrow> reg_inv (snd (scanBackend now r))"
  using reg_inv_applyBulk snd_scanBackend by metis

lemma reg_inv_other:
  assumes "reg_inv r"
  shows "reg_inv (setEpoch e r)" and "reg_inv (snd (bindBackend b r))"
    and "reg_inv (snd (recordDecision d r))"
  using assms by (simp_all add: reg_inv_def setEpoch_def bindBackend_def recordDecision_def
      length_log_decision split: option.splits)

lemma reg_inv_apply_op:
  assumes "reg_inv r"
  shows "reg_inv (apply_op op now r)"
proof (cases "op_edit op")
  case (Some pe)
  then show ?thesis
    using assms apply_op_edit registry_edit.transact_inv [OF op_edit_contract]
    by (cases pe) (metis prod.collapse)
next
  case None
  then show ?thesis
    using assms
    by (cases op) (auto simp: apply_op_def reg_inv_publishMeasurement reg_inv_route reg_inv_expire
        reg_inv_scanBackend reg_inv_other)
qed

lemma reg_reaches_inv: "reg_reaches r r' \<Longrightarrow> reg_inv r \<Longrightarrow> reg_inv r'"
  by (induction rule: reg_reaches.induct) (auto intro: reg_inv_apply_op)

section \<open>Provenance\<close>

lemma in_insert_all:
  assumes "v \<in> set vs"
  shows "\<exists>v' \<in> set vs. v' \<in> set (om_values (om_insert_all key vs m))"
proof -
  obtain v' where v': "find (\<lambda>x. key x = key v) (rev vs) = Some v'"
    using assms by (metis (mono_tags, lifting) find_None_iff not_Some_eq set_rev)
  then have "v' \<in> set vs"
    unfolding find_Some_iff by (metis length_rev nth_mem set_rev)
  moreover have "om_find (om_insert_all key vs m) (key v) = Some v'"
    using v' by (simp add: om_find_insert_all)
  ultimately show ?thesis
    by (force simp: om_values_def dest: om_find_Some_in)
qed

lemma scenario_has_switch: "type \<noteq> EMPTY \<Longrightarrow> sc_switches (buildSyntheticScan type) \<noteq> []"
  by (cases type) (simp_all add: buildSyntheticScan_def scenario_steps_def scan_step_defs four_def
      empty_scan_def)

lemma scenario_provenance:
  assumes "applyBulk_edit (bulk_of_scan (buildSyntheticScan type)) t = Inr c" and "type \<noteq> EMPTY"
  shows "summary_provenance c = Provenance.SYNTHETIC"
proof -
  obtain s where s: "s \<in> set (sc_switches (buildSyntheticScan type))"
    using hd_in_set [OF scenario_has_switch [OF assms(2)]] by blast
  then obtain s' where "s' \<in> set (sc_switches (buildSyntheticScan type))"
    "s' \<in> set (om_values (t_switches c))"
    using assms(1) in_insert_all [OF s, of sw_id "t_switches t"]
    by (auto simp: applyBulk_edit_def bulk_of_scan_def)
  moreover from this have "sw_provenance s' = Provenance.SYNTHETIC"
    using scan_synthetic_build [of type] by (simp add: scan_synthetic_def)
  ultimately have "Provenance.SYNTHETIC \<in> sw_provenance ` set (om_values (t_switches c))"
    by (metis imageI)
  then show ?thesis
    by (simp add: summary_provenance_def all_provenances_def)
qed

section \<open>Sample registries\<close>

definition sample_registry :: "ScenarioType \<Rightarrow> FabricRegistry" where
  "sample_registry type = snd (applyScenarioToRegistry type 5 FabricRegistry_new)"

definition sample_answer :: "FabricRegistry \<Rightarrow> RouteDecision" where
  "sample_answer r = projr (fst (route (MkId 1) (MkId 2) default_RoutePolicy 7 r))"

abbreviation pair_registry :: FabricRegistry where
  "pair_registry \<equiv> sample_registry SINGLE_SWITCH_TWO_GPU"

lemma reg_inv_sample: "reg_inv (sample_registry type)"
  unfolding sample_registry_def applyScenarioToRegistry_def
  by (rule reg_inv_applyBulk [OF reg_inv_new])

lemma sample_reached: "reg_reaches FabricRegistry_new (sample_registry type)"
  using reg_reaches.reg_step [OF reg_reaches.reg_refl, of FabricRegistry_new
      "ApplyBulk (bulk_of_scan (buildSyntheticScan type))" 5]
  by (simp add: apply_op_def sample_registry_def applyScenarioToRegistry_def)

lemma pair_commits:
  "\<not> isl (fst (applyScenarioToRegistry SINGLE_SWITCH_TWO_GPU 5 FabricRegistry_new)) \<and>
   \<not> isl (fst (setSwitchState (MkId 10) EntityState.DOWN 9 pair_registry)) \<and>
   isl (fst (addSwitch (makeSyntheticSwitch (MkId 10) ''x'' 2) 9 pair_registry))"
  by code_simp

section \<open>Properties\<close>

text \<open>
  (C10) The invariant of the registry: in every state it can reach, the snapshot is well
  formed, passes the integrity check, is within the resource limits and carries the
  provenance summary of its records, and the measurement history and the decision log are
  within their bounds.
\<close>

theorem registry_invariant:
  assumes "reg_reaches FabricRegistry_new r"
  shows "topo_wf (snapshot r) \<and> checkIntegrity (snapshot r) = [] \<and> within_limits (snapshot r) \<and>
    t_provenance (snapshot r) = summary_provenance (snapshot r) \<and>
    length (r_measurements r) \<le> unat kMaxMeasurements \<and> length (r_decisionLog r) \<le> unat kMaxHistory"
  using reg_reaches_inv [OF assms reg_inv_new]
  by (simp add: reg_inv_def snapshot_def checkIntegrity_iff)

theorem registry_invariant_witness:
  "reg_reaches FabricRegistry_new pair_registry \<and> checkIntegrity (snapshot pair_registry) = [] \<and>
   within_limits (snapshot pair_registry)"
  using registry_invariant [OF sample_reached] sample_reached by blast





text \<open>
  Synthetic records are never presented as hardware: applying a non-empty synthetic
  scenario publishes a snapshot whose provenance is \<open>SYNTHETIC\<close>, whatever real records the
  registry already holds.
\<close>

theorem scenario_is_synthetic:
  assumes "fst (applyScenarioToRegistry type now r) = Inr t" and "type \<noteq> EMPTY"
  shows "t_provenance t = Provenance.SYNTHETIC"
proof -
  obtain r' where "transact_with ''bulk rejected: '' (applyBulk_edit (bulk_of_scan (buildSyntheticScan type)))
      now r = (Inr t, r')"
    using assms(1) by (metis applyBulk_def applyScenarioToRegistry_def prod.collapse)
  then show ?thesis
    by (cases rule: transact_cases) (auto simp: scenario_provenance [OF _ assms(2)])
qed

theorem scenario_is_synthetic_witness:
  "\<exists>t. fst (applyScenarioToRegistry SINGLE_SWITCH_TWO_GPU 5 FabricRegistry_new) = Inr t \<and>
     t_provenance t = Provenance.SYNTHETIC"
proof -
  obtain t where "fst (applyScenarioToRegistry SINGLE_SWITCH_TWO_GPU 5 FabricRegistry_new) = Inr t"
    using pair_commits by (metis sum.collapse(2))
  with scenario_is_synthetic [OF this] show ?thesis by blast
qed

end
