(* ===== verification/Fabric_Persistence.thy ===== *)
theory Fabric_Persistence
  imports Fabric_Wire Fabric_Transactions
begin

text \<open>
  Persistence (\<open>persistence.h\<close>, \<open>persistence.cpp\<close>): the record codecs, the topology payload, the
  file image with its two checksums, and the file operations.

  An encoder is the list of bytes it appends to its \<open>ByteWriter\<close>; a decoder is a parser in
  the sense of \<open>Fabric_Wire\<close>, which fails at the first read that fails.
  The file system is a map from paths to contents; a crash can only occur between two of its
  steps.
\<close>

section \<open>Record codecs\<close>

definition encodeDevice :: "DeviceRecord \<Rightarrow> bytes" where
  "encodeDevice r =
     put_u64 (get (dev_id r)) @ put_str (dg_name (dev_generation r))
     @ put_bool (dg_observed (dev_generation r))
     @ put_bool (dev_present r) @ put_str (dev_backendId r) @ put_str (dev_vendor r)
     @ put_str (dev_product r)
     @ put_u8 (EntityState_to_u8 (dev_state r)) @ put_str (sid_value (dev_partition r))
     @ put_u64 (get (dev_attachedSwitch r)) @ put_bool (dev_attachedSwitchKnown r)
     @ put_str (sid_value (dev_worker r)) @ put_bool (dev_workerKnown r) @ put_u64 (dev_workerBoot r)
     @ put_u8 (Provenance_to_u8 (dev_provenance r)) @ put_u8 (EvidenceSource_to_u8 (dev_source r))
     @ put_u64 (gen_get (dev_topologyGen r))"

definition decodeDevice :: "DeviceRecord parser" where
  "decodeDevice r = do {
     (id, r) \<leftarrow> get_u64 r; (name, r) \<leftarrow> get_str r; (go, r) \<leftarrow> get_bool r; (present, r) \<leftarrow> get_bool r;
     (backendId, r) \<leftarrow> get_str r; (vendor, r) \<leftarrow> get_str r; (product, r) \<leftarrow> get_str r;
     (st, r) \<leftarrow> get_u8 r; (partition, r) \<leftarrow> get_str r; (sw, r) \<leftarrow> get_u64 r; (ask, r) \<leftarrow> get_bool r;
     (worker, r) \<leftarrow> get_str r; (wk, r) \<leftarrow> get_bool r; (wb, r) \<leftarrow> get_u64 r;
     (p, r) \<leftarrow> get_u8 r; (s, r) \<leftarrow> get_u8 r; (tg, r) \<leftarrow> get_u64 r;
     Some (\<lparr>dev_id = MkId id, dev_generation = \<lparr>dg_name = name, dg_observed = go\<rparr>,
       dev_present = present, dev_backendId = backendId, dev_vendor = vendor,
       dev_product = product, dev_state = EntityState_of_u8 st,
       dev_partition = MkStringId partition, dev_attachedSwitch = MkId sw,
       dev_attachedSwitchKnown = ask, dev_worker = MkStringId worker, dev_workerKnown = wk,
       dev_workerBoot = wb, dev_provenance = Provenance_of_u8 p,
       dev_source = EvidenceSource_of_u8 s, dev_topologyGen = MkGen tg\<rparr>, r)}"

definition encodeSwitch :: "SwitchRecord \<Rightarrow> bytes" where
  "encodeSwitch r =
     put_u64 (get (sw_id r)) @ put_u64 (gen_get (sw_gen r)) @ put_str (sw_generationName r)
     @ put_bool (sw_generationObserved r) @ put_str (sw_vendor r) @ put_str (sw_product r)
     @ put_str (sw_family r)
     @ put_u32 (sw_portCount r) @ put_u8 (EntityState_to_u8 (sw_state r))
     @ put_str (sid_value (sw_fabric r)) @ put_bool (sw_fabricKnown r)
     @ put_str (sid_value (sw_partition r)) @ put_bool (sw_partitionKnown r)
     @ put_str (sid_value (sw_worker r)) @ put_bool (sw_workerKnown r)
     @ put_u64 (sw_workerBoot r) @ put_u8 (Provenance_to_u8 (sw_provenance r))
     @ put_u8 (EvidenceSource_to_u8 (sw_source r)) @ put_u64 (gen_get (sw_topologyGen r))"

definition decodeSwitch :: "SwitchRecord parser" where
  "decodeSwitch r = do {
     (id, r) \<leftarrow> get_u64 r; (g, r) \<leftarrow> get_u64 r; (generationName, r) \<leftarrow> get_str r;
     (go, r) \<leftarrow> get_bool r; (vendor, r) \<leftarrow> get_str r; (product, r) \<leftarrow> get_str r;
     (family, r) \<leftarrow> get_str r; (pc, r) \<leftarrow> get_u32 r; (st, r) \<leftarrow> get_u8 r;
     (fabric, r) \<leftarrow> get_str r; (fk, r) \<leftarrow> get_bool r; (partition, r) \<leftarrow> get_str r;
     (pk, r) \<leftarrow> get_bool r; (worker, r) \<leftarrow> get_str r; (wk, r) \<leftarrow> get_bool r;
     (wb, r) \<leftarrow> get_u64 r; (p, r) \<leftarrow> get_u8 r; (s, r) \<leftarrow> get_u8 r; (tg, r) \<leftarrow> get_u64 r;
     Some (\<lparr>sw_id = MkId id, sw_gen = MkGen g, sw_generationName = generationName,
       sw_generationObserved = go, sw_vendor = vendor, sw_product = product, sw_family = family,
       sw_portCount = pc, sw_state = EntityState_of_u8 st, sw_fabric = MkStringId fabric,
       sw_fabricKnown = fk, sw_partition = MkStringId partition, sw_partitionKnown = pk,
       sw_worker = MkStringId worker, sw_workerKnown = wk, sw_workerBoot = wb,
       sw_provenance = Provenance_of_u8 p, sw_source = EvidenceSource_of_u8 s,
       sw_topologyGen = MkGen tg\<rparr>, r)}"

definition encodePort :: "SwitchPortRecord \<Rightarrow> bytes" where
  "encodePort r =
     put_u64 (get (port_sw (po_id r))) @ put_u32 (port_index (po_id r)) @ put_u64 (gen_get (po_gen r))
     @ put_u8 (LinkEndKind_to_u8 (le_kind (po_attached r)))
     @ put_u64 (get (le_device (po_attached r))) @ put_u64 (get (le_sw (po_attached r)))
     @ put_bool (po_attachedKnown r) @ put_u8 (EntityState_to_u8 (po_state r))
     @ put_u32 (po_activeLinkCount r) @ put_bool (po_activeLinkCountKnown r)
     @ put_u64 (po_nominalBandwidthMBps r) @ put_bool (po_nominalBandwidthKnown r)
     @ put_str (sid_value (po_worker r)) @ put_bool (po_workerKnown r) @ put_u64 (po_workerBoot r)
     @ put_u8 (Provenance_to_u8 (po_provenance r)) @ put_u8 (EvidenceSource_to_u8 (po_source r))
     @ put_u64 (gen_get (po_topologyGen r))"

definition decodePort :: "SwitchPortRecord parser" where
  "decodePort r = do {
     (sw, r) \<leftarrow> get_u64 r; (idx, r) \<leftarrow> get_u32 r; (g, r) \<leftarrow> get_u64 r; (kind, r) \<leftarrow> get_u8 r;
     (dv, r) \<leftarrow> get_u64 r; (sw2, r) \<leftarrow> get_u64 r; (ak, r) \<leftarrow> get_bool r; (st, r) \<leftarrow> get_u8 r;
     (alc, r) \<leftarrow> get_u32 r; (alck, r) \<leftarrow> get_bool r; (nb, r) \<leftarrow> get_u64 r; (nbk, r) \<leftarrow> get_bool r;
     (worker, r) \<leftarrow> get_str r; (wk, r) \<leftarrow> get_bool r; (wb, r) \<leftarrow> get_u64 r;
     (p, r) \<leftarrow> get_u8 r; (s, r) \<leftarrow> get_u8 r; (tg, r) \<leftarrow> get_u64 r;
     Some (\<lparr>po_id = MkPortId (MkId sw) idx, po_gen = MkGen g,
       po_attached = \<lparr>le_kind = LinkEndKind_of_u8 kind, le_device = MkId dv, le_sw = MkId sw2\<rparr>,
       po_attachedKnown = ak, po_state = EntityState_of_u8 st, po_activeLinkCount = alc,
       po_activeLinkCountKnown = alck, po_nominalBandwidthMBps = nb,
       po_nominalBandwidthKnown = nbk, po_worker = MkStringId worker, po_workerKnown = wk,
       po_workerBoot = wb, po_provenance = Provenance_of_u8 p,
       po_source = EvidenceSource_of_u8 s, po_topologyGen = MkGen tg\<rparr>, r)}"

definition encodeLink :: "LinkRecord \<Rightarrow> bytes" where
  "encodeLink r =
     put_u64 (get (li_id r)) @ put_u64 (gen_get (li_gen r)) @ put_u64 (get (li_rootSwitch r))
     @ put_u64 (get (port_sw (li_port r))) @ put_u32 (port_index (li_port r))
     @ put_u8 (LinkEndKind_to_u8 (le_kind (li_otherEnd r)))
     @ put_u64 (get (le_device (li_otherEnd r))) @ put_u64 (get (le_sw (li_otherEnd r)))
     @ put_bool (li_otherEndKnown r) @ put_u8 (EntityState_to_u8 (li_state r))
     @ put_bool (li_degraded r)
     @ put_str (sid_value (li_worker r)) @ put_bool (li_workerKnown r) @ put_u64 (li_workerBoot r)
     @ put_u8 (Provenance_to_u8 (li_provenance r)) @ put_u8 (EvidenceSource_to_u8 (li_source r))
     @ put_u64 (gen_get (li_topologyGen r))"

definition decodeLink :: "LinkRecord parser" where
  "decodeLink r = do {
     (id, r) \<leftarrow> get_u64 r; (g, r) \<leftarrow> get_u64 r; (rs, r) \<leftarrow> get_u64 r; (psw, r) \<leftarrow> get_u64 r;
     (pidx, r) \<leftarrow> get_u32 r; (kind, r) \<leftarrow> get_u8 r; (dv, r) \<leftarrow> get_u64 r; (sw, r) \<leftarrow> get_u64 r;
     (ok, r) \<leftarrow> get_bool r; (st, r) \<leftarrow> get_u8 r; (dg, r) \<leftarrow> get_bool r; (worker, r) \<leftarrow> get_str r;
     (wk, r) \<leftarrow> get_bool r; (wb, r) \<leftarrow> get_u64 r; (p, r) \<leftarrow> get_u8 r; (s, r) \<leftarrow> get_u8 r;
     (tg, r) \<leftarrow> get_u64 r;
     Some (\<lparr>li_id = MkId id, li_gen = MkGen g, li_rootSwitch = MkId rs,
       li_port = MkPortId (MkId psw) pidx,
       li_otherEnd = \<lparr>le_kind = LinkEndKind_of_u8 kind, le_device = MkId dv, le_sw = MkId sw\<rparr>,
       li_otherEndKnown = ok, li_state = EntityState_of_u8 st, li_degraded = dg,
       li_worker = MkStringId worker, li_workerKnown = wk, li_workerBoot = wb,
       li_provenance = Provenance_of_u8 p, li_source = EvidenceSource_of_u8 s,
       li_topologyGen = MkGen tg\<rparr>, r)}"

text \<open>\<open>w.u32((uint32_t)xs.size()); for (auto x : xs) w.u64(x.get())\<close>\<close>

definition put_count :: "'a list \<Rightarrow> bytes" where
  "put_count xs = put_u32 (word_of_nat (length xs))"

definition get_id :: "'tag Id parser" where
  "get_id r = do { (v, r) \<leftarrow> get_u64 r; Some (MkId v, r) }"

definition encodePartition :: "FabricPartition \<Rightarrow> bytes" where
  "encodePartition r =
     put_str (sid_value (pa_id r)) @ put_u64 (gen_get (pa_gen r)) @ put_str (sid_value (pa_fabric r))
     @ put_count (pa_members r) @ concat (map (\<lambda>m. put_u64 (get m)) (pa_members r))
     @ put_count (pa_switches r) @ concat (map (\<lambda>s. put_u64 (get s)) (pa_switches r))
     @ put_u8 (PartitionState_to_u8 (pa_state r))
     @ put_str (sid_value (pa_worker r)) @ put_bool (pa_workerKnown r) @ put_u64 (pa_workerBoot r)
     @ put_u8 (Provenance_to_u8 (pa_provenance r)) @ put_u8 (EvidenceSource_to_u8 (pa_source r))
     @ put_u64 (gen_get (pa_topologyGen r))"

definition decodePartition :: "FabricPartition parser" where
  "decodePartition r = do {
     (id, r) \<leftarrow> get_str r; (g, r) \<leftarrow> get_u64 r; (fabric, r) \<leftarrow> get_str r;
     (mc, r) \<leftarrow> get_u32 r;
     if mc > kMaxDevices then None else do {
     (members, r) \<leftarrow> get_many get_id (unat mc) r;
     (sc, r) \<leftarrow> get_u32 r;
     if sc > kMaxSwitches then None else do {
     (switches, r) \<leftarrow> get_many get_id (unat sc) r;
     (st, r) \<leftarrow> get_u8 r; (worker, r) \<leftarrow> get_str r; (wk, r) \<leftarrow> get_bool r; (wb, r) \<leftarrow> get_u64 r;
     (p, r) \<leftarrow> get_u8 r; (s, r) \<leftarrow> get_u8 r; (tg, r) \<leftarrow> get_u64 r;
     Some (\<lparr>pa_id = MkStringId id, pa_gen = MkGen g, pa_fabric = MkStringId fabric,
       pa_members = members, pa_switches = switches, pa_state = PartitionState_of_u8 st,
       pa_worker = MkStringId worker, pa_workerKnown = wk, pa_workerBoot = wb,
       pa_provenance = Provenance_of_u8 p, pa_source = EvidenceSource_of_u8 s,
       pa_topologyGen = MkGen tg\<rparr>, r)}}}"

section \<open>The topology payload\<close>

definition encodeTopologyPayload :: "FabricTopology \<Rightarrow> bytes" where
  "encodeTopologyPayload t =
     put_u64 (t_id t) @ put_u64 (gen_get (t_topologyGen t)) @ put_u64 (gen_get (t_fabricGen t))
     @ put_u64 (t_epoch t) @ put_u8 (Provenance_to_u8 (t_provenance t)) @ put_str (t_label t)
     @ put_bool (t_persisted t)
     @ put_count (t_devices t) @ concat (map encodeDevice (om_values (t_devices t)))
     @ put_count (t_switches t) @ concat (map encodeSwitch (om_values (t_switches t)))
     @ put_count (t_ports t) @ concat (map encodePort (om_values (t_ports t)))
     @ put_count (t_links t) @ concat (map encodeLink (om_values (t_links t)))
     @ put_count (t_partitions t) @ concat (map encodePartition (om_values (t_partitions t)))"

text \<open>\<open>for (i < n) { rec; if (!decode(r, rec)) fail; if (m.count(rec.id)) fail; m[rec.id] = rec; }\<close>\<close>

fun decode_entries ::
    "'v parser \<Rightarrow> ('v \<Rightarrow> 'k::linorder) \<Rightarrow> nat \<Rightarrow> ('k, 'v) omap \<Rightarrow> ('k, 'v) omap parser" where
  "decode_entries rd key 0 m r = Some (m, r)"
| "decode_entries rd key (Suc n) m r = do {
     (rec, r) \<leftarrow> rd r;
     if om_count m (key rec) then None else decode_entries rd key n (om_insert (key rec) rec m) r}"

text \<open>The count, its bound, and the entries.\<close>

definition decode_dictionary ::
    "u32 \<Rightarrow> 'v parser \<Rightarrow> ('v \<Rightarrow> 'k::linorder) \<Rightarrow> ('k, 'v) omap parser" where
  "decode_dictionary bound rd key r = do {
     (n, r) \<leftarrow> get_u32 r;
     if n > bound then None else decode_entries rd key (unat n) [] r}"

definition decodeTopologyFields :: "FabricTopology parser" where
  "decodeTopologyFields r = do {
     (id, r) \<leftarrow> get_u64 r; (tg, r) \<leftarrow> get_u64 r; (fg, r) \<leftarrow> get_u64 r; (ep, r) \<leftarrow> get_u64 r;
     (pv, r) \<leftarrow> get_u8 r; (label, r) \<leftarrow> get_str r; (per, r) \<leftarrow> get_bool r;
     (devices, r) \<leftarrow> decode_dictionary kMaxDevices decodeDevice dev_id r;
     (switches, r) \<leftarrow> decode_dictionary kMaxSwitches decodeSwitch sw_id r;
     (ports, r) \<leftarrow> decode_dictionary kMaxPorts decodePort po_id r;
     (links, r) \<leftarrow> decode_dictionary kMaxLinks decodeLink li_id r;
     (partitions, r) \<leftarrow> decode_dictionary kMaxPartitions decodePartition pa_id r;
     Some (\<lparr>t_id = id, t_topologyGen = MkGen tg, t_fabricGen = MkGen fg, t_epoch = ep,
       t_provenance = Provenance_of_u8 pv, t_label = label, t_persisted = per,
       t_devices = devices, t_switches = switches, t_ports = ports, t_links = links,
       t_partitions = partitions\<rparr>, r)}"

definition integrityErr :: Error where
  "integrityErr = err ErrorCode.INTEGRITY_FAILURE ''corrupt persistence''"

definition unsupportedFuture :: Error where
  "unsupportedFuture = err ErrorCode.UNSUPPORTED ''unsupported future persistence version''"

definition decodeTopologyPayload :: "bytes \<Rightarrow> FabricTopology Result" where
  "decodeTopologyPayload r = (case decodeTopologyFields r of
       None \<Rightarrow> Inl integrityErr
     | Some (t, r) \<Rightarrow>
         if r \<noteq> [] then Inl integrityErr
         else (case checkIntegrity t of
                 v # _ \<Rightarrow> Inl (err ErrorCode.INTEGRITY_FAILURE v)
               | [] \<Rightarrow> Inr t))"

definition encodeTopology :: "FabricTopology \<Rightarrow> bytes Result" where
  "encodeTopology topo = Inr (encodeTopologyPayload topo)"

definition decodeTopology :: "bytes \<Rightarrow> FabricTopology Result" where
  "decodeTopology v = decodeTopologyPayload v"

section \<open>The file image\<close>

definition kMagic :: bytes where
  "kMagic = map byte_of_char ''NVSFFAB1''"

definition kFormatVersion :: u32 where
  "kFormatVersion = 1"

definition serialize :: "FabricRegistry \<Rightarrow> bytes Result" where
  "serialize reg =
     (let head = kMagic @ put_u32 kFormatVersion;
          payload = encodeTopologyPayload (snapshot reg)
      in Inr (head @ put_u32 (crc32 (take 12 head)) @ payload @ put_u32 (crc32 payload)))"

definition restored :: "FabricTopology \<Rightarrow> FabricRegistry" where
  "restored t = FabricRegistry_new\<lparr>r_current := t, r_version := 1, r_lastSnapshotNanos := 0,
     r_nextSnapshotId := t_id t + 1, r_epoch := t_epoch t\<rparr>"

definition deserialize :: "bytes \<Rightarrow> FabricRegistry Result" where
  "deserialize data =
     (if length data < 8 + 4 + 4 + 4 then Inl integrityErr
      else case get_bytes 8 data of
        None \<Rightarrow> Inl integrityErr
      | Some (mag, r) \<Rightarrow>
      if mag \<noteq> kMagic then Inl integrityErr
      else case get_u32 r of
        None \<Rightarrow> Inl integrityErr
      | Some (ver, r) \<Rightarrow>
      if ver \<noteq> kFormatVersion then
        (if ver > kFormatVersion then Inl unsupportedFuture else Inl integrityErr)
      else case get_u32 r of
        None \<Rightarrow> Inl integrityErr
      | Some (hdrCrc, r) \<Rightarrow>
      if crc32 (take 12 data) \<noteq> hdrCrc then Inl integrityErr
      else
        let headPos = length data - length r; payloadLen = length data - headPos - 4 in
        if payloadLen = 0 then Inl integrityErr
        else
          let payload = take payloadLen (drop headPos data);
              storedCrc = gather 4 (drop (headPos + payloadLen) data)
          in if storedCrc \<noteq> crc32 payload then Inl integrityErr
             else case decodeTopology payload of
                    Inl e \<Rightarrow> Inl e
                  | Inr t \<Rightarrow> Inr (restored t))"

section \<open>Files\<close>

type_synonym filesystem = "string \<rightharpoonup> bytes"

text \<open>The steps of \<open>writeFileAtomic\<close>: truncate the temporary file, write it, remove the target,
  rename.\<close>

definition tmp_path :: "string \<Rightarrow> string" where
  "tmp_path path = path @ ''.tmp''"

definition write_steps :: "string \<Rightarrow> bytes \<Rightarrow> (filesystem \<Rightarrow> filesystem) list" where
  "write_steps path data =
     [\<lambda>fs. fs(tmp_path path \<mapsto> []),
      \<lambda>fs. fs(tmp_path path \<mapsto> data),
      \<lambda>fs. fs(path := None),
      \<lambda>fs. fs(path := fs (tmp_path path), tmp_path path := None)]"

definition run_steps :: "(filesystem \<Rightarrow> filesystem) list \<Rightarrow> filesystem \<Rightarrow> filesystem" where
  "run_steps fs_steps fs = fold (\<lambda>f. f) fs_steps fs"

definition writeFileAtomic :: "string \<Rightarrow> bytes \<Rightarrow> filesystem \<Rightarrow> filesystem" where
  "writeFileAtomic path data fs = run_steps (write_steps path data) fs"

definition serializeToFile :: "FabricRegistry \<Rightarrow> string \<Rightarrow> filesystem \<Rightarrow> unit Result \<times> filesystem" where
  "serializeToFile reg path fs = (case serialize reg of
       Inl e \<Rightarrow> (Inl e, fs)
     | Inr data \<Rightarrow>
         if length data > unat kMaxPersistenceBytes
         then (Inl (err ErrorCode.RESOURCE_LIMIT ''persistence too large''), fs)
         else (Inr (), writeFileAtomic path data fs))"

definition deserializeFromFile :: "string \<Rightarrow> filesystem \<Rightarrow> FabricRegistry Result" where
  "deserializeFromFile path fs = (case fs path of
       None \<Rightarrow> Inl (err ErrorCode.NOT_FOUND ''persistence file not found'')
     | Some data \<Rightarrow>
         if length data > unat kMaxPersistenceBytes
         then Inl (err ErrorCode.RESOURCE_LIMIT ''persistence too large'')
         else deserialize data)"

definition persistTo :: "string \<Rightarrow> FabricRegistry \<Rightarrow> filesystem \<Rightarrow> unit Result \<times> filesystem" where
  "persistTo path reg fs = serializeToFile reg path fs"

definition restoreFrom :: "string \<Rightarrow> filesystem \<Rightarrow> FabricRegistry Result" where
  "restoreFrom path fs = deserializeFromFile path fs"

section \<open>What can be read back\<close>

definition device_ok :: "DeviceRecord \<Rightarrow> bool" where
  "device_ok r \<longleftrightarrow>
     str_ok (dg_name (dev_generation r)) \<and> str_ok (dev_backendId r) \<and> str_ok (dev_vendor r) \<and>
     str_ok (dev_product r) \<and> str_ok (sid_value (dev_partition r)) \<and> str_ok (sid_value (dev_worker r)) \<and>
     EntityState_canonical (dev_state r) \<and> Provenance_canonical (dev_provenance r) \<and>
     EvidenceSource_canonical (dev_source r)"

definition switch_ok :: "SwitchRecord \<Rightarrow> bool" where
  "switch_ok r \<longleftrightarrow>
     str_ok (sw_generationName r) \<and> str_ok (sw_vendor r) \<and> str_ok (sw_product r) \<and>
     str_ok (sw_family r) \<and> str_ok (sid_value (sw_fabric r)) \<and> str_ok (sid_value (sw_partition r)) \<and>
     str_ok (sid_value (sw_worker r)) \<and>
     EntityState_canonical (sw_state r) \<and> Provenance_canonical (sw_provenance r) \<and>
     EvidenceSource_canonical (sw_source r)"

definition port_ok :: "SwitchPortRecord \<Rightarrow> bool" where
  "port_ok r \<longleftrightarrow>
     str_ok (sid_value (po_worker r)) \<and> LinkEndKind_canonical (le_kind (po_attached r)) \<and>
     EntityState_canonical (po_state r) \<and> Provenance_canonical (po_provenance r) \<and>
     EvidenceSource_canonical (po_source r)"

definition link_ok :: "LinkRecord \<Rightarrow> bool" where
  "link_ok r \<longleftrightarrow>
     str_ok (sid_value (li_worker r)) \<and> LinkEndKind_canonical (le_kind (li_otherEnd r)) \<and>
     EntityState_canonical (li_state r) \<and> Provenance_canonical (li_provenance r) \<and>
     EvidenceSource_canonical (li_source r)"

definition partition_ok :: "FabricPartition \<Rightarrow> bool" where
  "partition_ok r \<longleftrightarrow>
     str_ok (sid_value (pa_id r)) \<and> str_ok (sid_value (pa_fabric r)) \<and> str_ok (sid_value (pa_worker r)) \<and>
     length (pa_members r) \<le> unat kMaxDevices \<and> length (pa_switches r) \<le> unat kMaxSwitches \<and>
     PartitionState_canonical (pa_state r) \<and> Provenance_canonical (pa_provenance r) \<and>
     EvidenceSource_canonical (pa_source r)"

text \<open>Strings of at most 64 MiB, enumeration values proper, and partitions whose lists are within the
  decoder's bounds.\<close>

definition persistable :: "FabricTopology \<Rightarrow> bool" where
  "persistable t \<longleftrightarrow>
     str_ok (t_label t) \<and> Provenance_canonical (t_provenance t) \<and>
     list_all device_ok (om_values (t_devices t)) \<and> list_all switch_ok (om_values (t_switches t)) \<and>
     list_all port_ok (om_values (t_ports t)) \<and> list_all link_ok (om_values (t_links t)) \<and>
     list_all partition_ok (om_values (t_partitions t))"

section \<open>The record codecs read back\<close>

text \<open>A decoder built from parsers is a parser.\<close>

lemma parser_bind:
  "parser rd \<Longrightarrow> (\<And>x. parser (rd' x)) \<Longrightarrow> parser (\<lambda>bs. Option.bind (rd bs) (\<lambda>(x, bs). rd' x bs))"
  by (fastforce simp: parser_def bind_Some_iff)

lemma parser_return: "parser (\<lambda>bs. Some (x, bs))"
  by (simp add: parser_def)

lemma parser_fail: "parser (\<lambda>bs. None)"
  by (simp add: parser_def)

lemma parser_if: "parser rd \<Longrightarrow> parser rd' \<Longrightarrow> parser (\<lambda>bs. if c then rd bs else rd' bs)"
  by (simp add: parser_def)

lemma parser_many: "parser rd \<Longrightarrow> parser (get_many rd n)"
  by (meson get_many_consumes parser.intro)

lemmas parser_intros = parser_bind parser_return parser_fail parser_if parser_many
  u8c.parser_axioms u32c.parser_axioms u64c.parser_axioms boolc.parser_axioms strc.parser_axioms

interpretation idc: exact_codec get_id "\<lambda>i. put_u64 (get i)" "\<lambda>_. True"
  by unfold_locales (auto simp: get_id_def bind_Some_iff dest: u64c.consumes u64c.exact)

lemma parser_records:
  "parser decodeDevice" "parser decodeSwitch" "parser decodePort" "parser decodeLink"
  "parser decodePartition"
  unfolding decodeDevice_def [abs_def] decodeSwitch_def [abs_def] decodePort_def [abs_def]
    decodeLink_def [abs_def] decodePartition_def [abs_def]
  by (intro parser_intros idc.parser_axioms)+

interpretation devc: codec decodeDevice encodeDevice device_ok
  by (intro codec.intro parser_records codec_axioms.intro)
    (simp add: decodeDevice_def encodeDevice_def device_ok_def)

interpretation swc: codec decodeSwitch encodeSwitch switch_ok
  by (intro codec.intro parser_records codec_axioms.intro)
    (simp add: decodeSwitch_def encodeSwitch_def switch_ok_def)

interpretation poc: codec decodePort encodePort port_ok
  by (intro codec.intro parser_records codec_axioms.intro)
    (simp add: decodePort_def encodePort_def port_ok_def)

interpretation lic: codec decodeLink encodeLink link_ok
  by (intro codec.intro parser_records codec_axioms.intro)
    (simp add: decodeLink_def encodeLink_def link_ok_def)

lemma count_back:
  "length xs \<le> unat (b :: u32) \<Longrightarrow> unat (word_of_nat (length xs) :: u32) = length xs"
  "length xs \<le> unat (b :: u32) \<Longrightarrow> \<not> b < word_of_nat (length xs)"
proof -
  assume le: "length xs \<le> unat b"
  moreover have "unat b < 2 ^ LENGTH(32)"
    by (rule unsigned_less)
  ultimately show n: "unat (word_of_nat (length xs) :: u32) = length xs"
    by (intro unat_u32_of_nat) simp
  with le show "\<not> b < word_of_nat (length xs)"
    by (simp add: word_less_nat_alt)
qed

lemma ids_back: "get_many get_id (length xs) (concat (map (\<lambda>i. put_u64 (get i)) xs) @ r) = Some (xs, r)"
  by (rule idc.read_many_back) (simp add: list_all_iff)

interpretation pac: codec decodePartition encodePartition partition_ok
proof (intro codec.intro parser_records codec_axioms.intro)
  fix x rest assume ok: "partition_ok x"
  note counts = count_back [of "pa_members x" kMaxDevices] count_back [of "pa_switches x" kMaxSwitches]
  show "decodePartition (encodePartition x @ rest) = Some (x, rest)"
    using ok counts by (simp add: decodePartition_def encodePartition_def partition_ok_def put_count_def ids_back)
qed

section \<open>Dictionaries\<close>

context codec
begin

text \<open>A dictionary whose records carry their keys is read back from the concatenation of its
  records.\<close>

lemma entries_back:
  assumes "om_ok (m @ m')" "om_keyed key m'" "list_all ok (om_values m')"
  shows "decode_entries rd key (length m') m (concat (map wr (om_values m')) @ rest) = Some (m @ m', rest)"
  using assms
proof (induction m' arbitrary: m)
  case Nil
  then show ?case by (simp add: om_values_def)
next
  case (Cons e m')
  obtain k x where e: "e = (k, x)" by (cases e)
  have less: "\<forall>y \<in> fst ` set m. y < k"
    using Cons.prems(1) by (auto simp: om_ok_def e sorted_wrt_append)
  then have new: "\<not> om_count m k"
    by (auto simp: om_count_iff)
  have k: "key x = k" "om_keyed key m'" "ok x" "list_all ok (om_values m')"
    using Cons.prems(2,3) by (auto simp: om_keyed_def e om_values_def)
  show ?case
    using Cons.IH [of "m @ [e]"] Cons.prems(1) k new om_insert_last [OF less, of x]
    by (simp add: om_values_def e read_back)
qed

lemma dictionary_back:
  assumes "om_ok m" "om_keyed key m" "list_all ok (om_values m)" "length m \<le> unat bound"
  shows "decode_dictionary bound rd key (put_count m @ concat (map wr (om_values m)) @ rest) = Some (m, rest)"
  using entries_back [of "[]" m] assms count_back [OF assms(4)]
  by (simp add: decode_dictionary_def put_count_def)

end

text \<open>Whatever it reads, the decoder builds an ordered dictionary of at most \<open>n\<close> new records, each under
  its own key.\<close>

lemma decode_entries_wf:
  assumes "decode_entries rd key n m r = Some (m', rest)" "om_ok m" "om_keyed key m"
  shows "om_ok m' \<and> om_keyed key m' \<and> length m' \<le> length m + n"
  using assms
proof (induction n arbitrary: m r)
  case (Suc n)
  then obtain x r' where "decode_entries rd key n (om_insert (key x) x m) r' = Some (m', rest)"
    by (auto simp: bind_Some_iff split: if_splits)
  then show ?case
    using Suc.IH Suc.prems(2,3) length_om_insert [of "key x" x m] by fastforce
qed simp

lemma decode_dictionary_wf:
  assumes "decode_dictionary bound rd key r = Some (m, rest)"
  shows "om_ok m \<and> om_keyed key m \<and> length m \<le> unat bound"
proof -
  obtain n r' where "decode_entries rd key (unat n) [] r' = Some (m, rest)" "n \<le> bound"
    using assms by (auto simp: decode_dictionary_def bind_Some_iff not_less split: if_splits)
  then show ?thesis
    using decode_entries_wf [of rd key "unat n" "[]" r' m rest] by (auto simp: word_le_nat_alt)
qed

section \<open>The payload\<close>

lemma fields_back:
  assumes "topo_wf t" "within_limits t" "persistable t"
  shows "decodeTopologyFields (encodeTopologyPayload t @ rest) = Some (t, rest)"
proof -
  note d = devc.dictionary_back [of "t_devices t" dev_id kMaxDevices]
    swc.dictionary_back [of "t_switches t" sw_id kMaxSwitches]
    poc.dictionary_back [of "t_ports t" po_id kMaxPorts]
    lic.dictionary_back [of "t_links t" li_id kMaxLinks]
    pac.dictionary_back [of "t_partitions t" pa_id kMaxPartitions]
  show ?thesis
    using assms
    by (simp add: decodeTopologyFields_def encodeTopologyPayload_def topo_wf_def within_limits_def
        persistable_def d)
qed

lemma fields_wf:
  assumes "decodeTopologyFields r = Some (t, rest)"
  shows "topo_wf t \<and> within_limits t"
proof -
  obtain r1 r2 r3 r4 r5 r6 where
    "decode_dictionary kMaxDevices decodeDevice dev_id r1 = Some (t_devices t, r2)"
    "decode_dictionary kMaxSwitches decodeSwitch sw_id r2 = Some (t_switches t, r3)"
    "decode_dictionary kMaxPorts decodePort po_id r3 = Some (t_ports t, r4)"
    "decode_dictionary kMaxLinks decodeLink li_id r4 = Some (t_links t, r5)"
    "decode_dictionary kMaxPartitions decodePartition pa_id r5 = Some (t_partitions t, r6)"
    using assms by (auto simp: decodeTopologyFields_def bind_Some_iff)
  from this [THEN decode_dictionary_wf] show ?thesis
    by (simp add: topo_wf_def within_limits_def)
qed

lemma decodeTopology_cases:
  "decodeTopology bs = Inr t \<longleftrightarrow> decodeTopologyFields bs = Some (t, []) \<and> checkIntegrity t = []"
  by (auto simp: decodeTopology_def decodeTopologyPayload_def split: option.splits list.splits if_splits)

section \<open>The file image\<close>

definition file_header :: bytes where
  "file_header = kMagic @ put_u32 kFormatVersion @ put_u32 (crc32 (kMagic @ put_u32 kFormatVersion))"

lemma length_put_u32 [simp]: "length (put_u32 v) = 4"
  by (simp add: put_u32_def)

lemma length_kMagic [simp]: "length kMagic = 8"
  by (simp add: kMagic_def)

lemma length_file_header [simp]: "length file_header = 16"
  by (simp add: file_header_def)

lemma serialize_image:
  "serialize reg = Inr (file_header @ encodeTopologyPayload (snapshot reg)
     @ put_u32 (crc32 (encodeTopologyPayload (snapshot reg))))"
  by (simp add: serialize_def file_header_def Let_def)

text \<open>A file with the right header is decided by its tail, the payload and the stored checksum.\<close>

lemma deserialize_header:
  assumes "length st = 4"
  shows "deserialize (file_header @ payload @ st) =
    (if payload = [] \<or> gather 4 st \<noteq> crc32 payload then Inl integrityErr
     else case decodeTopology payload of Inl e \<Rightarrow> Inl e | Inr t \<Rightarrow> Inr (restored t))"
  using assms by (simp add: deserialize_def file_header_def Let_def get_bytes_def)

lemma get_u32_enough: "length bs \<ge> 4 \<Longrightarrow> \<exists>v. get_u32 bs = Some (v, drop 4 bs)"
  by (simp add: get_u32_def)

lemma deserialize_bad_header:
  assumes "take 16 data \<noteq> file_header"
  shows "deserialize data = Inl integrityErr \<or> deserialize data = Inl unsupportedFuture"
proof (rule ccontr)
  assume bad: "\<not> ?thesis"
  have len: "length data \<ge> 20"
  proof (rule ccontr)
    assume "\<not> length data \<ge> 20"
    then have "deserialize data = Inl integrityErr"
      by (simp add: deserialize_def)
    with bad show False by simp
  qed
  define r where "r = drop 8 data"
  have mag: "take 8 data = kMagic"
    using bad len by (auto simp: deserialize_def get_bytes_def split: if_splits)
  obtain ver where ver: "get_u32 r = Some (ver, drop 4 r)"
    using len get_u32_enough [of r] by (auto simp: r_def le_diff_conv2)
  have v: "ver = kFormatVersion"
    using bad len mag ver by (auto simp: deserialize_def get_bytes_def r_def split: if_splits)
  obtain h where h: "get_u32 (drop 4 r) = Some (h, drop 8 r)"
    using len get_u32_enough [of "drop 4 r"] by (auto simp: r_def le_diff_conv2)
  have "crc32 (take 12 data) = h"
    using bad len mag ver v h by (auto simp: deserialize_def get_bytes_def r_def split: if_splits)
  moreover have "data = kMagic @ put_u32 ver @ put_u32 h @ drop 8 r"
    using u32c.exact [OF ver] u32c.exact [OF h] mag by (metis append_take_drop_id r_def)
  ultimately have "take 16 data = file_header"
    using v by (simp add: file_header_def)
  with assms show False ..
qed

lemma deserialize_split:
  assumes "deserialize data = Inr r"
  obtains payload st where "data = file_header @ payload @ st" "length st = 4"
    "gather 4 st = crc32 payload" "\<exists>t. decodeTopology payload = Inr t \<and> r = restored t"
proof -
  have len: "length data \<ge> 20" and h: "take 16 data = file_header"
    using assms deserialize_bad_header [of data] by (auto simp: deserialize_def split: if_splits)
  define payload st where "payload = take (length data - 20) (drop 16 data)"
    and "st = drop (length data - 20) (drop 16 data)"
  have data: "data = file_header @ payload @ st"
    using h by (metis append_take_drop_id payload_def st_def)
  moreover have "length st = 4"
    using len by (simp add: st_def)
  ultimately show thesis
    using that [of payload st] assms deserialize_header [of st payload]
    by (auto split: if_splits sum.splits)
qed

lemma crc_reach: "\<exists>c. fold crc_update bs c = d"
proof -
  have "inj (fold crc_update bs)"
    by (simp add: inj_def fold_crc_inject)
  then have "surj (fold crc_update bs)"
    by (simp add: finite_UNIV_inj_surj)
  then show ?thesis
    by (metis surjD)
qed

lemma restored_simps [simp]:
  "snapshot (restored t) = t" "r_current (restored t) = t" "r_measurements (restored t) = []"
  "r_decisionLog (restored t) = []" "r_epoch (restored t) = t_epoch t"
  by (simp_all add: restored_def snapshot_def FabricRegistry_new_def)

lemma serialize_deserialize:
  assumes "topo_wf (snapshot r)" "checkIntegrity (snapshot r) = []" "within_limits (snapshot r)"
    "persistable (snapshot r)"
  shows "\<exists>data. serialize r = Inr data \<and> deserialize data = Inr (restored (snapshot r)) \<and> 20 < length data"
proof -
  define payload where "payload = encodeTopologyPayload (snapshot r)"
  have "decodeTopology payload = Inr (snapshot r)"
    using fields_back [OF assms(1,3,4), of "[]"] assms(2) by (simp add: decodeTopology_cases payload_def)
  moreover have "payload \<noteq> []"
    by (simp add: payload_def encodeTopologyPayload_def put_u64_def scatter_def)
  moreover have "gather 4 (put_u32 v) = v" for v
    using u32c.read_back [of v "[]"] by (simp add: get_u32_def split: if_splits)
  ultimately show ?thesis
    using deserialize_header [of "put_u32 (crc32 payload)" payload]
    by (cases payload) (simp_all add: serialize_image payload_def)
qed

text \<open>The registry of the samples can be persisted.\<close>

lemma pair_persistable: "persistable (snapshot pair_registry)"
  by code_simp

definition pair_image :: bytes where
  "pair_image = projr (serialize pair_registry)"

lemma pair_image_accepted:
  "deserialize pair_image = Inr (restored (snapshot pair_registry))" "20 < length pair_image"
  "serialize pair_registry = Inr pair_image"
  using serialize_deserialize [of pair_registry] reg_inv_sample pair_persistable
  by (auto simp: reg_inv_def snapshot_def checkIntegrity_iff pair_image_def)

lemma length_image: "serialize r = Inr data \<Longrightarrow> length data = length (encodeTopologyPayload (snapshot r)) + 20"
  by (auto simp: serialize_image)

lemma pair_image_small: "length pair_image \<le> 65536"
proof -
  have "length (encodeTopologyPayload (snapshot pair_registry)) \<le> 10000"
    by code_simp
  then show ?thesis
    unfolding length_image [OF pair_image_accepted(3)] by linarith
qed

section \<open>Properties\<close>

text \<open>
  (C23) Topologies survive the wire: a well-formed, integral topology within the limits whose
  strings, enumeration values and partition lists are in range is decoded exactly as it was
  encoded.
\<close>

theorem topology_roundtrip:
  assumes "topo_wf t" "checkIntegrity t = []" "within_limits t" "persistable t"
  shows "decodeTopology (encodeTopologyPayload t) = Inr t"
  using assms fields_back [OF assms(1,3,4), of "[]"] by (simp add: decodeTopology_cases)

theorem topology_roundtrip_witness:
  "decodeTopology (encodeTopologyPayload (snapshot pair_registry)) = Inr (snapshot pair_registry)"
  by (rule topology_roundtrip)
    (use reg_inv_sample pair_persistable in \<open>auto simp: reg_inv_def snapshot_def checkIntegrity_iff\<close>)

text \<open>
  (C24) Nothing malformed gets in: whatever bytes are decoded, a topology that comes out is well
  formed (each dictionary ordered, without duplicates, every record under its own identity),
  passes the integrity check and is within the resource limits; anything else is reported as
  \<open>INTEGRITY_FAILURE\<close>.
\<close>

theorem decodeTopology_sound:
  "case decodeTopology bs of
     Inr t \<Rightarrow> topo_wf t \<and> checkIntegrity t = [] \<and> within_limits t
   | Inl e \<Rightarrow> err_code e = ErrorCode.INTEGRITY_FAILURE"
proof (cases "decodeTopology bs")
  case (Inl e)
  then show ?thesis
    by (auto simp: decodeTopology_def decodeTopologyPayload_def integrityErr_def err_def
        split: option.splits list.splits if_splits)
next
  case (Inr t)
  then have "decodeTopologyFields bs = Some (t, []) \<and> checkIntegrity t = []"
    by (simp add: decodeTopology_cases)
  with Inr show ?thesis
    using fields_wf by fastforce
qed

lemma restored_image:
  assumes "reg_reaches FabricRegistry_new r" and "persistable (snapshot r)"
    and "fst (persistTo path r fs) = Inr ()"
  shows "restoreFrom path (snd (persistTo path r fs)) = Inr (restored (snapshot r))"
proof -
  have inv: "topo_wf (snapshot r)" "checkIntegrity (snapshot r) = []" "within_limits (snapshot r)"
    using reg_reaches_inv [OF assms(1) reg_inv_new] by (auto simp: reg_inv_def snapshot_def checkIntegrity_iff)
  from serialize_deserialize [OF this assms(2)] obtain data where "serialize r = Inr data"
    "deserialize data = Inr (restored (snapshot r))"
    by blast
  then show ?thesis
    using assms(3)
    by (simp add: persistTo_def serializeToFile_def restoreFrom_def deserializeFromFile_def
        writeFileAtomic_def run_steps_def write_steps_def tmp_path_def split: if_splits)
qed



text \<open>
  (C26) Corruption is rejected: if a file is accepted, then no file that differs from it within
  four consecutive bytes, wherever they are, is accepted; such a file is answered with the
  corruption error or, when its version field is larger, with the error of a future version.
\<close>

theorem corrupted_file_rejected:
  assumes "deserialize (xs @ bs @ zs) = Inr r" "length cs = length bs" "length bs \<le> 4" "cs \<noteq> bs"
  shows "deserialize (xs @ cs @ zs) = Inl integrityErr \<or>
    deserialize (xs @ cs @ zs) = Inl unsupportedFuture"
proof (cases "take 16 (xs @ cs @ zs) = file_header")
  case False
  then show ?thesis by (rule deserialize_bad_header)
next
  case True
  obtain payload st where d: "xs @ bs @ zs = file_header @ payload @ st" "length st = 4"
    "gather 4 st = crc32 payload"
    using deserialize_split [OF assms(1)] .
  define tail where "tail = drop 16 (xs @ cs @ zs)"
  have tail: "xs @ cs @ zs = file_header @ tail" "length tail = length payload + 4"
    using True append_take_drop_id [of 16 "xs @ cs @ zs"] arg_cong [OF d(1), of length] d(2) assms(2)
    by (simp_all add: tail_def)
  define payload' st' where "payload' = take (length payload) tail" and "st' = drop (length payload) tail"
  have t': "tail = payload' @ st'" "length st' = 4"
    using tail(2) by (simp_all add: payload'_def st'_def)
  obtain c where c: "fold crc_update file_header c = 0xFFFFFFFF"
    using crc_reach by blast
  have "fold crc_update (xs @ cs @ zs) c \<noteq> fold crc_update (xs @ bs @ zs) c"
    using crc_burst assms(2-4) by metis
  then have "fold crc_update (payload' @ st') 0xFFFFFFFF \<noteq> fold crc_update (payload @ st) 0xFFFFFFFF"
    using c unfolding d(1) tail(1) t'(1) by simp
  then have "gather 4 st' \<noteq> crc32 payload'"
    using crc_residue [OF d(2)] crc_residue [OF t'(2)] d(3) by metis
  then show ?thesis
    using deserialize_header [OF t'(2), of payload'] tail(1) t'(1) by simp
qed

theorem corrupted_file_rejected_witness:
  "\<exists>e. deserialize (take 20 pair_image @ [pair_image ! 20 + 1] @ drop 21 pair_image) = Inl e"
proof -
  have "take 20 pair_image @ [pair_image ! 20] @ drop 21 pair_image = pair_image"
    using pair_image_accepted(2) id_take_nth_drop [of 20 pair_image] by simp
  then show ?thesis
    using corrupted_file_rejected [of "take 20 pair_image" "[pair_image ! 20]" "drop 21 pair_image" _
        "[pair_image ! 20 + 1]"] pair_image_accepted(1) by auto
qed


end
