(* ===== verification/Fabric_Transport.thy ===== *)
theory Fabric_Transport
  imports Fabric_Wire
begin

text \<open>
  The framed transport (\<open>runtime/transport.h\<close>, \<open>runtime/transport.cpp\<close>): the frame codec, the
  incremental frame reader, and the socket wrapper.

  The reader's loop is \<open>feed_loop\<close>, which ends because every frame it takes shortens the buffer.
  The operating system under the socket is a record of functions, a parameter of the socket
  operations; \<open>send\<close> is a list of the numbers it returns in turn.
\<close>

section \<open>Frames\<close>

datatype MsgType =
    HELLO | REGISTER | PUBLISH_TOPOLOGY | PUBLISH_MEASUREMENT | QUERY_ROUTE | ROUTE_RESULT
    | WORKER_READY | PING | PONG | ERROR

definition MsgType_to_u8 :: "MsgType \<Rightarrow> u8" where
  "MsgType_to_u8 m = (case m of HELLO \<Rightarrow> 1 | REGISTER \<Rightarrow> 2 | PUBLISH_TOPOLOGY \<Rightarrow> 3
     | PUBLISH_MEASUREMENT \<Rightarrow> 4 | QUERY_ROUTE \<Rightarrow> 5 | ROUTE_RESULT \<Rightarrow> 6 | WORKER_READY \<Rightarrow> 7
     | PING \<Rightarrow> 8 | PONG \<Rightarrow> 9 | ERROR \<Rightarrow> 10)"

definition validMsgType :: "u8 \<Rightarrow> bool" where
  "validMsgType v \<longleftrightarrow> 1 \<le> v \<and> v \<le> 10"

text \<open>The cast from a byte, which the code only makes after \<open>validMsgType\<close>.\<close>

definition MsgType_of_u8 :: "u8 \<Rightarrow> MsgType" where
  "MsgType_of_u8 b = [HELLO, REGISTER, PUBLISH_TOPOLOGY, PUBLISH_MEASUREMENT, QUERY_ROUTE,
     ROUTE_RESULT, WORKER_READY, PING, PONG, ERROR] ! (unat b - 1)"

record Frame =
  fr_type :: MsgType
  fr_payload :: bytes

definition kFrameMagic :: u32 where "kFrameMagic = 0x4E564631"
definition kFrameVersion :: u8 where "kFrameVersion = 1"
definition kHeader :: nat where "kHeader = 16"

definition frame_head :: "Frame \<Rightarrow> bytes" where
  "frame_head f = put_u32 kFrameMagic @ put_u8 kFrameVersion @ put_u8 (MsgType_to_u8 (fr_type f))
     @ put_u16 0 @ put_u32 (word_of_nat (length (fr_payload f)))"

definition encodeFrame :: "Frame \<Rightarrow> bytes" where
  "encodeFrame f =
     (let w = frame_head f
      in w @ put_u32 (crc32 w) @ fr_payload f @ put_u32 (crc32 (fr_payload f)))"

text \<open>The header fields of a buffer of at least 16 bytes.\<close>

definition header_magic :: "bytes \<Rightarrow> u32" where "header_magic b = gather 4 b"
definition header_version :: "bytes \<Rightarrow> u8" where "header_version b = b ! 4"
definition header_type :: "bytes \<Rightarrow> u8" where "header_type b = b ! 5"
definition header_length :: "bytes \<Rightarrow> u32" where "header_length b = gather 4 (drop 8 b)"
definition header_crc :: "bytes \<Rightarrow> u32" where "header_crc b = gather 4 (drop 12 b)"

definition payload_of :: "bytes \<Rightarrow> bytes" where
  "payload_of b = take (unat (header_length b)) (drop kHeader b)"

definition payload_crc :: "bytes \<Rightarrow> u32" where
  "payload_crc b = gather 4 (drop (kHeader + unat (header_length b)) b)"

definition frame_total :: "bytes \<Rightarrow> nat" where
  "frame_total b = kHeader + unat (header_length b) + 4"

definition frame_of :: "bytes \<Rightarrow> Frame" where
  "frame_of b = \<lparr>fr_type = MsgType_of_u8 (header_type b), fr_payload = payload_of b\<rparr>"

definition decodeFrame :: "bytes \<Rightarrow> Frame Result" where
  "decodeFrame data =
     (if length data < kHeader then Inl (err ErrorCode.PROTOCOL_ERROR ''frame too short'')
      else if header_magic data \<noteq> kFrameMagic
      then Inl (err ErrorCode.PROTOCOL_ERROR ''bad frame magic'')
      else if header_version data \<noteq> kFrameVersion
      then Inl (err ErrorCode.PROTOCOL_ERROR ''unsupported frame version'')
      else if \<not> validMsgType (header_type data)
      then Inl (err ErrorCode.PROTOCOL_ERROR ''invalid frame type'')
      else if header_length data > kMaxFrameBytes
      then Inl (err ErrorCode.RESOURCE_LIMIT ''frame length absurd'')
      else if crc32 (take 12 data) \<noteq> header_crc data
      then Inl (err ErrorCode.INTEGRITY_FAILURE ''frame header crc'')
      else if frame_total data > length data
      then Inl (err ErrorCode.PROTOCOL_ERROR ''truncated frame'')
      else if crc32 (payload_of data) \<noteq> payload_crc data
      then Inl (err ErrorCode.INTEGRITY_FAILURE ''frame payload crc'')
      else Inr (frame_of data))"

section \<open>The incremental reader\<close>

record FrameStream =
  fs_buf :: bytes
  fs_err :: Error

definition FrameStream_new :: FrameStream where
  "FrameStream_new = \<lparr>fs_buf = [], fs_err = no_error\<rparr>"

definition stream_ok :: "FrameStream \<Rightarrow> bool" where
  "stream_ok s \<longleftrightarrow> err_code (fs_err s) = ErrorCode.NONE"

text \<open>One round of the loop on the buffer: wait for more bytes, fail, or take a frame.\<close>

datatype FeedStep = Wait | Bad Error | Take Frame

definition feed_step :: "bytes \<Rightarrow> FeedStep" where
  "feed_step buf =
     (if length buf < kHeader then Wait
      else if header_magic buf \<noteq> kFrameMagic
      then Bad (err ErrorCode.PROTOCOL_ERROR ''bad frame magic'')
      else if header_version buf \<noteq> kFrameVersion
      then Bad (err ErrorCode.PROTOCOL_ERROR ''unsupported frame version'')
      else if \<not> validMsgType (header_type buf)
      then Bad (err ErrorCode.PROTOCOL_ERROR ''invalid frame type'')
      else if header_length buf > kMaxFrameBytes
      then Bad (err ErrorCode.RESOURCE_LIMIT ''frame length absurd'')
      else if length buf < frame_total buf then Wait
      else if crc32 (take 12 buf) \<noteq> header_crc buf
      then Bad (err ErrorCode.INTEGRITY_FAILURE ''frame header crc'')
      else if crc32 (payload_of buf) \<noteq> payload_crc buf
      then Bad (err ErrorCode.INTEGRITY_FAILURE ''frame payload crc'')
      else Take (frame_of buf))"

text \<open>The loop returns the frames pushed to \<open>out\<close>, the error if there is one, and the buffer.\<close>

function feed_loop :: "bytes \<Rightarrow> Frame list \<times> Error option \<times> bytes" where
  "feed_loop buf = (case feed_step buf of
       Wait \<Rightarrow> ([], None, buf)
     | Bad e \<Rightarrow> ([], Some e, buf)
     | Take f \<Rightarrow>
         (case feed_loop (drop (frame_total buf) buf) of (fs, e, rest) \<Rightarrow> (f # fs, e, rest)))"
  by auto

lemma feed_step_Take: "feed_step buf = Take f \<Longrightarrow> 20 \<le> frame_total buf \<and> frame_total buf \<le> length buf"
  by (auto simp: feed_step_def frame_total_def kHeader_def split: if_splits)

termination feed_loop
  by (relation "measure length") (auto dest: feed_step_Take)

declare feed_loop.simps [simp del]

definition feed :: "bytes \<Rightarrow> FrameStream \<Rightarrow> bool \<times> Frame list \<times> FrameStream" where
  "feed data s =
     (if \<not> stream_ok s then (False, [], s)
      else case feed_loop (fs_buf s @ data) of
             (fs, None, rest) \<Rightarrow> (True, fs, s\<lparr>fs_buf := rest\<rparr>)
           | (fs, Some e, rest) \<Rightarrow> (False, fs, s\<lparr>fs_buf := rest, fs_err := e\<rparr>))"

section \<open>Sockets\<close>

record TcpSocket =
  so_fd :: int
  so_localPort :: u16

definition TcpSocket_new :: TcpSocket where
  "TcpSocket_new = \<lparr>so_fd = -1, so_localPort = 0\<rparr>"

definition socket_valid :: "TcpSocket \<Rightarrow> bool" where
  "socket_valid s \<longleftrightarrow> so_fd s \<noteq> -1"

definition socket_close :: "TcpSocket \<Rightarrow> TcpSocket" where
  "socket_close s = s\<lparr>so_fd := -1\<rparr>"

text \<open>What the operating system answers to the calls of the wrapper.\<close>

record Os =
  os_socket :: int
  os_resolves :: "string \<Rightarrow> u16 \<Rightarrow> bool"
  os_connect :: "int \<Rightarrow> string \<Rightarrow> u16 \<Rightarrow> int"
  os_bind :: "int \<Rightarrow> u16 \<Rightarrow> int"
  os_listen :: "int \<Rightarrow> int"
  os_getsockname :: "int \<Rightarrow> u16"
  os_accept :: "int \<Rightarrow> int"

definition connectTo :: "Os \<Rightarrow> string \<Rightarrow> u16 \<Rightarrow> TcpSocket \<Rightarrow> unit Result \<times> TcpSocket" where
  "connectTo os host port s =
     (let s = s\<lparr>so_fd := os_socket os\<rparr> in
      if so_fd s = -1 then (Inl (err ErrorCode.BACKEND_ERROR ''socket''), s)
      else if \<not> os_resolves os host port
      then (Inl (err ErrorCode.BACKEND_ERROR ''resolve host''), socket_close s)
      else if os_connect os (so_fd s) host port \<noteq> 0
      then (Inl (err ErrorCode.BACKEND_ERROR ''connect''), socket_close s)
      else (Inr (), s))"

definition listenOn :: "Os \<Rightarrow> u16 \<Rightarrow> TcpSocket \<Rightarrow> unit Result \<times> TcpSocket" where
  "listenOn os port s =
     (let s = s\<lparr>so_fd := os_socket os\<rparr> in
      if so_fd s = -1 then (Inl (err ErrorCode.BACKEND_ERROR ''socket''), s)
      else if os_bind os (so_fd s) port \<noteq> 0
      then (Inl (err ErrorCode.BACKEND_ERROR ''bind''), socket_close s)
      else if os_listen os (so_fd s) \<noteq> 0
      then (Inl (err ErrorCode.BACKEND_ERROR ''listen''), socket_close s)
      else (Inr (), s\<lparr>so_localPort := os_getsockname os (so_fd s)\<rparr>))"

definition socket_accept :: "Os \<Rightarrow> TcpSocket \<Rightarrow> TcpSocket Result" where
  "socket_accept os s =
     (let c = os_accept os (so_fd s) in
      if c = -1 then Inl (err ErrorCode.BACKEND_ERROR ''accept'')
      else Inr (TcpSocket_new\<lparr>so_fd := c, so_localPort := so_localPort s\<rparr>))"

text \<open>\<open>sendAll\<close> over the results of the successive \<open>send\<close> calls; \<open>None\<close> when the list ends before
  the loop does. The second component is the data the system has taken.\<close>

fun sendAll :: "int list \<Rightarrow> bytes \<Rightarrow> nat \<Rightarrow> (unit Result \<times> bytes) option" where
  "sendAll ns data off =
     (if off < length data then
        (case ns of
           [] \<Rightarrow> None
         | n # ns \<Rightarrow>
             if n \<le> 0 then
               Some (Inl (if n = 0 then err ErrorCode.INTERNAL ''send closed''
                          else err ErrorCode.BACKEND_ERROR ''send''), take off data)
             else sendAll ns data (off + nat n))
      else Some (Inr (), take off data))"

declare sendAll.simps [simp del]

text \<open>\<open>recvSome\<close>: the bytes \<open>recv\<close> stored, or the error for a negative result.\<close>

definition recvSome :: "int \<Rightarrow> bytes \<Rightarrow> bytes Result" where
  "recvSome n received =
     (if n < 0 then Inl (err ErrorCode.BACKEND_ERROR ''recv'') else Inr (take (nat n) received))"

section \<open>Encoded frames\<close>

lemma gather_put_u32 [simp]: "gather 4 (put_u32 v @ r) = v" "gather 4 (put_u32 v) = v"
  using gather_scatter [of 4 v r] gather_scatter [of 4 v "[]"] by (simp_all add: put_u32_def)

lemma length_puts [simp]:
  "length (put_u32 a) = 4" "length (put_u8 b) = 1" "length (put_u16 c) = 2"
  by (simp_all add: put_u32_def put_u8_def put_u16_def)

lemma MsgType_valid [simp]: "validMsgType (MsgType_to_u8 m)"
  by (cases m) (simp_all add: validMsgType_def MsgType_to_u8_def)

lemma MsgType_of_to_u8 [simp]: "MsgType_of_u8 (MsgType_to_u8 m) = m"
  by (cases m) (simp_all add: MsgType_of_u8_def MsgType_to_u8_def)

definition frame_fits :: "Frame \<Rightarrow> bool" where
  "frame_fits f \<longleftrightarrow> length (fr_payload f) \<le> unat kMaxFrameBytes"

lemma frame_fits_length:
  assumes "frame_fits f"
  shows "unat (word_of_nat (length (fr_payload f)) :: u32) = length (fr_payload f)"
  using assms by (intro unat_u32_of_nat) (simp add: frame_fits_def limit_defs)

lemma length_frame_head [simp]: "length (frame_head f) = 12"
  by (simp add: frame_head_def)

lemma length_encodeFrame: "length (encodeFrame f) = 20 + length (fr_payload f)"
  by (simp add: encodeFrame_def Let_def)

lemma header_fields:
  "header_magic (encodeFrame f @ r) = kFrameMagic"
  "header_version (encodeFrame f @ r) = kFrameVersion"
  "header_type (encodeFrame f @ r) = MsgType_to_u8 (fr_type f)"
  "header_length (encodeFrame f @ r) = word_of_nat (length (fr_payload f))"
  "header_crc (encodeFrame f @ r) = crc32 (frame_head f)" "take 12 (encodeFrame f @ r) = frame_head f"
proof -
  have "drop 12 (encodeFrame f @ r) = put_u32 (crc32 (frame_head f)) @ fr_payload f
      @ put_u32 (crc32 (fr_payload f)) @ r"
    by (simp add: encodeFrame_def Let_def)
  then show "header_crc (encodeFrame f @ r) = crc32 (frame_head f)"
    by (simp add: header_crc_def)
qed (simp_all add: header_magic_def header_version_def header_type_def header_length_def
    encodeFrame_def frame_head_def Let_def nth_append put_u8_def)

lemma frame_parts:
  assumes "frame_fits f"
  shows "payload_of (encodeFrame f @ r) = fr_payload f"
    "payload_crc (encodeFrame f @ r) = crc32 (fr_payload f)"
    "frame_total (encodeFrame f @ r) = length (encodeFrame f)"
    "frame_of (encodeFrame f @ r) = f"
    "\<not> kMaxFrameBytes < header_length (encodeFrame f @ r)"
proof -
  note len = frame_fits_length [OF assms]
  have drops: "drop kHeader (encodeFrame f @ r) = fr_payload f @ put_u32 (crc32 (fr_payload f)) @ r"
    by (simp add: encodeFrame_def Let_def kHeader_def)
  then have "drop (kHeader + n) (encodeFrame f @ r) = drop n (fr_payload f @ put_u32 (crc32 (fr_payload f)) @ r)" for n
    by (metis add.commute drop_drop)
  with drops show p: "payload_of (encodeFrame f @ r) = fr_payload f"
    "payload_crc (encodeFrame f @ r) = crc32 (fr_payload f)"
    by (simp_all add: payload_of_def payload_crc_def header_fields len)
  show "frame_total (encodeFrame f @ r) = length (encodeFrame f)"
    by (simp add: frame_total_def header_fields len length_encodeFrame kHeader_def)
  show "frame_of (encodeFrame f @ r) = f"
    by (simp add: frame_of_def header_fields p)
  show "\<not> kMaxFrameBytes < header_length (encodeFrame f @ r)"
    using assms len by (simp add: header_fields frame_fits_def word_less_nat_alt)
qed

lemma feed_step_encoded:
  assumes "frame_fits f"
  shows "feed_step (encodeFrame f @ r) = Take f"
  using assms frame_parts(5) [OF assms, of r]
  by (simp add: feed_step_def header_fields frame_parts length_encodeFrame kHeader_def del: take_append)

section \<open>The reader and its input\<close>

text \<open>What the loop decides about a buffer it decides about every longer one.\<close>

lemma gather_append: "n \<le> length bs \<Longrightarrow> gather n (bs @ ys) = (gather n bs :: 'w::len word)"
  using gather_take [of n "bs @ ys", where 'w = 'w] gather_take [of n bs, where 'w = 'w] by simp

lemma header_append:
  assumes "kHeader \<le> length b"
  shows "header_magic (b @ ys) = header_magic b" "header_version (b @ ys) = header_version b"
    "header_type (b @ ys) = header_type b" "header_length (b @ ys) = header_length b"
    "header_crc (b @ ys) = header_crc b" "take 12 (b @ ys) = take 12 b" "frame_total (b @ ys) = frame_total b"
proof -
  show len: "header_length (b @ ys) = header_length b"
    using assms by (simp add: header_length_def kHeader_def gather_append)
  then show "frame_total (b @ ys) = frame_total b"
    by (simp add: frame_total_def)
qed (use assms in \<open>simp_all add: header_magic_def header_version_def header_type_def header_crc_def
    kHeader_def gather_append nth_append\<close>)

lemma payload_append:
  assumes "kHeader \<le> length b" "frame_total b \<le> length b"
  shows "payload_of (b @ ys) = payload_of b" "payload_crc (b @ ys) = payload_crc b"
  using assms by (simp_all add: payload_of_def payload_crc_def header_append frame_total_def gather_append)

lemma feed_step_append:
  assumes "feed_step b \<noteq> Wait"
  shows "feed_step (b @ ys) = feed_step b"
proof -
  have "kHeader \<le> length b"
    using assms by (auto simp: feed_step_def split: if_splits)
  then show ?thesis
    using assms payload_append [of b ys]
    by (auto simp: feed_step_def header_append frame_of_def not_less simp del: take_append split: if_splits)
qed

lemma feed_loop_append:
  "feed_loop b = (fs, e, rest) \<Longrightarrow> feed_loop (b @ ys) =
     (case e of
        Some _ \<Rightarrow> (fs, e, rest @ ys)
      | None \<Rightarrow> (case feed_loop (rest @ ys) of (fs', e', rest') \<Rightarrow> (fs @ fs', e', rest')))"
proof (induction b arbitrary: fs rule: feed_loop.induct)
  case (1 b)
  show ?case
  proof (cases "feed_step b")
    case Wait
    then show ?thesis
      using 1(2) by (simp add: feed_loop.simps [of b] split: prod.split)
  next
    case (Bad er)
    then have "feed_loop (b @ ys) = ([], Some er, b @ ys)"
      using feed_step_append [of b ys] by (simp add: feed_loop.simps [of "b @ ys"])
    then show ?thesis
      using 1(2) Bad by (auto simp: feed_loop.simps [of b])
  next
    case (Take f)
    obtain fs' where fs': "feed_loop (drop (frame_total b) b) = (fs', e, rest)" "fs = f # fs'"
      using 1(2) Take by (auto simp: feed_loop.simps [of b] split: prod.splits)
    have b: "kHeader \<le> length b" "frame_total b \<le> length b"
      using feed_step_Take [OF Take] Take by (auto simp: feed_step_def split: if_splits)
    then have "drop (frame_total (b @ ys)) (b @ ys) = drop (frame_total b) b @ ys"
      by (simp add: header_append)
    then show ?thesis
      using 1(1) [OF Take fs'(1)] fs'(2) Take feed_step_append [of b ys]
      by (simp add: feed_loop.simps [of "b @ ys"] split: option.splits prod.splits)
  qed
qed

section \<open>Runs of the reader\<close>

text \<open>Feeding chunks one after the other, collecting the frames.\<close>

fun feeds :: "bytes list \<Rightarrow> FrameStream \<Rightarrow> Frame list \<times> FrameStream" where
  "feeds [] s = ([], s)"
| "feeds (c # cs) s = (case feed c s of (_, fs, s') \<Rightarrow>
     (case feeds cs s' of (fs', s'') \<Rightarrow> (fs @ fs', s'')))"

lemma feed_loop_error: "feed_loop b = (fs, Some e, rest) \<Longrightarrow> err_code e \<noteq> ErrorCode.NONE"
proof (induction b arbitrary: fs rule: feed_loop.induct)
  case (1 b)
  then show ?case
    by (cases "feed_step b")
      (auto simp: feed_loop.simps [of b] feed_step_def err_def split: prod.splits if_splits)
qed

lemma feed_loop_waits: "feed_loop b = (fs, None, rest) \<Longrightarrow> feed_step rest = Wait"
proof (induction b arbitrary: fs rule: feed_loop.induct)
  case (1 b)
  then show ?case
    by (cases "feed_step b") (auto simp: feed_loop.simps [of b] split: prod.splits)
qed

lemma feed_failed: "\<not> stream_ok s \<Longrightarrow> feeds cs s = ([], s)"
  by (induction cs) (simp_all add: feed_def)

text \<open>The outcome of a run as its client sees it: the frames, the error, and what is buffered while
  there is no error.\<close>

definition stream_view :: "Frame list \<times> FrameStream \<Rightarrow> Frame list \<times> Error \<times> bytes option" where
  "stream_view r = (fst r, fs_err (snd r), if stream_ok (snd r) then Some (fs_buf (snd r)) else None)"

lemma feeds_merge:
  assumes "stream_ok s"
  shows "stream_view (feeds (x # y # cs) s) = stream_view (feeds ((x @ y) # cs) s)"
proof -
  obtain fs e rest where loop: "feed_loop (fs_buf s @ x) = (fs, e, rest)"
    by (metis prod_cases3)
  show ?thesis
  proof (cases e)
    case (Some er)
    then have "\<not> stream_ok (s\<lparr>fs_buf := b, fs_err := er\<rparr>)" for b
      using feed_loop_error loop by (simp add: stream_ok_def)
    then show ?thesis
      using assms loop Some feed_loop_append [OF loop, of y]
      by (simp add: feed_def feed_failed stream_view_def)
  next
    case None
    then show ?thesis
      using assms loop feed_loop_append [OF loop, of y]
      by (auto simp: feed_def stream_ok_def stream_view_def feed_failed split: option.split prod.split)
  qed
qed

lemma feeds_concat:
  "stream_ok s \<Longrightarrow> cs \<noteq> [] \<Longrightarrow> stream_view (feeds cs s) = stream_view (feeds [concat cs] s)"
proof (induction "length cs" arbitrary: cs)
  case (Suc n)
  obtain x cs' where cs: "cs = x # cs'"
    using Suc.prems(2) by (cases cs) auto
  show ?case
  proof (cases cs')
    case Nil
    then show ?thesis using cs by simp
  next
    case (Cons y ys)
    have "stream_view (feeds ((x @ y) # ys) s) = stream_view (feeds [concat ((x @ y) # ys)] s)"
      using Suc.hyps(2) cs Cons by (intro Suc.hyps(1)) (simp_all add: Suc.prems)
    then show ?thesis
      using feeds_merge [OF Suc.prems(1), of x y ys] cs Cons by simp
  qed
qed simp

lemma stream_ok_new [simp]: "stream_ok FrameStream_new"
  by (simp add: stream_ok_def FrameStream_new_def no_error_def)

lemma feed_loop_Nil [simp]: "feed_loop [] = ([], None, [])"
  by (simp add: feed_loop.simps feed_step_def kHeader_def)

lemma feeds_concat_new: "stream_view (feeds cs FrameStream_new) = stream_view (feeds [concat cs] FrameStream_new)"
  using feeds_concat [OF stream_ok_new, of cs]
  by (cases "cs = []") (simp_all add: feed_def FrameStream_new_def stream_ok_def no_error_def)

lemma feed_loop_encoded:
  "list_all frame_fits fs \<Longrightarrow> feed_loop (concat (map encodeFrame fs)) = (fs, None, [])"
proof (induction fs)
  case (Cons f fs)
  then show ?case
    by (simp add: feed_loop.simps [of "encodeFrame f @ _"] feed_step_encoded frame_parts)
qed simp

lemma feeds_encoded:
  assumes "list_all frame_fits fs" and "concat chunks = concat (map encodeFrame fs)"
  shows "feeds chunks FrameStream_new = (fs, FrameStream_new)"
proof -
  have "feeds [concat chunks] FrameStream_new = (fs, FrameStream_new)"
    using feed_loop_encoded [OF assms(1)] assms(2) by (simp add: feed_def FrameStream_new_def stream_ok_def no_error_def)
  then have "stream_view (feeds chunks FrameStream_new) = (fs, no_error, Some [])"
    using feeds_concat_new [of chunks] by (simp add: stream_view_def) (simp add: FrameStream_new_def)
  then show ?thesis
    by (cases "feeds chunks FrameStream_new") (auto simp: stream_view_def FrameStream_new_def split: if_splits)
qed

lemma decode_iff_take: "decodeFrame b = Inr f \<longleftrightarrow> feed_step b = Take f"
  by (auto simp: decodeFrame_def feed_step_def)

lemma feed_step_Wait: "feed_step b = Wait \<Longrightarrow> length b < 20 + unat kMaxFrameBytes"
  by (auto simp: feed_step_def frame_total_def kHeader_def not_less word_le_nat_alt split: if_splits)

lemma sendAll_ends:
  assumes "list_all (\<lambda>n. 0 < n) ns" "length data - off \<le> length ns"
  shows "sendAll ns data off = Some (Inr (), data)"
  using assms
proof (induction ns arbitrary: off)
  case (Cons n ns)
  then show ?case
    by (subst sendAll.simps) auto
qed (simp add: sendAll.simps)

section \<open>Checksums of a frame\<close>

lemma gather_take4: "gather 4 (take 4 b) = (gather 4 b :: u32)"
  by (rule gather_take)

lemma header_residue:
  assumes "16 \<le> length b"
  shows "crc32 (take 12 b) = header_crc b \<longleftrightarrow>
    fold crc_update (take 16 b) 0xFFFFFFFF = (crc_shift ^^ 32) 0xFFFFFFFF"
proof -
  have "take 16 b = take 12 b @ take 4 (drop 12 b)"
    using take_add [of 12 4 b] by simp
  then show ?thesis
    using crc_residue [of "take 4 (drop 12 b)" "take 12 b"] assms
    by (auto simp: header_crc_def gather_take4)
qed

lemma payload_residue:
  assumes "length b = frame_total b"
  shows "crc32 (payload_of b) = payload_crc b \<longleftrightarrow>
    fold crc_update (drop 16 b) 0xFFFFFFFF = (crc_shift ^^ 32) 0xFFFFFFFF"
proof -
  let ?n = "unat (header_length b)"
  have "drop 16 b = payload_of b @ drop (16 + ?n) b"
    unfolding payload_of_def kHeader_def by (metis add.commute append_take_drop_id drop_drop)
  moreover have "length (drop (16 + ?n) b) = 4"
    using assms by (simp add: frame_total_def kHeader_def)
  ultimately show ?thesis
    using crc_residue [of "drop (16 + ?n) b" "payload_of b"]
    by (auto simp: payload_crc_def kHeader_def)
qed

lemma decode_accepts:
  assumes "decodeFrame b = Inr f"
  shows "16 \<le> length b" "crc32 (take 12 b) = header_crc b" "crc32 (payload_of b) = payload_crc b"
    "frame_total b \<le> length b" "frame_of b = f"
  using assms by (auto simp: decodeFrame_def kHeader_def split: if_splits)

lemma accepted_total: "decodeFrame b = Inr f \<Longrightarrow> frame_total b = 20 + length (fr_payload f)"
  using decode_accepts(4,5) [of b f] by (auto simp: frame_total_def frame_of_def payload_of_def kHeader_def)

text \<open>Two equally long buffers that differ within four bytes.\<close>

lemma burst_parts:
  assumes "length cs = length bs"
  shows "\<exists>ys ws. take n (xs @ bs @ zs) = take n xs @ take (n - length xs) bs @ ys \<and>
      take n (xs @ cs @ zs) = take n xs @ take (n - length xs) cs @ ys \<and>
      drop n (xs @ bs @ zs) = drop n xs @ drop (n - length xs) bs @ ws \<and>
      drop n (xs @ cs @ zs) = drop n xs @ drop (n - length xs) cs @ ws"
  using assms by simp

lemma burst_checks:
  assumes "length cs = length bs" "length bs \<le> 4" "cs \<noteq> bs"
  shows "take n (xs @ bs @ zs) \<noteq> take n (xs @ cs @ zs) \<and>
      fold crc_update (take n (xs @ bs @ zs)) c \<noteq> fold crc_update (take n (xs @ cs @ zs)) c \<or>
    take n (xs @ bs @ zs) = take n (xs @ cs @ zs) \<and>
      fold crc_update (drop n (xs @ bs @ zs)) c \<noteq> fold crc_update (drop n (xs @ cs @ zs)) c"
proof -
  obtain ys ws where p: "take n (xs @ bs @ zs) = take n xs @ take (n - length xs) bs @ ys"
      "take n (xs @ cs @ zs) = take n xs @ take (n - length xs) cs @ ys"
      "drop n (xs @ bs @ zs) = drop n xs @ drop (n - length xs) bs @ ws"
      "drop n (xs @ cs @ zs) = drop n xs @ drop (n - length xs) cs @ ws"
    using burst_parts [OF assms(1)] by metis
  let ?k = "n - length xs"
  have "bs = cs" if "take ?k bs = take ?k cs" "drop ?k bs = drop ?k cs"
    using that by (metis append_take_drop_id)
  then consider "take ?k bs \<noteq> take ?k cs" | "take ?k bs = take ?k cs" "drop ?k bs \<noteq> drop ?k cs"
    using assms(3) by blast
  then show ?thesis
  proof cases
    case 1
    then show ?thesis
      using crc_burst [of "take n xs" "take ?k bs" ys c "take ?k cs"] assms(1,2) unfolding p by (auto simp: min_le_iff_disj)
  next
    case 2
    then show ?thesis
      using crc_burst [of "drop n xs" "drop ?k bs" ws c "drop ?k cs"] assms(1,2) unfolding p
      by (auto simp: le_diff_conv)
  qed
qed

section \<open>Properties\<close>

text \<open>
  Frames survive the wire: a frame whose payload is within \<open>kMaxFrameBytes\<close> is decoded
  from its encoding, whatever follows it in the buffer.
\<close>

theorem frame_roundtrip:
  assumes "frame_fits f"
  shows "decodeFrame (encodeFrame f @ rest) = Inr f"
  using feed_step_encoded [OF assms] by (simp add: decode_iff_take)

theorem frame_roundtrip_witness:
  "decodeFrame (encodeFrame \<lparr>fr_type = PING, fr_payload = [1, 2, 3]\<rparr> @ [7]) =
     Inr \<lparr>fr_type = PING, fr_payload = [1, 2, 3]\<rparr>"
  by (rule frame_roundtrip) (simp add: frame_fits_def limit_defs)

text \<open>
  (C29) Reassembly: however the bytes of a sequence of frames are cut into chunks, the reader
  delivers exactly these frames in order and is back in its initial state.
\<close>

theorem stream_reassembles:
  assumes "list_all frame_fits fs" and "concat chunks = concat (map encodeFrame fs)"
  shows "feeds chunks FrameStream_new = (fs, FrameStream_new)"
  using assms by (rule feeds_encoded)

theorem stream_reassembles_witness:
  "let f = \<lparr>fr_type = PING, fr_payload = []\<rparr> in
   feeds [take 5 (encodeFrame f), drop 5 (encodeFrame f) @ encodeFrame f] FrameStream_new = ([f, f], FrameStream_new)"
  unfolding Let_def by (rule stream_reassembles) (simp_all add: frame_fits_def)


text \<open>
  The two decoders agree: the reader takes a frame from its buffer exactly when \<open>decodeFrame\<close>
  accepts the buffer, and it is the same frame.
\<close>

theorem decodeFrame_agrees_with_feed:
  "feed_step b = Take f \<longleftrightarrow> decodeFrame b = Inr f"
  by (simp add: decode_iff_take)

text \<open>
  A corrupted frame is rejected: if a buffer holds exactly one accepted frame, no buffer that
  differs from it within four consecutive bytes, in the header, the payload or a checksum, is
  accepted.
\<close>

theorem corrupted_frame_rejected:
  assumes "decodeFrame (xs @ bs @ zs) = Inr f" "length (xs @ bs @ zs) = 20 + length (fr_payload f)"
    and "length cs = length bs" "length bs \<le> 4" "cs \<noteq> bs"
  shows "\<exists>e. decodeFrame (xs @ cs @ zs) = Inl e"
proof (rule ccontr)
  let ?b = "xs @ bs @ zs" and ?c = "xs @ cs @ zs"
  assume "\<not> ?thesis"
  then obtain g where g: "decodeFrame ?c = Inr g"
    by (cases "decodeFrame ?c") auto
  note b = decode_accepts [OF assms(1)] and c = decode_accepts [OF g]
  have same: "take 16 ?b = take 16 ?c"
    and tails: "fold crc_update (drop 16 ?b) 0xFFFFFFFF \<noteq> fold crc_update (drop 16 ?c) 0xFFFFFFFF"
    using burst_checks [OF assms(3-5), of 16 xs zs "0xFFFFFFFF"] header_residue b(1,2) c(1,2) by metis+
  have "header_length ?c = header_length ?b"
    using header_append(4) [of "take 16 ?b" "drop 16 ?b"] header_append(4) [of "take 16 ?c" "drop 16 ?c"]
      same b(1) c(1) unfolding append_take_drop_id kHeader_def by simp
  moreover have "length ?b = frame_total ?b"
    using accepted_total [OF assms(1)] assms(2) by simp
  moreover have "length ?c = length ?b"
    using assms(3) by simp
  ultimately show False
    using tails payload_residue b(3) c(3) by (metis frame_total_def)
qed

theorem corrupted_frame_rejected_witness:
  "\<exists>e. decodeFrame ((encodeFrame \<lparr>fr_type = PONG, fr_payload = []\<rparr>)[19 := 77 +
     encodeFrame \<lparr>fr_type = PONG, fr_payload = []\<rparr> ! 19]) = Inl e"
proof -
  let ?f = "\<lparr>fr_type = PONG, fr_payload = []\<rparr>"
  let ?b = "encodeFrame ?f"
  have len: "length ?b = 20"
    by (simp add: length_encodeFrame)
  have "decodeFrame ?b = Inr ?f"
    using feed_step_encoded [of ?f "[]"] by (simp add: frame_fits_def decode_iff_take)
  moreover have "take 19 ?b @ [?b ! 19] @ [] = ?b" "take 19 ?b @ [77 + ?b ! 19] @ [] = ?b[19 := 77 + ?b ! 19]"
    using len take_Suc_conv_app_nth [of 19 ?b] upd_conv_take_nth_drop [of 19 ?b "77 + ?b ! 19"] by simp_all
  ultimately show ?thesis
    using corrupted_frame_rejected [of "take 19 ?b" "[?b ! 19]" "[]" ?f "[77 + ?b ! 19]"] len by simp
qed

text \<open>
  The buffer is bounded: as long as the stream has no error, the reader never keeps more than
  one frame of the largest size.
\<close>

theorem stream_buffer_bounded:
  assumes "stream_ok (snd (feeds chunks FrameStream_new))"
  shows "length (fs_buf (snd (feeds chunks FrameStream_new))) < 20 + unat kMaxFrameBytes"
proof -
  let ?r = "feeds chunks FrameStream_new"
  obtain fs e rest where loop: "feed_loop (concat chunks) = (fs, e, rest)"
    by (metis prod_cases3)
  have "stream_view ?r = stream_view (feeds [concat chunks] FrameStream_new)"
    by (rule feeds_concat_new)
  then have "e = None \<and> fs_buf (snd ?r) = rest"
    using assms loop feed_loop_error [of "concat chunks"]
    by (cases e) (auto simp: stream_view_def feed_def FrameStream_new_def stream_ok_def no_error_def split: if_splits)
  then show ?thesis
    using loop feed_loop_waits feed_step_Wait by blast
qed

theorem stream_buffer_bounded_witness:
  "length (fs_buf (snd (feeds [[0x31, 0x46], [0x56]] FrameStream_new))) < 20 + unat kMaxFrameBytes"
  by (rule stream_buffer_bounded)
    (simp add: feed_def FrameStream_new_def stream_ok_def no_error_def feed_loop.simps feed_step_def kHeader_def)

text \<open>
  Sending ends: when every \<open>send\<close> takes at least one byte, \<open>sendAll\<close> ends after at most as many
  calls as there are bytes, with success and with all the data taken.
\<close>

theorem sendAll_completes:
  assumes "list_all (\<lambda>n. 0 < n) ns" and "length data \<le> length ns"
  shows "sendAll ns data 0 = Some (Inr (), data)"
  using sendAll_ends [of ns data 0] assms by simp

theorem sendAll_completes_witness: "sendAll [2, 1, 1] [7, 8, 9] 0 = Some (Inr (), [7, 8, 9])"
  by (rule sendAll_completes) simp_all

end
