(* ===== verification/Fabric_Messages.thy ===== *)
theory Fabric_Messages
  imports Fabric_Wire Fabric_Route
begin

text \<open>
  The route policies and route decisions that the runtime sends (\<open>runtime/coordinator.cpp\<close>,
  \<open>runtime/worker.cpp\<close>). A \<open>double\<close> travels as its 64-bit pattern. Unlike the decoders of
  the records, \<open>decodePolicy\<close> and \<open>decodeDecision\<close> name the field they fail at:
  \<open>require\<close> is their \<open>if (!read) return Err(err(PROTOCOL_ERROR, msg))\<close>.
\<close>

definition require :: "string \<Rightarrow> 'a option \<Rightarrow> ('a \<Rightarrow> 'b Result) \<Rightarrow> 'b Result" where
  "require msg x k = (case x of None \<Rightarrow> Inl (err ErrorCode.PROTOCOL_ERROR msg) | Some v \<Rightarrow> k v)"

lemma require_simps [simp]:
  "require msg (Some v) k = k v" "require msg None k = Inl (err ErrorCode.PROTOCOL_ERROR msg)"
  by (simp_all add: require_def)

section \<open>Policies\<close>

definition writeDouble :: "double_bits \<Rightarrow> bytes" where
  "writeDouble d = put_u64 d"

definition readDouble :: "double_bits parser" where
  "readDouble r = get_u64 r"

definition encodeFactors :: "(RouteFactor \<times> double_bits) list \<Rightarrow> bytes" where
  "encodeFactors fs = concat (map (\<lambda>(f, wt). put_u8 (RouteFactor_to_u8 f) @ writeDouble wt) fs)"

definition encodePolicy :: "RoutePolicy \<Rightarrow> bytes" where
  "encodePolicy p =
     put_str (sid_value (rp_id p)) @ put_bool (rp_requireSufficientsSwitches p)
     @ put_bool (rp_requireSufficientsPorts p) @ put_bool (rp_requireNonDegradedPath p)
     @ put_bool (rp_insidePartition p)
     @ put_u64 (rp_maxAllowedSwitches p) @ put_u64 (rp_maxAllowedHops p)
     @ writeDouble (rp_requiredMinRelativeBandwidth p)
     @ put_bool (rp_preferRedundantPath p) @ put_bool (rp_requireFreshEvidence p)
     @ put_u64 (rp_maxStalenessNanos p)
     @ put_u32 (word_of_nat (length (rp_factors p))) @ encodeFactors (rp_factors p)"

fun decodeFactors :: "nat \<Rightarrow> bytes \<Rightarrow> (RouteFactor \<times> double_bits) list Result" where
  "decodeFactors 0 r = Inr []"
| "decodeFactors (Suc n) r =
     require ''factor'' (get_u8 r) (\<lambda>(f, r).
     require ''factor weight'' (readDouble r) (\<lambda>(wt, r).
     case decodeFactors n r of Inl e \<Rightarrow> Inl e | Inr fs \<Rightarrow> Inr ((RouteFactor_of_u8 f, wt) # fs)))"

definition decodePolicy :: "bytes \<Rightarrow> RoutePolicy Result" where
  "decodePolicy r =
     require ''policy id'' (get_str r) (\<lambda>(id, r).
     require ''policy field'' (get_bool r) (\<lambda>(a1, r).
     require ''policy field'' (get_bool r) (\<lambda>(a2, r).
     require ''policy field'' (get_bool r) (\<lambda>(a3, r).
     require ''policy field'' (get_bool r) (\<lambda>(a4, r).
     require ''policy field'' (get_u64 r) (\<lambda>(sws, r).
     require ''policy field'' (get_u64 r) (\<lambda>(hops, r).
     require ''policy field'' (readDouble r) (\<lambda>(bw, r).
     require ''policy field'' (get_bool r) (\<lambda>(a5, r).
     require ''policy field'' (get_bool r) (\<lambda>(a6, r).
     require ''policy field'' (get_u64 r) (\<lambda>(stale, r).
     require ''policy field'' (get_u32 r) (\<lambda>(fc, r).
     if fc > 24 then Inl (err ErrorCode.PROTOCOL_ERROR ''factor count'')
     else case decodeFactors (unat fc) r of
            Inl e \<Rightarrow> Inl e
          | Inr fs \<Rightarrow> Inr \<lparr>rp_id = MkStringId id, rp_requireSufficientsSwitches = a1,
              rp_requireSufficientsPorts = a2, rp_requireNonDegradedPath = a3,
              rp_insidePartition = a4, rp_maxAllowedSwitches = sws, rp_maxAllowedHops = hops,
              rp_requiredMinRelativeBandwidth = bw, rp_preferRedundantPath = a5,
              rp_requireFreshEvidence = a6, rp_maxStalenessNanos = stale,
              rp_factors = fs\<rparr>))))))))))))"

section \<open>Decisions\<close>

definition default_RouteDecision :: RouteDecision where
  "default_RouteDecision = \<lparr>
     rd_id = MkId 0, rd_gen = MkGen 0, rd_source = MkId 0, rd_destination = MkId 0,
     rd_sourceKnown = False, rd_destinationKnown = False, rd_fabricGen = MkGen 0,
     rd_topologyGen = MkGen 0, rd_partitionGen = MkGen 0, rd_partition = MkStringId [],
     rd_partitionKnown = False, rd_outcome = RouteOutcome.NO_ROUTE, rd_outcomeReason = [],
     rd_authoritative = False, rd_candidatePaths = [], rd_rejected = [], rd_selected = None,
     rd_policy = MkStringId [], rd_policySnapshot = default_RoutePolicy, rd_factorScores = [],
     rd_explanation = [], rd_snapshotId = MkStringId [], rd_observation = MkId 0,
     rd_observationKnown = False, rd_worker = MkStringId [], rd_workerKnown = False,
     rd_workerBoot = 0, rd_epoch = 0, rd_createdAtNanos = 0\<rparr>"

definition selected_key :: "RouteDecision \<Rightarrow> string" where
  "selected_key d = (case rd_selected d of None \<Rightarrow> [] | Some p \<Rightarrow> canonicalKey p)"

definition encodeDecision :: "RouteDecision \<Rightarrow> bytes" where
  "encodeDecision d =
     put_u8 (RouteOutcome_to_u8 (rd_outcome d)) @ put_str (rd_outcomeReason d)
     @ put_str (selected_key d)
     @ put_u32 (word_of_nat (length (rd_candidatePaths d)))
     @ put_bool (rd_authoritative d) @ put_u64 (rd_epoch d) @ put_u64 (gen_get (rd_topologyGen d))
     @ put_u64 (gen_get (rd_partitionGen d))"

definition decodeDecision :: "bytes \<Rightarrow> RouteDecision Result" where
  "decodeDecision r =
     require ''outcome'' (get_u8 r) (\<lambda>(out, r).
     require ''reason'' (get_str r) (\<lambda>(reason, r).
     require ''key'' (get_str r) (\<lambda>(key, r).
     require ''candidates'' (get_u32 r) (\<lambda>(cc, r).
     require ''authoritative'' (get_bool r) (\<lambda>(au, r).
     require ''epoch'' (get_u64 r) (\<lambda>(ep, r).
     require ''topogen'' (get_u64 r) (\<lambda>(tg, r).
     require ''partgen'' (get_u64 r) (\<lambda>(pg, r).
     let d = default_RouteDecision\<lparr>rd_outcome := RouteOutcome_of_u8 out, rd_outcomeReason := reason,
               rd_authoritative := au, rd_epoch := ep, rd_topologyGen := MkGen tg,
               rd_partitionGen := MkGen pg\<rparr>
     in Inr (if key \<noteq> [] then d\<lparr>rd_selected := Some (default_FabricPath\<lparr>fp_source := rd_source d,
                  fp_destination := rd_destination d\<rparr>)\<rparr> else d)))))))))"

section \<open>The payloads a worker sends\<close>

definition encodePolicyLite :: "RoutePolicy \<Rightarrow> bytes" where
  "encodePolicyLite p =
     put_str (sid_value (rp_id p)) @ put_bool (rp_requireSufficientsSwitches p)
     @ put_bool (rp_requireSufficientsPorts p) @ put_bool (rp_requireNonDegradedPath p)
     @ put_bool (rp_insidePartition p)
     @ put_u64 (rp_maxAllowedSwitches p) @ put_u64 (rp_maxAllowedHops p)
     @ writeDouble (rp_requiredMinRelativeBandwidth p)
     @ put_bool (rp_preferRedundantPath p) @ put_bool (rp_requireFreshEvidence p)
     @ put_u64 (rp_maxStalenessNanos p)
     @ put_u32 (word_of_nat (length (rp_factors p))) @ encodeFactors (rp_factors p)"

definition hello_payload :: bytes where
  "hello_payload = put_u8 kWireProtocolVersion"

definition register_payload :: "WorkerId \<Rightarrow> WorkerBootId \<Rightarrow> CoordinatorEpoch \<Rightarrow> bytes" where
  "register_payload worker boot epoch =
     put_u8 kWireProtocolVersion @ put_u64 epoch @ put_str (sid_value worker) @ put_u64 boot"

definition publish_payload :: "bytes \<Rightarrow> WorkerId \<Rightarrow> WorkerBootId \<Rightarrow> CoordinatorEpoch \<Rightarrow> bytes" where
  "publish_payload blob worker boot epoch =
     put_u8 kWireProtocolVersion @ put_u64 epoch @ put_str (sid_value worker) @ put_u64 boot
     @ put_u32 (word_of_nat (length blob)) @ blob"

definition measurement_payload :: "Measurement \<Rightarrow> CoordinatorEpoch \<Rightarrow> bytes" where
  "measurement_payload m epoch =
     put_u64 epoch @ put_u64 (get (me_source m)) @ put_u64 (get (me_destination m))
     @ put_u64 (me_payloadBytes m) @ put_u64 (me_iterations m) @ put_u64 (me_elapsedNanos m)"

definition query_payload :: "DeviceId \<Rightarrow> DeviceId \<Rightarrow> RoutePolicy \<Rightarrow> bytes" where
  "query_payload src dst policy =
     (let pp = encodePolicyLite policy
      in put_u64 (get src) @ put_u64 (get dst) @ put_u32 (word_of_nat (length pp)) @ pp)"

section \<open>Reading back\<close>

lemma encodePolicyLite_eq: "encodePolicyLite p = encodePolicy p"
  by (simp add: encodePolicyLite_def encodePolicy_def)

definition policy_ok :: "RoutePolicy \<Rightarrow> bool" where
  "policy_ok p \<longleftrightarrow> str_ok (sid_value (rp_id p)) \<and> length (rp_factors p) \<le> 24 \<and>
     list_all (\<lambda>x. RouteFactor_canonical (fst x)) (rp_factors p)"

lemma decodeFactors_back:
  "list_all (\<lambda>x. RouteFactor_canonical (fst x)) fs \<Longrightarrow>
   decodeFactors (length fs) (encodeFactors fs @ rest) = Inr fs"
  by (induction fs) (auto simp: encodeFactors_def writeDouble_def readDouble_def)

lemma decodePolicy_back:
  assumes "policy_ok p"
  shows "decodePolicy (encodePolicy p) = Inr p"
proof -
  have "unat (word_of_nat (length (rp_factors p)) :: u32) = length (rp_factors p)"
    "\<not> (24 :: u32) < word_of_nat (length (rp_factors p))"
    using assms by (auto simp: policy_ok_def unat_of_nat word_less_nat_alt)
  moreover have "decodeFactors (length (rp_factors p)) (encodeFactors (rp_factors p)) = Inr (rp_factors p)"
    using decodeFactors_back [of "rp_factors p" "[]"] assms by (simp add: policy_ok_def)
  moreover have "str_ok (sid_value (rp_id p))"
    using assms by (simp add: policy_ok_def)
  ultimately show ?thesis
    by (simp add: decodePolicy_def encodePolicy_def writeDouble_def readDouble_def)
qed

section \<open>Properties\<close>

text \<open>
  Policies survive the wire: a policy with at most 24 factors, proper enumeration values and
  an identity within the string bound is decoded exactly as it was encoded, and a policy with
  more factors is refused.
\<close>

theorem policy_roundtrip:
  assumes "str_ok (sid_value (rp_id p))" "length (rp_factors p) < 2 ^ 32"
    and "list_all (\<lambda>x. RouteFactor_canonical (fst x)) (rp_factors p)"
  shows "decodePolicy (encodePolicy p) =
    (if length (rp_factors p) \<le> 24 then Inr p else Inl (err ErrorCode.PROTOCOL_ERROR ''factor count''))"
proof (cases "length (rp_factors p) \<le> 24")
  case True
  then show ?thesis
    using decodePolicy_back assms by (simp add: policy_ok_def)
next
  case False
  have "(24 :: u32) < word_of_nat (length (rp_factors p))"
    using False assms(2) by (simp add: word_less_nat_alt unat_of_nat)
  with False show ?thesis
    using assms(1) by (simp add: decodePolicy_def encodePolicy_def writeDouble_def readDouble_def)
qed

theorem policy_roundtrip_witness: "decodePolicy (encodePolicy default_RoutePolicy) = Inr default_RoutePolicy"
  using policy_roundtrip [of default_RoutePolicy]
  by (simp add: default_RoutePolicy_def str_ok_def RouteFactor_canonical_def)

end
