(* ===== verification/Fabric_Authority.thy ===== *)
theory Fabric_Authority
  imports Fabric_Transactions
begin

text \<open>
  When a route decision loses its authority, and that it does not get it back. Generations
  only grow along a run of the registry, so a decision whose captured switch generation has
  been overtaken stays revoked for as long as that switch is not removed.
\<close>

section \<open>Runs\<close>

definition reg_run :: "(RegOp \<times> u64) list \<Rightarrow> FabricRegistry \<Rightarrow> FabricRegistry" where
  "reg_run ops r = fold (\<lambda>x. apply_op (fst x) (snd x)) ops r"

lemma reg_run_simps [simp]:
  "reg_run [] r = r"
  "reg_run (x # ops) r = reg_run ops (apply_op (fst x) (snd x) r)"
  by (simp_all add: reg_run_def)

lemma reg_run_append: "reg_run (ops @ ops') r = reg_run ops' (reg_run ops r)"
  by (simp add: reg_run_def)

lemma reg_reaches_iff: "reg_reaches r r' \<longleftrightarrow> (\<exists>ops. r' = reg_run ops r)"
proof
  assume "reg_reaches r r'"
  then show "\<exists>ops. r' = reg_run ops r"
  proof induction
    case reg_refl
    then show ?case by (metis reg_run_simps(1))
  next
    case (reg_step r' op now)
    then obtain ops where "r' = reg_run ops r" by blast
    then have "apply_op op now r' = reg_run (ops @ [(op, now)]) r"
      by (simp add: reg_run_append)
    then show ?case by blast
  qed
next
  have "reg_reaches r (reg_run ops r)" for ops
    by (induction ops rule: rev_induct) (simp_all add: reg_run_append reg_reaches.intros)
  then show "\<exists>ops. r' = reg_run ops r \<Longrightarrow> reg_reaches r r'" by blast
qed

lemma reg_inv_wf: "reg_inv r \<Longrightarrow> topo_wf (r_current r)"
  by (simp add: reg_inv_def)

lemma reg_inv_run: "reg_inv r \<Longrightarrow> reg_inv (reg_run ops r)"
  using reg_reaches_iff reg_reaches_inv by blast

section \<open>One step and the generations\<close>

lemma gens_monotone_refl [simp]: "gens_monotone t t"
  by (simp add: gens_monotone_def gens_le_def)

lemma transact_gens:
  assumes "registry_edit edit" and "topo_wf (r_current r)"
  shows "gens_monotone (r_current r) (r_current (snd (transact_with pfx edit now r)))"
proof -
  obtain res r' where t: "transact_with pfx edit now r = (res, r')"
    by fastforce
  then show ?thesis
  proof (cases rule: transact_cases)
    case (committed cand)
    then show ?thesis
      using registry_edit.transact_monotone [OF assms] t by (metis snd_conv)
  qed (use t in auto)
qed

text \<open>Which operations leave the current snapshot alone, and which publish one.\<close>

lemma apply_op_snapshot:
  "op_edit op = None \<Longrightarrow> r_current (apply_op op now r) = r_current r \<or>
   (\<exists>r0 pfx edit. r_current r0 = r_current r \<and> r_epoch r0 = r_epoch r \<and>
      (edit = expireDynamicEvidence_edit \<or> (\<exists>e. edit = applyBulk_edit e)) \<and>
      apply_op op now r = snd (transact_with pfx edit now r0))"
proof (cases op)
  case ExpireDynamicEvidence
  then show ?thesis
    by (intro disjI2 exI [of _ "r\<lparr>r_measurements := map (\<lambda>m. m\<lparr>me_matched := False\<rparr>) (r_measurements r)\<rparr>"]
        exI [of _ "[]"] exI [of _ expireDynamicEvidence_edit])
      (simp add: apply_op_def expireDynamicEvidence_def)
next
  case ScanBackend
  then have "apply_op op now r = r \<or> (\<exists>e. apply_op op now r = snd (applyBulk e now r))"
    using snd_scanBackend [of now r] by (simp add: apply_op_def)
  then show ?thesis
    unfolding applyBulk_def by metis
qed (auto simp: apply_op_def publishMeasurement_def recordDecision_def route_def route_draw_def
    route_log_def setEpoch_def bindBackend_def Let_def split: sum.splits option.splits)

lemma apply_op_cases:
  obtains (kept) "r_current (apply_op op now r) = r_current r"
  | (transaction) r0 pfx edit where "r_current r0 = r_current r" "r_epoch r0 = r_epoch r"
      "registry_edit edit" "apply_op op now r = snd (transact_with pfx edit now r0)"
      "op_edit op = Some (pfx, edit) \<or> edit = expireDynamicEvidence_edit \<or> (\<exists>e. edit = applyBulk_edit e)"
proof (cases "op_edit op")
  case None
  from apply_op_snapshot [OF this, of now r] show ?thesis
    using kept transaction expireDynamicEvidence.registry_edit_axioms applyBulk.registry_edit_axioms
    by blast
next
  case (Some pe)
  obtain pfx edit where "pe = (pfx, edit)" by fastforce
  with Some show ?thesis
    by (intro transaction [of r edit pfx]) (auto simp: apply_op_edit op_edit_contract)
qed

lemma apply_op_gens:
  "topo_wf (r_current r) \<Longrightarrow> gens_monotone (r_current r) (r_current (apply_op op now r))"
proof (cases rule: apply_op_cases [of op now r])
  case (transaction r0 pfx edit)
  assume "topo_wf (r_current r)"
  then show ?thesis
    using transact_gens [OF transaction(3), of r0 pfx now] transaction by simp
qed simp

section \<open>Only removal makes a switch disappear\<close>

lemma om_count_simps [simp]:
  "om_count (om_insert k v m) j \<longleftrightarrow> j = k \<or> om_count m j"
  "om_count (om_update k f m) j \<longleftrightarrow> om_count m j"
  "om_count (om_map g m) j \<longleftrightarrow> om_count m j"
  "om_count (om_erase k m) j \<longleftrightarrow> j \<noteq> k \<and> om_count m j"
  by (auto simp: om_count_def)

lemma om_count_insert_all: "om_count m j \<Longrightarrow> om_count (om_insert_all key vs m) j"
  unfolding om_insert_all_def by (induction vs arbitrary: m) auto

lemma edit_keeps_switch:
  assumes "op_edit op = Some (pfx, edit)" and "op \<noteq> RemoveSwitch i"
    and "edit t = Inr c" and "om_count (t_switches t) i"
  shows "om_count (t_switches c) i"
  using assms
  by (cases op) (auto simp: edit_defs Let_def om_count_insert_all split: if_splits option.splits)

lemma apply_op_keeps_switch:
  assumes "op \<noteq> RemoveSwitch i" and "om_count (t_switches (r_current r)) i"
  shows "om_count (t_switches (r_current (apply_op op now r))) i"
proof (cases rule: apply_op_cases [of op now r])
  case kept
  then show ?thesis using assms(2) by simp
next
  case (transaction r0 pfx edit)
  have keeps: "om_count (t_switches c) i" if "edit (r_current r) = Inr c" for c
    using transaction(5) that assms edit_keeps_switch
    by (auto simp: expireDynamicEvidence_edit_def applyBulk_edit_def om_count_insert_all)
  obtain res r' where t: "transact_with pfx edit now r0 = (res, r')" by fastforce
  then show ?thesis
    by (cases rule: transact_cases) (use t transaction keeps assms(2) in auto)
qed

section \<open>Overtaken generations\<close>

definition overtaken :: "FabricTopology \<Rightarrow> SwitchId \<Rightarrow> SwitchGeneration \<Rightarrow> bool" where
  "overtaken t i g \<longleftrightarrow> (\<exists>s. lookupSwitch t i = Some s \<and> g < sw_gen s)"

lemma overtaken_step:
  assumes "topo_wf (r_current r)" and "overtaken (r_current r) i g" and "op \<noteq> RemoveSwitch i"
  shows "overtaken (r_current (apply_op op now r)) i g"
proof -
  obtain s where s: "lookupSwitch (r_current r) i = Some s" "g < sw_gen s"
    using assms(2) by (auto simp: overtaken_def)
  then obtain s' where s': "lookupSwitch (r_current (apply_op op now r)) i = Some s'"
    using apply_op_keeps_switch [OF assms(3), of r now] by (auto simp: om_count_def lookupSwitch_def)
  then have "sw_gen s \<le> sw_gen s'"
    using apply_op_gens [OF assms(1), of op now] s(1)
    by (simp add: gens_monotone_def gens_le_def lookupSwitch_def)
  then show ?thesis
    using s s' by (auto simp: overtaken_def)
qed

lemma overtaken_run:
  "reg_inv r \<Longrightarrow> overtaken (r_current r) i g \<Longrightarrow> RemoveSwitch i \<notin> fst ` set ops \<Longrightarrow>
   overtaken (r_current (reg_run ops r)) i g"
proof (induction ops arbitrary: r)
  case (Cons x ops)
  then show ?case
    using overtaken_step [OF reg_inv_wf, of r i g "fst x" "snd x"]
      reg_inv_apply_op [of r "fst x" "snd x"] by auto
qed simp

lemma overtaken_revokes:
  assumes "overtaken t i g" and "rd_selected d = Some p" and "(i, g) \<in> set (fp_switchGens p)"
  shows "\<not> routeDecisionStillAuthoritative d t"
proof -
  have "\<not> switch_unchanged t (i, g)"
    using assms(1) by (auto simp: overtaken_def switch_unchanged_def less_Gen_def)
  then show ?thesis
    using assms(2,3) by (auto simp: routeDecisionStillAuthoritative_def list_all_iff)
qed

lemma authoritative_switch:
  assumes "routeDecisionStillAuthoritative d t" and "rd_selected d = Some p"
    and "(i, g) \<in> set (fp_switchGens p)"
  shows "\<exists>s. lookupSwitch t i = Some s \<and> sw_gen s = g \<and> usableState (sw_state s)"
  using assms by (auto simp: routeDecisionStillAuthoritative_def list_all_iff switch_unchanged_def
      Gen_eq_iff split: if_splits option.splits)

section \<open>Committed mutations\<close>

lemma committed_snapshot:
  assumes "fst (transact_with pfx edit now r) = Inr t"
  obtains cand where "edit (r_current r) = Inr cand" "t = stamped r cand"
    "snd (transact_with pfx edit now r) = published now t r"
    "candidate_problem (r_current r) (finalizeProvenance cand) = None"
proof -
  obtain r' where "transact_with pfx edit now r = (Inr t, r')"
    using assms by (metis prod.collapse)
  then show ?thesis
    by (cases rule: transact_cases) (use that \<open>transact_with pfx edit now r = (Inr t, r')\<close> in auto)
qed

subsection \<open>A failing switch\<close>

lemma setSwitchState_overtakes:
  assumes "reg_inv r" and "fst (setSwitchState i st now r) = Inr t" and "switch_failing st"
    and "lookupSwitch (r_current r) i = Some s" and "g \<le> sw_gen s"
  shows "overtaken (r_current (snd (setSwitchState i st now r))) i g"
proof -
  obtain cand where c: "setSwitchState_edit i st (r_current r) = Inr cand" "t = stamped r cand"
    "snd (setSwitchState i st now r) = published now t r"
    "candidate_problem (r_current r) (finalizeProvenance cand) = None"
    using assms(2) committed_snapshot unfolding setSwitchState_def by metis
  then have s': "lookupSwitch cand i = Some (s\<lparr>sw_gen := gen_next (sw_gen s), sw_state := st\<rparr>)"
    using assms(3,4) by (auto simp: setSwitchState_edit_def lookupSwitch_def split: if_splits)
  have "topo_wf cand"
    using setSwitchState.edit_wf [OF reg_inv_wf [OF assms(1)] c(1)] .
  then have "gens_monotone (r_current r) cand"
    using c(4) by (simp add: candidate_problem_None)
  then have "sw_gen s \<le> gen_next (sw_gen s)"
    using assms(4) s' by (fastforce simp: gens_monotone_def gens_le_def lookupSwitch_def)
  then have "sw_gen s < gen_next (sw_gen s)"
    by (metis gen_next_neq order.strict_iff_order)
  then show ?thesis
    using assms(5) s' c by (simp add: overtaken_def)
qed

subsection \<open>Fencing a worker\<close>

text \<open>The decision rests on a record published by this incarnation of the worker.\<close>

definition rests_on_worker :: "FabricTopology \<Rightarrow> WorkerId \<Rightarrow> WorkerBootId \<Rightarrow> RouteDecision \<Rightarrow> bool" where
  "rests_on_worker t w b d \<longleftrightarrow>
     (\<exists>p i g s. rd_selected d = Some p \<and> (i, g) \<in> set (fp_switchGens p) \<and>
        lookupSwitch t i = Some s \<and> sw_workerKnown s \<and> sw_worker s = w \<and> sw_workerBoot s = b) \<or>
     (\<exists>p i g s. rd_selected d = Some p \<and> (i, g) \<in> set (fp_portGens p) \<and>
        lookupPort t i = Some s \<and> po_workerKnown s \<and> po_worker s = w \<and> po_workerBoot s = b) \<or>
     (\<exists>q. rd_partitionKnown d \<and> lookupPartition t (rd_partition d) = Some q \<and>
        pa_workerKnown q \<and> pa_worker q = w \<and> pa_workerBoot q = b) \<or>
     (\<exists>i q. i \<in> {rd_source d, rd_destination d} \<and> lookupDevice t i = Some q \<and>
        dev_workerKnown q \<and> dev_worker q = w \<and> dev_workerBoot q = b)"

lemma invalidateForWorker_lookups:
  assumes "fst (invalidateForWorker w b now r) = Inr t"
  shows "r_current (snd (invalidateForWorker w b now r)) = t"
    and "lookupSwitch t i = map_option (fence_switch w b) (lookupSwitch (r_current r) i)"
    and "lookupPort t j = map_option (fence_port w b) (lookupPort (r_current r) j)"
    and "lookupPartition t k = map_option (fence_partition w b) (lookupPartition (r_current r) k)"
    and "lookupDevice t l = map_option (fence_device w b) (lookupDevice (r_current r) l)"
proof -
  obtain cand where c: "invalidateForWorker_edit w b (r_current r) = Inr cand" "t = stamped r cand"
    "snd (invalidateForWorker w b now r) = published now t r"
    using assms committed_snapshot unfolding invalidateForWorker_def by metis
  then show "r_current (snd (invalidateForWorker w b now r)) = t"
    by simp
  show "lookupSwitch t i = map_option (fence_switch w b) (lookupSwitch (r_current r) i)"
    "lookupPort t j = map_option (fence_port w b) (lookupPort (r_current r) j)"
    "lookupPartition t k = map_option (fence_partition w b) (lookupPartition (r_current r) k)"
    "lookupDevice t l = map_option (fence_device w b) (lookupDevice (r_current r) l)"
    using c by (auto simp: invalidateForWorker_edit_def Let_def lookup_defs)
qed

lemma fenced_states [simp]:
  "sw_workerKnown s \<Longrightarrow> sw_worker s = w \<Longrightarrow> sw_workerBoot s = b \<Longrightarrow>
     sw_state (fence_switch w b s) = EntityState.REVALIDATION_REQUIRED"
  "po_workerKnown p \<Longrightarrow> po_worker p = w \<Longrightarrow> po_workerBoot p = b \<Longrightarrow>
     po_state (fence_port w b p) = EntityState.REVALIDATION_REQUIRED"
  "pa_workerKnown q \<Longrightarrow> pa_worker q = w \<Longrightarrow> pa_workerBoot q = b \<Longrightarrow>
     pa_state (fence_partition w b q) = PartitionState.REVALIDATION_REQUIRED"
  "dev_workerKnown x \<Longrightarrow> dev_worker x = w \<Longrightarrow> dev_workerBoot x = b \<Longrightarrow>
     dev_state (fence_device w b x) = EntityState.REVALIDATION_REQUIRED"
  by (simp_all add: fence_switch_def fence_port_def fence_partition_def fence_device_def)

lemma not_usable_revalidation [simp]: "\<not> usableState EntityState.REVALIDATION_REQUIRED"
  by (simp add: usableState_def)

lemma fenced_decision:
  assumes "fst (invalidateForWorker w b now r) = Inr t" and "rests_on_worker (r_current r) w b d"
  shows "\<not> routeDecisionStillAuthoritative d t"
  using assms(2) unfolding rests_on_worker_def
proof (elim disjE exE conjE)
  fix p i g s
  assume *: "rd_selected d = Some p" "(i, g) \<in> set (fp_switchGens p)"
    "lookupSwitch (r_current r) i = Some s" "sw_workerKnown s" "sw_worker s = w" "sw_workerBoot s = b"
  then have "\<not> switch_unchanged t (i, g)"
    by (simp add: switch_unchanged_def invalidateForWorker_lookups(2) [OF assms(1)])
  with * show ?thesis
    by (auto simp: routeDecisionStillAuthoritative_def list_all_iff)
next
  fix p i g s
  assume *: "rd_selected d = Some p" "(i, g) \<in> set (fp_portGens p)"
    "lookupPort (r_current r) i = Some s" "po_workerKnown s" "po_worker s = w" "po_workerBoot s = b"
  then have "\<not> port_unchanged t (i, g)"
    by (simp add: port_unchanged_def invalidateForWorker_lookups(3) [OF assms(1)])
  with * show ?thesis
    by (auto simp: routeDecisionStillAuthoritative_def list_all_iff)
next
  fix q
  assume *: "rd_partitionKnown d" "lookupPartition (r_current r) (rd_partition d) = Some q"
    "pa_workerKnown q" "pa_worker q = w" "pa_workerBoot q = b"
  then have "\<not> partition_unchanged t (rd_partition d) (rd_partitionGen d)"
    by (simp add: partition_unchanged_def partition_stale_def invalidateForWorker_lookups(4) [OF assms(1)])
  with * show ?thesis
    by (simp add: routeDecisionStillAuthoritative_def)
next
  fix i q
  assume *: "i \<in> {rd_source d, rd_destination d}" "lookupDevice (r_current r) i = Some q"
    "dev_workerKnown q" "dev_worker q = w" "dev_workerBoot q = b"
  then have "\<not> endpoint_current t i"
    by (simp add: endpoint_current_def invalidateForWorker_lookups(5) [OF assms(1)])
  with *(1) show ?thesis
    by (auto simp: routeDecisionStillAuthoritative_def)
qed

subsection \<open>A changed partition\<close>

lemma publishPartition_gen:
  assumes "fst (publishPartition part now r) = Inr t"
    and "lookupPartition (r_current r) (pa_id part) = Some old" and "partition_changed old part"
  shows "r_current (snd (publishPartition part now r)) = t"
    and "\<exists>q. lookupPartition t (pa_id part) = Some q \<and>
      gen_get (pa_gen q) = max (gen_get (pa_gen old)) (gen_get (pa_gen part)) + 1"
proof -
  obtain cand where c: "publishPartition_edit part (r_current r) = Inr cand" "t = stamped r cand"
    "snd (publishPartition part now r) = published now t r"
    using assms(1) committed_snapshot unfolding publishPartition_def by metis
  then show "r_current (snd (publishPartition part now r)) = t"
    by simp
  show "\<exists>q. lookupPartition t (pa_id part) = Some q \<and>
      gen_get (pa_gen q) = max (gen_get (pa_gen old)) (gen_get (pa_gen part)) + 1"
    using c assms(2,3) by (auto simp: publishPartition_edit_def Let_def lookupPartition_def
        staged_partition_def split: if_splits)
qed

lemma max_succ_neq:
  fixes a b :: u64
  assumes "b \<noteq> - 1"
  shows "max a b + 1 \<noteq> a"
proof (cases "a < b")
  case True
  have "b < b + 1"
    using assms gen_next_less_iff [of "MkGen b"] by (simp add: less_Gen_def)
  with True show ?thesis by (auto simp: max_def)
qed (simp add: max_def)

subsection \<open>Expiry and revalidation\<close>

lemma expire_lookups:
  assumes "fst (expireDynamicEvidence now r) = Inr t"
  shows "r_current (snd (expireDynamicEvidence now r)) = t"
    and "r_epoch (snd (expireDynamicEvidence now r)) = r_epoch r"
    and "lookupSwitch t i = map_option (\<lambda>x. if dynamic (sw_workerKnown x) (sw_provenance x)
      then x\<lparr>sw_state := EntityState.REVALIDATION_REQUIRED\<rparr> else x) (lookupSwitch (r_current r) i)"
    and "lookupPort t j = map_option (\<lambda>x. if dynamic (po_workerKnown x) (po_provenance x)
      then x\<lparr>po_state := EntityState.REVALIDATION_REQUIRED\<rparr> else x) (lookupPort (r_current r) j)"
    and "lookupPartition t k = map_option (\<lambda>x. if dynamic (pa_workerKnown x) (pa_provenance x)
      then x\<lparr>pa_state := PartitionState.REVALIDATION_REQUIRED\<rparr> else x) (lookupPartition (r_current r) k)"
    and "lookupDevice t l = map_option (\<lambda>x. if dynamic (dev_workerKnown x) (dev_provenance x)
      then x\<lparr>dev_state := EntityState.REVALIDATION_REQUIRED\<rparr> else x) (lookupDevice (r_current r) l)"
proof -
  let ?r = "r\<lparr>r_measurements := map (\<lambda>m. m\<lparr>me_matched := False\<rparr>) (r_measurements r)\<rparr>"
  obtain cand where c: "expireDynamicEvidence_edit (r_current r) = Inr cand" "t = stamped ?r cand"
    "snd (expireDynamicEvidence now r) = published now t ?r"
    using assms committed_snapshot [of "[]" expireDynamicEvidence_edit now ?r t]
    unfolding expireDynamicEvidence_def by auto
  then show "r_current (snd (expireDynamicEvidence now r)) = t"
    "r_epoch (snd (expireDynamicEvidence now r)) = r_epoch r"
    by simp_all
  from c show "lookupSwitch t i = map_option (\<lambda>x. if dynamic (sw_workerKnown x) (sw_provenance x)
      then x\<lparr>sw_state := EntityState.REVALIDATION_REQUIRED\<rparr> else x) (lookupSwitch (r_current r) i)"
    "lookupPort t j = map_option (\<lambda>x. if dynamic (po_workerKnown x) (po_provenance x)
      then x\<lparr>po_state := EntityState.REVALIDATION_REQUIRED\<rparr> else x) (lookupPort (r_current r) j)"
    "lookupPartition t k = map_option (\<lambda>x. if dynamic (pa_workerKnown x) (pa_provenance x)
      then x\<lparr>pa_state := PartitionState.REVALIDATION_REQUIRED\<rparr> else x) (lookupPartition (r_current r) k)"
    "lookupDevice t l = map_option (\<lambda>x. if dynamic (dev_workerKnown x) (dev_provenance x)
      then x\<lparr>dev_state := EntityState.REVALIDATION_REQUIRED\<rparr> else x) (lookupDevice (r_current r) l)"
    by (auto simp: expireDynamicEvidence_edit_def lookup_defs)
qed

lemma revalidate_lookups:
  assumes "fst (revalidateAll now r) = Inr t"
  shows "r_current (snd (revalidateAll now r)) = t" and "t_epoch t = r_epoch r"
    and "lookupSwitch t i = map_option (\<lambda>x. if entity_stale (sw_state x)
      then x\<lparr>sw_state := EntityState.UP\<rparr> else x) (lookupSwitch (r_current r) i)"
    and "lookupPort t j = map_option (\<lambda>x. if entity_stale (po_state x)
      then x\<lparr>po_state := EntityState.UP\<rparr> else x) (lookupPort (r_current r) j)"
    and "lookupPartition t k = map_option (\<lambda>x. if partition_stale (pa_state x)
      then x\<lparr>pa_state := PartitionState.ACTIVE\<rparr> else x) (lookupPartition (r_current r) k)"
    and "lookupDevice t l = map_option (\<lambda>x. if entity_stale (dev_state x)
      then x\<lparr>dev_state := EntityState.UP\<rparr> else x) (lookupDevice (r_current r) l)"
proof -
  obtain cand where c: "revalidateAll_edit (r_current r) = Inr cand" "t = stamped r cand"
    "snd (revalidateAll now r) = published now t r"
    using assms committed_snapshot unfolding revalidateAll_def by metis
  then show "r_current (snd (revalidateAll now r)) = t" "t_epoch t = r_epoch r"
    by simp_all
  from c show "lookupSwitch t i = map_option (\<lambda>x. if entity_stale (sw_state x)
      then x\<lparr>sw_state := EntityState.UP\<rparr> else x) (lookupSwitch (r_current r) i)"
    "lookupPort t j = map_option (\<lambda>x. if entity_stale (po_state x)
      then x\<lparr>po_state := EntityState.UP\<rparr> else x) (lookupPort (r_current r) j)"
    "lookupPartition t k = map_option (\<lambda>x. if partition_stale (pa_state x)
      then x\<lparr>pa_state := PartitionState.ACTIVE\<rparr> else x) (lookupPartition (r_current r) k)"
    "lookupDevice t l = map_option (\<lambda>x. if entity_stale (dev_state x)
      then x\<lparr>dev_state := EntityState.UP\<rparr> else x) (lookupDevice (r_current r) l)"
    by (auto simp: revalidateAll_edit_def lookup_defs)
qed

lemma authority_transfer:
  assumes "routeDecisionStillAuthoritative d t" and "t_epoch t' = t_epoch t"
    and "\<And>i. endpoint_current t i \<Longrightarrow> endpoint_current t' i"
    and "\<And>i g. partition_unchanged t i g \<Longrightarrow> partition_unchanged t' i g"
    and "\<And>x. switch_unchanged t x \<Longrightarrow> switch_unchanged t' x"
    and "\<And>x. port_unchanged t x \<Longrightarrow> port_unchanged t' x"
  shows "routeDecisionStillAuthoritative d t'"
  using assms by (auto simp: routeDecisionStillAuthoritative_def list_all_iff
      split: if_splits option.splits)

lemma expire_revalidate_authority:
  assumes "fst (expireDynamicEvidence now r) = Inr t1"
    and "fst (revalidateAll now' (snd (expireDynamicEvidence now r))) = Inr t2"
    and "r_epoch r = t_epoch (r_current r)" and "routeDecisionStillAuthoritative d (r_current r)"
  shows "routeDecisionStillAuthoritative d t2"
proof (rule authority_transfer [OF assms(4)])
  note l1 = expire_lookups [OF assms(1)]
  note l2 = revalidate_lookups [OF assms(2), unfolded l1(1)]
  show "t_epoch t2 = t_epoch (r_current r)"
    using l2(2) l1(2) assms(3) by simp
  show "endpoint_current (r_current r) i \<Longrightarrow> endpoint_current t2 i" for i
    by (auto simp: endpoint_current_def l1(6) l2(6) usableState_def entity_stale_def
        split: option.splits)
  show "partition_unchanged (r_current r) i g \<Longrightarrow> partition_unchanged t2 i g" for i g
    by (auto simp: partition_unchanged_def l1(5) l2(5) partition_stale_def split: option.splits)
  show "switch_unchanged (r_current r) x \<Longrightarrow> switch_unchanged t2 x" for x
    by (auto simp: switch_unchanged_def l1(3) l2(3) usableState_def entity_stale_def
        split: option.splits)
  show "port_unchanged (r_current r) x \<Longrightarrow> port_unchanged t2 x" for x
    by (auto simp: port_unchanged_def l1(4) l2(4) usableState_def entity_stale_def
        split: option.splits)
qed

section \<open>Sample decisions of a registry\<close>

lemma route_result: "\<exists>d. fst (route src dst policy now r) = Inr d"
proof -
  obtain d where "computeRoute (r_current r) src dst policy (Some (r_measurements r))
      (MkId (r_nextDecisionId r)) (MkGen 0) (MkStringId (''snap'' @ u64_to_string (t_id (r_current r))))
      now (r_epoch r) = Inr d"
    using computeRoute_total by blast
  then show ?thesis
    by (simp add: route_def route_read_def route_draw_def route_compute_def Let_def)
qed

lemma pair_answer:
  "decisionStillAuthoritative pair_registry (sample_answer pair_registry) \<and>
   map_option fp_switchGens (rd_selected (sample_answer pair_registry)) = Some [(MkId 10, MkGen 1)]"
  by code_simp

text \<open>A fabric whose switch was published by worker \<open>w1\<close> in its boot 3.\<close>

definition owned_bulk :: BulkEdit where
  "owned_bulk = (let e = bulk_of_scan (buildSyntheticScan SINGLE_SWITCH_TWO_GPU)
     in e\<lparr>be_switches := map (\<lambda>s. s\<lparr>sw_worker := MkStringId ''w1'', sw_workerKnown := True,
            sw_workerBoot := 3\<rparr>) (be_switches e)\<rparr>)"

definition empty_bulk :: BulkEdit where
  "empty_bulk = \<lparr>be_devices = [], be_switches = [], be_ports = [], be_links = [],
     be_partitions = []\<rparr>"

definition owned_registry :: FabricRegistry where
  "owned_registry = snd (applyBulk owned_bulk 5 FabricRegistry_new)"

lemma owned_facts:
  "\<not> isl (fst (invalidateForWorker (MkStringId ''w1'') 3 9 owned_registry)) \<and>
   map_option fp_switchGens (rd_selected (sample_answer owned_registry)) = Some [(MkId 10, MkGen 1)] \<and>
   map_option (\<lambda>s. (sw_workerKnown s, sw_worker s, sw_workerBoot s))
     (lookupSwitch (r_current owned_registry) (MkId 10)) = Some (True, MkStringId ''w1'', 3)"
  by code_simp

section \<open>Properties\<close>

text \<open>
  (C13) A switch failure revokes for good: once a switch is put into a failing state, no
  decision that was authoritative and crosses the switch is authoritative again, whatever
  operations follow, as long as the switch itself is not removed from the registry. In
  particular bringing the switch up again does not revive the decision.
\<close>

theorem switch_failure_revokes_forever:
  assumes "reg_inv r" and "fst (setSwitchState i st now r) = Inr t" and "switch_failing st"
    and "decisionStillAuthoritative r d" and "rd_selected d = Some p"
    and "(i, g) \<in> set (fp_switchGens p)" and "RemoveSwitch i \<notin> fst ` set ops"
  shows "\<not> decisionStillAuthoritative (reg_run ops (snd (setSwitchState i st now r))) d"
proof -
  obtain s where "lookupSwitch (r_current r) i = Some s" "sw_gen s = g"
    using authoritative_switch assms(4-6)
    unfolding decisionStillAuthoritative_def snapshot_def by blast
  then have "overtaken (r_current (snd (setSwitchState i st now r))) i g"
    using setSwitchState_overtakes [OF assms(1-3)] by simp
  moreover have "reg_inv (snd (setSwitchState i st now r))"
    using reg_inv_apply_op [OF assms(1), of "SetSwitchState i st" now] by (simp add: apply_op_def)
  ultimately show ?thesis
    using overtaken_revokes [OF overtaken_run assms(5,6)] assms(7)
    by (simp add: decisionStillAuthoritative_def snapshot_def)
qed

theorem switch_failure_revokes_forever_witness:
  "\<not> decisionStillAuthoritative
     (reg_run [(SetSwitchState (MkId 10) EntityState.UP, 10)]
       (snd (setSwitchState (MkId 10) EntityState.DOWN 9 pair_registry)))
     (sample_answer pair_registry)"
proof -
  obtain t where t: "fst (setSwitchState (MkId 10) EntityState.DOWN 9 pair_registry) = Inr t"
    using pair_commits by (metis sum.collapse(2))
  obtain p where p: "rd_selected (sample_answer pair_registry) = Some p"
    "(MkId 10, MkGen 1) \<in> set (fp_switchGens p)"
    using pair_answer by auto
  show ?thesis
    by (rule switch_failure_revokes_forever [OF reg_inv_sample t _ _ p])
      (use pair_answer in \<open>simp_all add: switch_failing_def\<close>)
qed



text \<open>
  (C15) Epoch fencing: after the registry has entered another epoch, the first committed
  mutation takes the authority of every decision made in an earlier epoch.
\<close>

theorem epoch_fencing:
  assumes "op_edit op = Some (pfx, edit)" and "fst (transact_with pfx edit now (setEpoch e r)) = Inr t"
    and "rd_epoch d \<noteq> e"
  shows "\<not> decisionStillAuthoritative (apply_op op now (setEpoch e r)) d"
proof -
  obtain cand where "t = stamped (setEpoch e r) cand"
    "snd (transact_with pfx edit now (setEpoch e r)) = published now t (setEpoch e r)"
    using committed_snapshot [OF assms(2)] by metis
  then have "t_epoch (r_current (apply_op op now (setEpoch e r))) = e"
    using apply_op_edit [OF assms(1)] by (simp add: setEpoch_def)
  then show ?thesis
    using assms(3) by (simp add: decisionStillAuthoritative_def snapshot_def
        routeDecisionStillAuthoritative_def)
qed

lemma pair_epoch_facts:
  "\<not> isl (fst (transact revalidateAll_edit 9 (setEpoch 1 pair_registry))) \<and>
   rd_epoch (sample_answer pair_registry) = 0"
  by code_simp

theorem epoch_fencing_witness:
  "\<not> decisionStillAuthoritative (apply_op RevalidateAll 9 (setEpoch 1 pair_registry))
     (sample_answer pair_registry)"
proof -
  obtain t where "fst (transact revalidateAll_edit 9 (setEpoch 1 pair_registry)) = Inr t"
    using pair_epoch_facts by (metis sum.collapse(2))
  from epoch_fencing [OF op_edit.simps(18) this] pair_epoch_facts show ?thesis by simp
qed


abbreviation split_registry :: FabricRegistry where
  "split_registry \<equiv> sample_registry PARTITION_SPLIT"

abbreviation shrunk_partition :: FabricPartition where
  "shrunk_partition \<equiv>
     makeSyntheticPartition (MkStringId ''p0'') [MkId 1] [MkId 10] PartitionState.ACTIVE"

lemma split_answer:
  "decisionStillAuthoritative split_registry (sample_answer split_registry) \<and>
   rd_partitionKnown (sample_answer split_registry) \<and>
   rd_partition (sample_answer split_registry) = MkStringId ''p0''"
  by code_simp

lemma split_partition:
  "map_option (\<lambda>q. (partition_changed q shrunk_partition, pa_gen q))
     (lookupPartition (snapshot split_registry) (MkStringId ''p0'')) = Some (True, MkGen 1) \<and>
   \<not> isl (fst (publishPartition shrunk_partition 9 split_registry))"
  by code_simp


text \<open>
  A bulk edit is not generation-bound: replacing a partition through \<open>applyBulk\<close> under its
  old generation, whatever the new membership is, leaves every decision authoritative; the
  route of the witness keeps its authority although no partition joins its endpoints any
  more.
\<close>

theorem bulk_partition_keeps_authority:
  assumes "fst (applyBulk (empty_bulk\<lparr>be_partitions := [part]\<rparr>) now r) = Inr t"
    and "lookupPartition (snapshot r) (pa_id part) = Some old" and "pa_gen part = pa_gen old"
    and "\<not> partition_stale (pa_state part)" and "r_epoch r = t_epoch (snapshot r)"
    and "decisionStillAuthoritative r d"
  shows "decisionStillAuthoritative (snd (applyBulk (empty_bulk\<lparr>be_partitions := [part]\<rparr>) now r)) d"
proof -
  let ?e = "empty_bulk\<lparr>be_partitions := [part]\<rparr>"
  obtain cand where c: "applyBulk_edit ?e (r_current r) = Inr cand" "t = stamped r cand"
    "snd (applyBulk ?e now r) = published now t r"
    using committed_snapshot [OF assms(1) [unfolded applyBulk_def]] unfolding applyBulk_def by blast
  have look: "lookupDevice t = lookupDevice (r_current r)" "lookupSwitch t = lookupSwitch (r_current r)"
    "lookupPort t = lookupPort (r_current r)"
    "lookupPartition t = (lookupPartition (r_current r))(pa_id part \<mapsto> part)"
    using c(1,2) by (auto simp: applyBulk_edit_def empty_bulk_def om_insert_all_def lookup_defs)
  have "routeDecisionStillAuthoritative d t"
  proof (rule authority_transfer)
    show "routeDecisionStillAuthoritative d (r_current r)"
      using assms(6) by (simp add: decisionStillAuthoritative_def snapshot_def)
    show "t_epoch t = t_epoch (r_current r)"
      using assms(5) c(2) by (simp add: snapshot_def)
    show "partition_unchanged (r_current r) i g \<Longrightarrow> partition_unchanged t i g" for i g
      using assms(2-4) by (auto simp: partition_unchanged_def look snapshot_def)
  qed (simp_all add: endpoint_current_def switch_unchanged_def port_unchanged_def look)
  then show ?thesis
    using c(3) by (simp add: decisionStillAuthoritative_def snapshot_def)
qed

lemma split_bulk:
  "\<not> isl (fst (applyBulk (empty_bulk\<lparr>be_partitions := [shrunk_partition]\<rparr>) 9 split_registry)) \<and>
   commonPartition (snapshot (snd (applyBulk (empty_bulk\<lparr>be_partitions := [shrunk_partition]\<rparr>) 9
     split_registry))) (MkId 1) (MkId 2) = None \<and>
   r_epoch split_registry = t_epoch (snapshot split_registry)"
  by code_simp

theorem bulk_partition_keeps_authority_witness:
  "decisionStillAuthoritative
     (snd (applyBulk (empty_bulk\<lparr>be_partitions := [shrunk_partition]\<rparr>) 9 split_registry))
     (sample_answer split_registry) \<and>
   commonPartition (snapshot (snd (applyBulk (empty_bulk\<lparr>be_partitions := [shrunk_partition]\<rparr>) 9
     split_registry))) (MkId 1) (MkId 2) = None"
proof -
  have id: "pa_id shrunk_partition = MkStringId ''p0''" "pa_gen shrunk_partition = MkGen 1"
    "\<not> partition_stale (pa_state shrunk_partition)"
    by (simp_all add: makeSyntheticPartition_def partition_stale_def)
  obtain q where q: "lookupPartition (snapshot split_registry) (pa_id shrunk_partition) = Some q"
    "pa_gen shrunk_partition = pa_gen q"
    using split_partition by (auto simp: id(1,2))
  obtain t where t: "fst (applyBulk (empty_bulk\<lparr>be_partitions := [shrunk_partition]\<rparr>) 9
      split_registry) = Inr t"
    using split_bulk by (metis sum.collapse(2))
  show ?thesis
    using bulk_partition_keeps_authority [OF t q id(3)] split_bulk split_answer by blast
qed

text \<open>
  Expiring the dynamic evidence and then revalidating everything does not move any
  generation: every decision that was authoritative before is authoritative again.
\<close>

theorem expire_then_revalidate_restores:
  assumes "fst (expireDynamicEvidence now r) = Inr t1"
    and "fst (revalidateAll now' (snd (expireDynamicEvidence now r))) = Inr t2"
    and "r_epoch r = t_epoch (snapshot r)" and "decisionStillAuthoritative r d"
  shows "decisionStillAuthoritative (snd (revalidateAll now' (snd (expireDynamicEvidence now r)))) d"
  using expire_revalidate_authority [OF assms(1,2)] assms(3,4) revalidate_lookups(1) [OF assms(2)]
  by (simp add: decisionStillAuthoritative_def snapshot_def)

lemma owned_expiry:
  "\<not> isl (fst (expireDynamicEvidence 9 owned_registry)) \<and>
   \<not> decisionStillAuthoritative (snd (expireDynamicEvidence 9 owned_registry))
       (sample_answer owned_registry) \<and>
   \<not> isl (fst (revalidateAll 10 (snd (expireDynamicEvidence 9 owned_registry)))) \<and>
   r_epoch owned_registry = t_epoch (snapshot owned_registry) \<and>
   decisionStillAuthoritative owned_registry (sample_answer owned_registry)"
  by code_simp

theorem expire_then_revalidate_restores_witness:
  "\<not> decisionStillAuthoritative (snd (expireDynamicEvidence 9 owned_registry))
     (sample_answer owned_registry) \<and>
   decisionStillAuthoritative
     (snd (revalidateAll 10 (snd (expireDynamicEvidence 9 owned_registry))))
     (sample_answer owned_registry)"
proof -
  obtain t1 where t1: "fst (expireDynamicEvidence 9 owned_registry) = Inr t1"
    using owned_expiry by (metis sum.collapse(2))
  obtain t2 where t2: "fst (revalidateAll 10 (snd (expireDynamicEvidence 9 owned_registry))) = Inr t2"
    using owned_expiry by (metis sum.collapse(2))
  show ?thesis
    using expire_then_revalidate_restores [OF t1 t2] owned_expiry by blast
qed

end
