(* ===== verification/Fabric_Coordinator.thy ===== *)
theory Fabric_Coordinator
  imports Fabric_Persistence Fabric_Transport Fabric_Messages Fabric_Authority
begin

text \<open>
  The coordinator (\<open>runtime/coordinator.h\<close>, \<open>runtime/coordinator.cpp\<close>): the state of the object, the
  handler of every message, the end of a connection, and the coordinator as a transition
  system in which the connections interleave.

  The local variables of one \<open>handleConnection\<close> thread are a \<open>Connection\<close>; the sockets in
  \<open>liveSocks_\<close> are numbers, which stand for the identity of the shared pointers. One event
  of the system is one accepted connection, one received chunk, one handled frame or one end
  of a connection: the handler of a frame changes the boot tables under one lock and the
  registry under another, and is taken as one step. The file system the coordinator persists to
  is part of its state.
\<close>

section \<open>State\<close>

record Connection =
  cn_stream :: FrameStream
  cn_worker :: WorkerId
  cn_boot :: WorkerBootId
  cn_registered :: bool
  cn_frames :: "Frame list"

definition Connection_new :: Connection where
  "Connection_new = \<lparr>cn_stream = FrameStream_new, cn_worker = MkStringId [], cn_boot = 0,
     cn_registered = False, cn_frames = []\<rparr>"

type_synonym sock = nat

record Coordinator =
  cd_registry :: FabricRegistry
  cd_listen :: TcpSocket
  cd_port :: u16
  cd_persistPath :: string
  cd_running :: bool
  cd_connSeq :: u64
  cd_liveSocks :: "sock list"
  cd_maxBoot :: "(WorkerId, WorkerBootId) omap"
  cd_activeBoot :: "(WorkerId, WorkerBootId) omap"
  cd_files :: filesystem

definition Coordinator_new :: Coordinator where
  "Coordinator_new = \<lparr>cd_registry = FabricRegistry_new, cd_listen = TcpSocket_new,
     cd_port = 0, cd_persistPath = [], cd_running = False,
     cd_connSeq = 0, cd_liveSocks = [], cd_maxBoot = [], cd_activeBoot = [], cd_files = Map.empty\<rparr>"

definition liveConnections :: "Coordinator \<Rightarrow> nat" where
  "liveConnections c = length (cd_liveSocks c)"

definition coordinator_epoch :: "Coordinator \<Rightarrow> CoordinatorEpoch" where
  "coordinator_epoch c = r_epoch (cd_registry c)"

definition coordinator_setEpoch :: "CoordinatorEpoch \<Rightarrow> Coordinator \<Rightarrow> Coordinator" where
  "coordinator_setEpoch e c = c\<lparr>cd_registry := setEpoch e (cd_registry c)\<rparr>"

definition setPersistPath :: "string \<Rightarrow> Coordinator \<Rightarrow> Coordinator" where
  "setPersistPath p c = c\<lparr>cd_persistPath := p\<rparr>"

definition coordinator_persistTo :: "string \<Rightarrow> Coordinator \<Rightarrow> unit Result \<times> Coordinator" where
  "coordinator_persistTo path c =
     (case persistTo path (cd_registry c) (cd_files c) of (res, fs) \<Rightarrow> (res, c\<lparr>cd_files := fs\<rparr>))"

section \<open>Publishing a worker's topology\<close>

definition worker_bulk :: "FabricTopology \<Rightarrow> WorkerId \<Rightarrow> WorkerBootId \<Rightarrow> BulkEdit" where
  "worker_bulk topo w b = \<lparr>
     be_devices = map (\<lambda>d. d\<lparr>dev_workerKnown := True, dev_worker := w, dev_workerBoot := b\<rparr>)
       (om_values (t_devices topo)),
     be_switches = map (\<lambda>s. s\<lparr>sw_workerKnown := True, sw_worker := w, sw_workerBoot := b\<rparr>)
       (om_values (t_switches topo)),
     be_ports = map (\<lambda>p. p\<lparr>po_workerKnown := True, po_worker := w, po_workerBoot := b\<rparr>)
       (om_values (t_ports topo)),
     be_links = map (\<lambda>l. l\<lparr>li_workerKnown := True, li_worker := w, li_workerBoot := b\<rparr>)
       (om_values (t_links topo)),
     be_partitions = map (\<lambda>p. p\<lparr>pa_workerKnown := True, pa_worker := w, pa_workerBoot := b\<rparr>)
       (om_values (t_partitions topo))\<rparr>"

definition applyWorkerTopology ::
    "FabricTopology \<Rightarrow> WorkerId \<Rightarrow> WorkerBootId \<Rightarrow> u64 \<Rightarrow> Coordinator \<Rightarrow> Coordinator" where
  "applyWorkerTopology topo w b now c =
     c\<lparr>cd_registry := snd (applyBulk (worker_bulk topo w b) now (cd_registry c))\<rparr>"

section \<open>The messages\<close>

text \<open>The fields of \<open>REGISTER\<close>, and those of \<open>PUBLISH_TOPOLOGY\<close> up to the length of the blob.\<close>

definition parse_register :: "bytes \<Rightarrow> (CoordinatorEpoch \<times> string \<times> WorkerBootId) option" where
  "parse_register r = do {
     (ver, r) \<leftarrow> get_u8 r; (ep, r) \<leftarrow> get_u64 r; (wid, r) \<leftarrow> get_str r; (b, r) \<leftarrow> get_u64 r;
     Some (ep, wid, b)}"

definition parse_publish :: "(CoordinatorEpoch \<times> string \<times> WorkerBootId \<times> u32) parser" where
  "parse_publish r = do {
     (ver, r) \<leftarrow> get_u8 r; (ep, r) \<leftarrow> get_u64 r; (wid, r) \<leftarrow> get_str r; (b, r) \<leftarrow> get_u64 r;
     (blobLen, r) \<leftarrow> get_u32 r;
     Some ((ep, wid, b, blobLen), r)}"

text \<open>Each handler returns the connection, the coordinator and the frames it sends.\<close>

type_synonym handler = "Connection \<Rightarrow> Coordinator \<Rightarrow> Connection \<times> Coordinator \<times> Frame list"

definition handle_register :: "bytes \<Rightarrow> handler" where
  "handle_register payload cn c =
     (case parse_register payload of
        None \<Rightarrow> (cn, c, [])
      | Some (ep, wid, b) \<Rightarrow>
          if ep < r_epoch (cd_registry c) then (cn, c, [])
          else
            let w = MkStringId wid; mit = om_find (cd_maxBoot c) w; ait = om_find (cd_activeBoot c) w in
            if (case mit of Some mb \<Rightarrow> b < mb | None \<Rightarrow> False) then (cn, c, [])
            else if ait = Some b then (cn, c, [])
            else
              (cn\<lparr>cn_worker := w, cn_boot := b, cn_registered := True\<rparr>,
               c\<lparr>cd_maxBoot := (if (case mit of None \<Rightarrow> True | Some mb \<Rightarrow> b > mb)
                               then om_insert w b (cd_maxBoot c) else cd_maxBoot c),
                 cd_activeBoot := om_insert w b (cd_activeBoot c)\<rparr>, []))"

definition handle_publish :: "u64 \<Rightarrow> bytes \<Rightarrow> handler" where
  "handle_publish now payload cn c =
     (if \<not> cn_registered cn then (cn, c, [])
      else case parse_publish payload of
        None \<Rightarrow> (cn, c, [])
      | Some ((ep, wid, b, blobLen), r) \<Rightarrow>
          if ep \<noteq> r_epoch (cd_registry c) then (cn, c, [])
          else if MkStringId wid \<noteq> cn_worker cn \<or> b \<noteq> cn_boot cn then (cn, c, [])
          else if blobLen > kMaxFrameBytes then (cn, c, [])
          else case get_bytes (unat blobLen) r of
            None \<Rightarrow> (cn, c, [])
          | Some (blob, r) \<Rightarrow>
              (case decodeTopology blob of
                 Inl e \<Rightarrow> (cn, c, [])
               | Inr topo \<Rightarrow>
                   let c = applyWorkerTopology topo (cn_worker cn) (cn_boot cn) now c;
                       c = (if cd_persistPath c \<noteq> [] then snd (coordinator_persistTo (cd_persistPath c) c) else c)
                   in (cn, c, [])))"

definition default_Measurement :: Measurement where
  "default_Measurement = \<lparr>me_id = MkId 0, me_runId = MkId 0, me_source = MkId 0,
     me_destination = MkId 0, me_sourceKnown = False, me_destinationKnown = False,
     me_payloadBytes = 0, me_iterations = 0, me_elapsedNanos = 0, me_elapsedKnown = False,
     me_syncMethod = [], me_integrityVerified = False, me_matched = False,
     me_kind = MeasurementKind.UNSUPPORTED, me_topologyGen = MkGen 0, me_worker = MkStringId [],
     me_workerKnown = False, me_workerBoot = 0, me_provenance = Provenance.UNSUPPORTED,
     me_evidenceSource = EvidenceSource.UNKNOWN\<rparr>"

definition wire_measurement ::
    "WorkerId \<Rightarrow> WorkerBootId \<Rightarrow> u64 \<Rightarrow> u64 \<Rightarrow> u64 \<Rightarrow> u64 \<Rightarrow> u64 \<Rightarrow> Measurement" where
  "wire_measurement w b src dst n iters nanos = default_Measurement\<lparr>
     me_source := MkId src, me_destination := MkId dst,
     me_sourceKnown := True, me_destinationKnown := True,
     me_payloadBytes := n, me_iterations := iters, me_elapsedNanos := nanos, me_elapsedKnown := True,
     me_kind := MeasurementKind.SYNTHETIC_FIXTURE, me_provenance := Provenance.SYNTHETIC,
     me_workerKnown := True, me_worker := w, me_workerBoot := b, me_integrityVerified := True\<rparr>"

definition parse_measurement :: "bytes \<Rightarrow> (u64 \<times> u64 \<times> u64 \<times> u64 \<times> u64) option" where
  "parse_measurement r = do {
     (src, r) \<leftarrow> get_u64 r; (dst, r) \<leftarrow> get_u64 r; (n, r) \<leftarrow> get_u64 r; (iters, r) \<leftarrow> get_u64 r;
     (nanos, r) \<leftarrow> get_u64 r;
     Some (src, dst, n, iters, nanos)}"

definition handle_measurement :: "bytes \<Rightarrow> handler" where
  "handle_measurement payload cn c =
     (if \<not> cn_registered cn then (cn, c, [])
      else case get_u64 payload of
        None \<Rightarrow> (cn, c, [])
      | Some (ep, r) \<Rightarrow>
          if ep \<noteq> r_epoch (cd_registry c) then (cn, c, [])
          else case parse_measurement r of
            None \<Rightarrow> (cn, c, [])
          | Some (src, dst, n, iters, nanos) \<Rightarrow>
              (cn, c\<lparr>cd_registry := snd (publishMeasurement
                 (wire_measurement (cn_worker cn) (cn_boot cn) src dst n iters nanos) (cd_registry c))\<rparr>, []))"

definition parse_query :: "bytes \<Rightarrow> (u64 \<times> u64 \<times> bytes) option" where
  "parse_query r = do {
     (src, r) \<leftarrow> get_u64 r; (dst, r) \<leftarrow> get_u64 r; (polLen, r) \<leftarrow> get_u32 r;
     if polLen > kMaxFrameBytes then None else do {
     (pol, r) \<leftarrow> get_bytes (unat polLen) r;
     Some (src, dst, pol)}}"

definition handle_query :: "u64 \<Rightarrow> bytes \<Rightarrow> handler" where
  "handle_query now payload cn c =
     (if \<not> cn_registered cn then (cn, c, [])
      else case parse_query payload of
        None \<Rightarrow> (cn, c, [])
      | Some (src, dst, pol) \<Rightarrow>
          (case decodePolicy pol of
             Inl e \<Rightarrow> (cn, c, [])
           | Inr policy \<Rightarrow>
               (case route (MkId src) (MkId dst) policy now (cd_registry c) of
                  (Inl e, r) \<Rightarrow> (cn, c\<lparr>cd_registry := r\<rparr>, [])
                | (Inr d, r) \<Rightarrow>
                    (cn, c\<lparr>cd_registry := r\<rparr>,
                     [\<lparr>fr_type = ROUTE_RESULT, fr_payload = encodeDecision d\<rparr>]))))"

definition handle_frame :: "u64 \<Rightarrow> Frame \<Rightarrow> handler" where
  "handle_frame now f cn c = (case fr_type f of
       REGISTER \<Rightarrow> handle_register (fr_payload f) cn c
     | PUBLISH_TOPOLOGY \<Rightarrow> handle_publish now (fr_payload f) cn c
     | PUBLISH_MEASUREMENT \<Rightarrow> handle_measurement (fr_payload f) cn c
     | QUERY_ROUTE \<Rightarrow> handle_query now (fr_payload f) cn c
     | PING \<Rightarrow> (cn, c, [\<lparr>fr_type = PONG, fr_payload = []\<rparr>])
     | _ \<Rightarrow> (cn, c, []))"

section \<open>The end of a connection\<close>

definition end_connection :: "u64 \<Rightarrow> sock \<Rightarrow> Connection \<Rightarrow> Coordinator \<Rightarrow> Coordinator" where
  "end_connection now s cn c =
     (let c = (if cn_registered cn
               then c\<lparr>cd_activeBoot :=
                        (if om_find (cd_activeBoot c) (cn_worker cn) = Some (cn_boot cn)
                         then om_erase (cn_worker cn) (cd_activeBoot c) else cd_activeBoot c),
                      cd_registry := snd (invalidateForWorker (cn_worker cn) (cn_boot cn) now (cd_registry c))\<rparr>
               else c)
      in c\<lparr>cd_liveSocks := removeAll s (cd_liveSocks c)\<rparr>)"

section \<open>Restoring\<close>

definition bulk_of_topology :: "FabricTopology \<Rightarrow> BulkEdit" where
  "bulk_of_topology t = \<lparr>be_devices = om_values (t_devices t), be_switches = om_values (t_switches t),
     be_ports = om_values (t_ports t), be_links = om_values (t_links t),
     be_partitions = om_values (t_partitions t)\<rparr>"

definition restoreFromAndRevalidate ::
    "string \<Rightarrow> u64 \<Rightarrow> Coordinator \<Rightarrow> unit Result \<times> Coordinator" where
  "restoreFromAndRevalidate path now c =
     (case restoreFrom path (cd_files c) of
        Inl e \<Rightarrow> (Inl e, c)
      | Inr res \<Rightarrow>
          let r = snd (applyBulk (bulk_of_topology (snapshot res)) now (cd_registry c));
              r = snd (expireDynamicEvidence now r)
          in (Inr (), c\<lparr>cd_registry := r\<rparr>))"

section \<open>The running coordinator\<close>

text \<open>The coordinator together with the local state of the connections its threads serve.\<close>

record System =
  sy_coord :: Coordinator
  sy_conns :: "(sock, Connection) omap"

definition accept_connection :: "sock \<Rightarrow> System \<Rightarrow> System" where
  "accept_connection s sys =
     (let c = sy_coord sys in
      if \<not> cd_running c \<or> s \<in> set (cd_liveSocks c) then sys
      else if liveConnections c \<ge> unat kMaxConnections then sys
      else \<lparr>sy_coord = c\<lparr>cd_connSeq := cd_connSeq c + 1, cd_liveSocks := cd_liveSocks c @ [s]\<rparr>,
             sy_conns = om_insert s Connection_new (sy_conns sys)\<rparr>)"

definition close_connection :: "u64 \<Rightarrow> sock \<Rightarrow> Connection \<Rightarrow> System \<Rightarrow> System" where
  "close_connection now s cn sys =
     \<lparr>sy_coord = end_connection now s cn (sy_coord sys), sy_conns = om_erase s (sy_conns sys)\<rparr>"

text \<open>A chunk arrives at a thread that waits in \<open>recvSome\<close>; when the stream rejects it, the frames
  found before the error are dropped with the connection.\<close>

definition receive_chunk :: "u64 \<Rightarrow> sock \<Rightarrow> bytes \<Rightarrow> System \<Rightarrow> System" where
  "receive_chunk now s data sys =
     (case om_find (sy_conns sys) s of
        None \<Rightarrow> sys
      | Some cn \<Rightarrow>
          if cn_frames cn \<noteq> [] then sys
          else if data = [] then close_connection now s cn sys
          else case feed data (cn_stream cn) of
                 (False, _, _) \<Rightarrow> close_connection now s cn sys
               | (True, fs, st) \<Rightarrow>
                   sys\<lparr>sy_conns := om_insert s (cn\<lparr>cn_stream := st, cn_frames := fs\<rparr>) (sy_conns sys)\<rparr>)"

definition serve_frame :: "u64 \<Rightarrow> sock \<Rightarrow> System \<Rightarrow> System \<times> Frame list" where
  "serve_frame now s sys =
     (case om_find (sy_conns sys) s of
        None \<Rightarrow> (sys, [])
      | Some cn \<Rightarrow>
          (case cn_frames cn of
             [] \<Rightarrow> (sys, [])
           | f # fs \<Rightarrow>
               (case handle_frame now f (cn\<lparr>cn_frames := fs\<rparr>) (sy_coord sys) of
                  (cn', c', out) \<Rightarrow>
                    (\<lparr>sy_coord = c', sy_conns = om_insert s cn' (sy_conns sys)\<rparr>, out))))"

text \<open>The thread of a connection that serves the frames it has in hand.\<close>

fun serve_all :: "nat \<Rightarrow> u64 \<Rightarrow> sock \<Rightarrow> System \<Rightarrow> System" where
  "serve_all 0 now s sys = sys"
| "serve_all (Suc n) now s sys = serve_all n now s (fst (serve_frame now s sys))"

definition pending :: "sock \<Rightarrow> System \<Rightarrow> nat" where
  "pending s sys = (case om_find (sy_conns sys) s of None \<Rightarrow> 0 | Some cn \<Rightarrow> length (cn_frames cn))"

text \<open>\<open>start\<close> and the first half of \<open>stop\<close>, which ends the accept loop. A connection whose socket
  \<open>stop\<close> has closed serves the frames in hand; then its \<open>recvSome\<close> fails and it ends.\<close>

definition coordinator_start :: "Os \<Rightarrow> u16 \<Rightarrow> Coordinator \<Rightarrow> unit Result \<times> Coordinator" where
  "coordinator_start os port c =
     (case listenOn os port (cd_listen c) of
        (Inl e, so) \<Rightarrow> (Inl e, c\<lparr>cd_listen := so\<rparr>)
      | (Inr _, so) \<Rightarrow> (Inr (), c\<lparr>cd_listen := so, cd_port := so_localPort so, cd_running := True\<rparr>))"

definition stop_accepting :: "Coordinator \<Rightarrow> Coordinator" where
  "stop_accepting c =
     (if cd_running c then c\<lparr>cd_running := False, cd_listen := socket_close (cd_listen c)\<rparr> else c)"

definition drain_connection :: "u64 \<Rightarrow> sock \<Rightarrow> System \<Rightarrow> System" where
  "drain_connection now s sys = receive_chunk now s [] (serve_all (pending s sys) now s sys)"

definition coordinator_stop :: "u64 \<Rightarrow> System \<Rightarrow> System" where
  "coordinator_stop now sys =
     fold (drain_connection now) (cd_liveSocks (sy_coord sys)) (sys\<lparr>sy_coord := stop_accepting (sy_coord sys)\<rparr>)"

datatype Event =
    Accept sock | Receive sock bytes u64 | Serve sock u64 | SetEpochTo CoordinatorEpoch
  | Restore string u64 | Stop

definition handle_event :: "Event \<Rightarrow> System \<Rightarrow> System" where
  "handle_event ev sys = (case ev of
       Accept s \<Rightarrow> accept_connection s sys
     | Receive s data now \<Rightarrow> receive_chunk now s data sys
     | Serve s now \<Rightarrow> fst (serve_frame now s sys)
     | SetEpochTo e \<Rightarrow> sys\<lparr>sy_coord := coordinator_setEpoch e (sy_coord sys)\<rparr>
     | Restore path now \<Rightarrow> sys\<lparr>sy_coord := snd (restoreFromAndRevalidate path now (sy_coord sys))\<rparr>
     | Stop \<Rightarrow> sys\<lparr>sy_coord := stop_accepting (sy_coord sys)\<rparr>)"

text \<open>What \<open>coordinatorMain\<close> does before it waits: it restores the saved state only when a path was given
  on the command line, and starts listening.\<close>

definition System_start ::
    "Os \<Rightarrow> u16 \<Rightarrow> bool \<Rightarrow> string \<Rightarrow> CoordinatorEpoch \<Rightarrow> u64 \<Rightarrow> filesystem \<Rightarrow> System" where
  "System_start os port given path epoch now fs =
     (let c = setPersistPath path (coordinator_setEpoch epoch (Coordinator_new\<lparr>cd_files := fs\<rparr>));
          c = (if given then snd (restoreFromAndRevalidate path now c) else c)
      in \<lparr>sy_coord = snd (coordinator_start os port c), sy_conns = []\<rparr>)"

inductive sys_reaches :: "System \<Rightarrow> System \<Rightarrow> bool" for s where
  sys_refl: "sys_reaches s s"
| sys_step: "sys_reaches s s' \<Longrightarrow> sys_reaches s (handle_event ev s')"

section \<open>The invariant\<close>

definition boot_known :: "Coordinator \<Rightarrow> WorkerId \<Rightarrow> WorkerBootId \<Rightarrow> bool" where
  "boot_known c w b \<longleftrightarrow> (\<exists>m. om_find (cd_maxBoot c) w = Some m \<and> b \<le> m)"

definition conn_inv :: "Coordinator \<Rightarrow> Connection \<Rightarrow> bool" where
  "conn_inv c cn \<longleftrightarrow> stream_ok (cn_stream cn) \<and> feed_step (fs_buf (cn_stream cn)) = Wait \<and>
     (cn_registered cn \<longrightarrow> boot_known c (cn_worker cn) (cn_boot cn))"

definition coord_inv :: "Coordinator \<Rightarrow> bool" where
  "coord_inv c \<longleftrightarrow> reg_inv (cd_registry c) \<and>
     (\<forall>w b. om_find (cd_activeBoot c) w = Some b \<longrightarrow> boot_known c w b)"

definition sys_inv :: "System \<Rightarrow> bool" where
  "sys_inv s \<longleftrightarrow> coord_inv (sy_coord s) \<and>
     distinct (cd_liveSocks (sy_coord s)) \<and> length (cd_liveSocks (sy_coord s)) \<le> unat kMaxConnections \<and>
     (\<forall>x. om_find (sy_conns s) x \<noteq> None \<longleftrightarrow> x \<in> set (cd_liveSocks (sy_coord s))) \<and>
     (\<forall>x cn. om_find (sy_conns s) x = Some cn \<longrightarrow> conn_inv (sy_coord s) cn)"

text \<open>What every handler of a frame respects: the invariants of the two objects, the boots already
  seen, and the list of live sockets.\<close>

definition boots_grow :: "Coordinator \<Rightarrow> Coordinator \<Rightarrow> bool" where
  "boots_grow c c' \<longleftrightarrow> (\<forall>w b. boot_known c w b \<longrightarrow> boot_known c' w b)"

locale frame_handler =
  fixes h :: handler
  assumes keeps_coord: "coord_inv c \<Longrightarrow> coord_inv (fst (snd (h cn c)))"
    and keeps_conn: "coord_inv c \<Longrightarrow> conn_inv c cn \<Longrightarrow> conn_inv (fst (snd (h cn c))) (fst (h cn c))"
    and keeps_boots: "boots_grow c (fst (snd (h cn c)))"
    and keeps_socks: "cd_liveSocks (fst (snd (h cn c))) = cd_liveSocks c"
    and keeps_running: "cd_running (fst (snd (h cn c))) = cd_running c"
begin

text \<open>The laws for a handled frame with its three results.\<close>

lemma handled:
  assumes "h cn c = (cn', c', out)"
  shows "coord_inv c \<Longrightarrow> coord_inv c'" "coord_inv c \<Longrightarrow> conn_inv c cn \<Longrightarrow> conn_inv c' cn'"
    "boots_grow c c'" "cd_liveSocks c' = cd_liveSocks c" "cd_running c' = cd_running c"
  using keeps_coord [of c cn] keeps_conn [of c cn] keeps_boots [of c cn] keeps_socks [of cn c] keeps_running [of cn c]
  by (simp_all add: assms)

end

lemma boots_grow_refl [simp]: "boots_grow c c"
  by (simp add: boots_grow_def)

lemma boots_grow_trans: "boots_grow a b \<Longrightarrow> boots_grow b c \<Longrightarrow> boots_grow a c"
  by (simp add: boots_grow_def)

lemma boots_grow_conn: "boots_grow c c' \<Longrightarrow> conn_inv c cn \<Longrightarrow> conn_inv c' cn"
  by (auto simp: boots_grow_def conn_inv_def)

lemma boot_known_updates [simp]:
  "boot_known (c\<lparr>cd_registry := r\<rparr>) = boot_known c" "boot_known (c\<lparr>cd_files := f\<rparr>) = boot_known c"
  "boot_known (c\<lparr>cd_liveSocks := l\<rparr>) = boot_known c" "boot_known (c\<lparr>cd_activeBoot := a\<rparr>) = boot_known c"
  "boot_known (c\<lparr>cd_connSeq := q\<rparr>) = boot_known c" "boot_known (c\<lparr>cd_running := b\<rparr>) = boot_known c"
  "boot_known (c\<lparr>cd_listen := so\<rparr>) = boot_known c" "boot_known (c\<lparr>cd_port := n\<rparr>) = boot_known c"
  "boot_known (c\<lparr>cd_persistPath := p\<rparr>) = boot_known c"
  by (simp_all add: fun_eq_iff boot_known_def)

text \<open>A handler that leaves the connection and the boot tables alone and sends the registry through
  its operations.\<close>

definition registry_moves :: "Coordinator \<Rightarrow> Coordinator \<Rightarrow> bool" where
  "registry_moves c c' \<longleftrightarrow> (\<exists>r fs. c' = c\<lparr>cd_registry := r, cd_files := fs\<rparr> \<and>
     (reg_inv (cd_registry c) \<longrightarrow> reg_inv r))"

lemma registry_moves_intros [intro]:
  "registry_moves c c"
  "(reg_inv (cd_registry c) \<Longrightarrow> reg_inv r) \<Longrightarrow> registry_moves c (c\<lparr>cd_registry := r\<rparr>)"
  "(reg_inv (cd_registry c) \<Longrightarrow> reg_inv r) \<Longrightarrow> registry_moves c (c\<lparr>cd_registry := r, cd_files := fs\<rparr>)"
  unfolding registry_moves_def
  by (rule exI [of _ "cd_registry c"], rule exI [of _ "cd_files c"], simp)
    (rule exI [of _ r], rule exI [of _ "cd_files c"], simp, blast)

lemma frame_handler_registry:
  assumes "\<And>cn c. fst (h cn c) = cn" and "\<And>cn c. registry_moves c (fst (snd (h cn c)))"
  shows "frame_handler h"
proof
  fix cn c
  obtain r fs where h: "fst (snd (h cn c)) = c\<lparr>cd_registry := r, cd_files := fs\<rparr>"
    "reg_inv (cd_registry c) \<longrightarrow> reg_inv r"
    using assms(2) [of c cn] by (auto simp: registry_moves_def)
  show "coord_inv (fst (snd (h cn c)))" if "coord_inv c"
    using that h by (simp add: coord_inv_def)
  show "conn_inv (fst (snd (h cn c))) (fst (h cn c))" if "conn_inv c cn"
    using that h assms(1) by (simp add: conn_inv_def)
  show "boots_grow c (fst (snd (h cn c)))" "cd_liveSocks (fst (snd (h cn c))) = cd_liveSocks c"
    "cd_running (fst (snd (h cn c))) = cd_running c"
    using h by (simp_all add: boots_grow_def)
qed

text \<open>The two outcomes of a publication.\<close>

lemma publish_cases:
  obtains (ignored) "handle_publish now payload cn c = (cn, c, [])"
  | (applied) wid n rest blob rest' topo fs where "cn_registered cn"
      "parse_publish payload = Some ((r_epoch (cd_registry c), wid, cn_boot cn, n), rest)"
      "cn_worker cn = MkStringId wid" "n \<le> kMaxFrameBytes"
      "get_bytes (unat n) rest = Some (blob, rest')" "decodeTopology blob = Inr topo"
      "handle_publish now payload cn c = (cn, c\<lparr>cd_registry :=
         snd (applyBulk (worker_bulk topo (cn_worker cn) (cn_boot cn)) now (cd_registry c)), cd_files := fs\<rparr>, [])"
proof (cases "handle_publish now payload cn c = (cn, c, [])")
  case False
  then obtain ep wid b n rest where p: "cn_registered cn"
    "parse_publish payload = Some ((ep, wid, b, n), rest)" "ep = r_epoch (cd_registry c)"
    "cn_worker cn = MkStringId wid" "b = cn_boot cn" "n \<le> kMaxFrameBytes"
    by (auto simp: handle_publish_def not_less split: if_splits option.splits)
  obtain blob rest' topo where t: "get_bytes (unat n) rest = Some (blob, rest')"
    "decodeTopology blob = Inr topo"
    using False p by (auto simp: handle_publish_def not_less split: if_splits option.splits sum.splits)
  define c' where "c' = applyWorkerTopology topo (cn_worker cn) (cn_boot cn) now c"
  obtain fs where "(if cd_persistPath c' \<noteq> [] then snd (coordinator_persistTo (cd_persistPath c') c') else c') =
      c\<lparr>cd_registry := snd (applyBulk (worker_bulk topo (cn_worker cn) (cn_boot cn)) now (cd_registry c)),
        cd_files := fs\<rparr>"
  proof
    show "(if cd_persistPath c' \<noteq> [] then snd (coordinator_persistTo (cd_persistPath c') c') else c') =
      c\<lparr>cd_registry := snd (applyBulk (worker_bulk topo (cn_worker cn) (cn_boot cn)) now (cd_registry c)),
        cd_files := if cd_persistPath c' \<noteq> [] then snd (persistTo (cd_persistPath c') (cd_registry c') (cd_files c'))
          else cd_files c\<rparr>"
      by (simp add: c'_def applyWorkerTopology_def coordinator_persistTo_def split: prod.split)
  qed
  moreover have "handle_publish now payload cn c =
      (cn, if cd_persistPath c' \<noteq> [] then snd (coordinator_persistTo (cd_persistPath c') c') else c', [])"
    using p t by (simp add: handle_publish_def c'_def Let_def not_less [symmetric])
  ultimately show ?thesis
    using applied [OF p(1) _ _ p(6) t, of wid fs] p(2-5) by simp
qed (rule ignored)

interpretation publish: frame_handler "handle_publish now payload" for now payload
proof (rule frame_handler_registry)
  fix cn c
  show "fst (handle_publish now payload cn c) = cn"
    by (cases rule: publish_cases [of now payload cn c]) simp_all
  show "registry_moves c (fst (snd (handle_publish now payload cn c)))"
    by (cases rule: publish_cases [of now payload cn c]) (auto intro: reg_inv_applyBulk)
qed

interpretation measurement: frame_handler "handle_measurement payload" for payload
  by (rule frame_handler_registry)
    (auto simp: handle_measurement_def split: option.splits intro: reg_inv_publishMeasurement)

interpretation query: frame_handler "handle_query now payload" for now payload
proof (rule frame_handler_registry)
  fix cn c
  show "fst (handle_query now payload cn c) = cn"
    by (auto simp: handle_query_def split: option.splits sum.splits prod.splits)
  have "reg_inv r'" if "reg_inv r" "route src dst policy now r = (x, r')" for r src dst policy x r'
    using that reg_inv_route [of r src dst policy now] by simp
  then show "registry_moves c (fst (snd (handle_query now payload cn c)))"
    by (auto simp: handle_query_def split: option.splits sum.splits prod.splits)
qed

text \<open>A registration in closed form, and its two outcomes.\<close>

lemma handle_register_unfold:
  assumes "parse_register payload = Some (ep, wid, b)"
  shows "handle_register payload cn c =
    (if ep < r_epoch (cd_registry c) \<or> (\<exists>m. om_find (cd_maxBoot c) (MkStringId wid) = Some m \<and> b < m) \<or>
        om_find (cd_activeBoot c) (MkStringId wid) = Some b
     then (cn, c, [])
     else (cn\<lparr>cn_worker := MkStringId wid, cn_boot := b, cn_registered := True\<rparr>,
       c\<lparr>cd_maxBoot := (if om_find (cd_maxBoot c) (MkStringId wid) = Some b then cd_maxBoot c
                       else om_insert (MkStringId wid) b (cd_maxBoot c)),
         cd_activeBoot := om_insert (MkStringId wid) b (cd_activeBoot c)\<rparr>, []))"
proof (cases "om_find (cd_maxBoot c) (MkStringId wid)")
  case None
  then show ?thesis by (simp add: handle_register_def assms Let_def)
next
  case (Some m)
  consider "b < m" | "b = m" | "m < b" by (rule linorder_cases)
  then show ?thesis
    by cases (simp_all add: handle_register_def assms Let_def Some)
qed

lemma register_cases:
  obtains (ignored) "handle_register payload cn c = (cn, c, [])"
  | (registered) ep wid b mb where "parse_register payload = Some (ep, wid, b)"
      "r_epoch (cd_registry c) \<le> ep" "om_find (cd_activeBoot c) (MkStringId wid) \<noteq> Some b"
      "\<forall>m. om_find (cd_maxBoot c) (MkStringId wid) = Some m \<longrightarrow> m \<le> b"
      "handle_register payload cn c =
        (cn\<lparr>cn_worker := MkStringId wid, cn_boot := b, cn_registered := True\<rparr>,
         c\<lparr>cd_maxBoot := mb, cd_activeBoot := om_insert (MkStringId wid) b (cd_activeBoot c)\<rparr>, [])"
      "om_find mb = (om_find (cd_maxBoot c))(MkStringId wid \<mapsto> b)"
proof (cases "parse_register payload")
  case None
  then show ?thesis
    by (intro ignored) (simp add: handle_register_def)
next
  case (Some x)
  obtain ep wid b where x: "x = (ep, wid, b)"
    by (cases x)
  define mb where "mb = (if om_find (cd_maxBoot c) (MkStringId wid) = Some b then cd_maxBoot c
    else om_insert (MkStringId wid) b (cd_maxBoot c))"
  note h = handle_register_unfold [OF Some [unfolded x], of cn c, folded mb_def]
  show ?thesis
  proof (cases "ep < r_epoch (cd_registry c) \<or> (\<exists>m. om_find (cd_maxBoot c) (MkStringId wid) = Some m \<and> b < m) \<or>
      om_find (cd_activeBoot c) (MkStringId wid) = Some b")
    case True
    then show ?thesis
      using h by (intro ignored) simp
  next
    case False
    show ?thesis
    proof (rule registered [of ep wid b mb])
      show "om_find mb = (om_find (cd_maxBoot c))(MkStringId wid \<mapsto> b)"
        by (auto simp: mb_def fun_eq_iff)
      show "handle_register payload cn c =
        (cn\<lparr>cn_worker := MkStringId wid, cn_boot := b, cn_registered := True\<rparr>,
         c\<lparr>cd_maxBoot := mb, cd_activeBoot := om_insert (MkStringId wid) b (cd_activeBoot c)\<rparr>, [])"
        unfolding h using False by (rule if_not_P)
    qed (use Some x False in \<open>auto simp: not_less\<close>)
  qed
qed

interpretation register: frame_handler "handle_register payload" for payload
proof
  fix cn c
  note reg = register_cases [of payload cn c]
  show boots: "boots_grow c (fst (snd (handle_register payload cn c)))"
    by (cases rule: reg) (force simp: boots_grow_def boot_known_def)+
  show "cd_liveSocks (fst (snd (handle_register payload cn c))) = cd_liveSocks c"
    "cd_running (fst (snd (handle_register payload cn c))) = cd_running c"
    by (cases rule: reg, auto)+
  show "coord_inv (fst (snd (handle_register payload cn c)))" if "coord_inv c"
    by (cases rule: reg) (use that in \<open>fastforce simp: coord_inv_def boot_known_def\<close>)+
  show "conn_inv (fst (snd (handle_register payload cn c))) (fst (handle_register payload cn c))"
    if "conn_inv c cn"
    by (cases rule: reg) (use that in \<open>auto simp: conn_inv_def boot_known_def\<close>)
qed

lemma frame_handler_idle: "(\<And>cn c. h cn c = (cn, c, out)) \<Longrightarrow> frame_handler h"
  by unfold_locales simp_all

interpretation frames: frame_handler "handle_frame now f" for now f
proof -
  show "frame_handler (handle_frame now f)"
  proof (cases "fr_type f")
    case REGISTER
    then have "handle_frame now f = handle_register (fr_payload f)"
      by (simp add: fun_eq_iff handle_frame_def)
    then show ?thesis by (simp add: register.frame_handler_axioms)
  next
    case PUBLISH_TOPOLOGY
    then have "handle_frame now f = handle_publish now (fr_payload f)"
      by (simp add: fun_eq_iff handle_frame_def)
    then show ?thesis by (simp add: publish.frame_handler_axioms)
  next
    case PUBLISH_MEASUREMENT
    then have "handle_frame now f = handle_measurement (fr_payload f)"
      by (simp add: fun_eq_iff handle_frame_def)
    then show ?thesis by (simp add: measurement.frame_handler_axioms)
  next
    case QUERY_ROUTE
    then have "handle_frame now f = handle_query now (fr_payload f)"
      by (simp add: fun_eq_iff handle_frame_def)
    then show ?thesis by (simp add: query.frame_handler_axioms)
  qed (rule frame_handler_idle, simp add: handle_frame_def)+
qed

section \<open>Every event keeps the invariant\<close>

lemma end_connection_fields:
  "cd_liveSocks (end_connection now s cn c) = removeAll s (cd_liveSocks c)"
  "cd_maxBoot (end_connection now s cn c) = cd_maxBoot c"
  "boot_known (end_connection now s cn c) = boot_known c"
  "coord_inv c \<Longrightarrow> coord_inv (end_connection now s cn c)"
proof -
  show "cd_liveSocks (end_connection now s cn c) = removeAll s (cd_liveSocks c)"
    by (simp add: end_connection_def Let_def)
  show m: "cd_maxBoot (end_connection now s cn c) = cd_maxBoot c"
    by (simp add: end_connection_def Let_def)
  then show k: "boot_known (end_connection now s cn c) = boot_known c"
    by (simp add: fun_eq_iff boot_known_def)
  have "reg_inv (snd (invalidateForWorker w b now r))" if "reg_inv r" for w b r
    using reg_inv_apply_op [OF that, of "InvalidateForWorker w b" now] by (simp add: apply_op_def)
  then show "coord_inv (end_connection now s cn c)" if "coord_inv c"
    using that unfolding coord_inv_def k by (auto simp: end_connection_def Let_def split: if_splits)
qed

lemma conn_inv_known: "boot_known c' = boot_known c \<Longrightarrow> conn_inv c' = conn_inv c"
  by (simp add: fun_eq_iff conn_inv_def)

lemma close_connection_inv:
  assumes "sys_inv sys" "om_find (sy_conns sys) s = Some cn"
  shows "sys_inv (close_connection now s cn sys)"
  using assms
  by (auto simp: sys_inv_def close_connection_def end_connection_fields distinct_removeAll
      conn_inv_known [OF end_connection_fields(3)]
      intro: order_trans [OF length_removeAll_less_eq] split: if_splits)

lemma feed_quiescent:
  assumes "feed data s = (True, fs, s')"
  shows "stream_ok s' \<and> feed_step (fs_buf s') = Wait"
  using assms feed_loop_waits
  by (fastforce simp: feed_def stream_ok_def split: if_splits prod.splits option.splits)

lemma sys_inv_update:
  assumes "sys_inv sys" "om_find (sy_conns sys) s = Some cn" "conn_inv c' cn'" "coord_inv c'"
    "boots_grow (sy_coord sys) c'" "cd_liveSocks c' = cd_liveSocks (sy_coord sys)"
  shows "sys_inv \<lparr>sy_coord = c', sy_conns = om_insert s cn' (sy_conns sys)\<rparr>"
  using assms boots_grow_conn by (force simp: sys_inv_def)

lemma accept_inv: "sys_inv sys \<Longrightarrow> sys_inv (accept_connection s sys)"
proof -
  assume inv: "sys_inv sys"
  have new: "conn_inv c Connection_new" for c
    by (simp add: conn_inv_def Connection_new_def FrameStream_new_def stream_ok_def no_error_def
        feed_step_def kHeader_def)
  have "coord_inv ((sy_coord sys)\<lparr>cd_connSeq := q, cd_liveSocks := l\<rparr>) = coord_inv (sy_coord sys)"
    "conn_inv ((sy_coord sys)\<lparr>cd_connSeq := q, cd_liveSocks := l\<rparr>) = conn_inv (sy_coord sys)" for q l
    by (simp_all add: coord_inv_def fun_eq_iff conn_inv_def)
  with inv new show ?thesis
    by (auto simp: accept_connection_def sys_inv_def Let_def liveConnections_def split: if_splits)
qed

lemma receive_inv:
  assumes "sys_inv sys"
  shows "sys_inv (receive_chunk now s data sys)"
proof (cases "om_find (sy_conns sys) s")
  case (Some cn)
  obtain okk fs st where f: "feed data (cn_stream cn) = (okk, fs, st)"
    by (metis prod_cases3)
  have "conn_inv (sy_coord sys) cn"
    using assms Some by (simp add: sys_inv_def)
  then have "conn_inv (sy_coord sys) (cn\<lparr>cn_stream := st, cn_frames := fs\<rparr>)" if okk
    using that f feed_quiescent by (auto simp: conn_inv_def)
  then have "sys_inv (sys\<lparr>sy_conns := om_insert s (cn\<lparr>cn_stream := st, cn_frames := fs\<rparr>) (sy_conns sys)\<rparr>)" if okk
    using that assms Some by (auto simp: sys_inv_def)
  then show ?thesis
    using Some f assms close_connection_inv [OF assms Some] by (cases okk) (auto simp: receive_chunk_def)
qed (simp add: receive_chunk_def assms)

lemma serve_inv:
  assumes "sys_inv sys"
  shows "sys_inv (fst (serve_frame now s sys))"
proof (cases "om_find (sy_conns sys) s")
  case (Some cn)
  show ?thesis
  proof (cases "cn_frames cn")
    case (Cons f fs)
    obtain cn' c' out where h: "handle_frame now f (cn\<lparr>cn_frames := fs\<rparr>) (sy_coord sys) = (cn', c', out)"
      by (metis prod_cases3)
    have "conn_inv (sy_coord sys) (cn\<lparr>cn_frames := fs\<rparr>)" "coord_inv (sy_coord sys)"
      using assms Some by (auto simp: sys_inv_def conn_inv_def)
    then have "conn_inv c' cn'" "coord_inv c'" "boots_grow (sy_coord sys) c'"
      "cd_liveSocks c' = cd_liveSocks (sy_coord sys)"
      using frames.handled [OF h] by simp_all
    from sys_inv_update [OF assms Some this] show ?thesis
      by (simp add: serve_frame_def Some Cons h)
  qed (simp add: serve_frame_def Some assms)
qed (simp add: serve_frame_def assms)

lemma restore_coord:
  "coord_inv c \<Longrightarrow> coord_inv (snd (restoreFromAndRevalidate path now c))"
  "cd_liveSocks (snd (restoreFromAndRevalidate path now c)) = cd_liveSocks c"
  "cd_maxBoot (snd (restoreFromAndRevalidate path now c)) = cd_maxBoot c"
  by (auto simp: restoreFromAndRevalidate_def coord_inv_def Let_def reg_inv_expire reg_inv_applyBulk
      split: sum.split)

lemma sys_inv_coord:
  assumes "sys_inv sys" "coord_inv c" "cd_liveSocks c = cd_liveSocks (sy_coord sys)"
    "cd_maxBoot c = cd_maxBoot (sy_coord sys)"
  shows "sys_inv (sys\<lparr>sy_coord := c\<rparr>)"
proof -
  have "conn_inv c = conn_inv (sy_coord sys)"
    by (rule conn_inv_known) (simp add: fun_eq_iff boot_known_def assms(4))
  then show ?thesis
    using assms by (simp add: sys_inv_def)
qed

lemma stop_accepting_fields [simp]:
  "cd_registry (stop_accepting c) = cd_registry c" "cd_liveSocks (stop_accepting c) = cd_liveSocks c"
  "cd_maxBoot (stop_accepting c) = cd_maxBoot c" "cd_activeBoot (stop_accepting c) = cd_activeBoot c"
  "\<not> cd_running (stop_accepting c)"
  by (simp_all add: stop_accepting_def)

lemma handle_event_inv:
  assumes "sys_inv sys"
  shows "sys_inv (handle_event ev sys)"
proof -
  have c: "coord_inv (sy_coord sys)"
    using assms by (simp add: sys_inv_def)
  then have "coord_inv (coordinator_setEpoch e (sy_coord sys))" "coord_inv (stop_accepting (sy_coord sys))" for e
    by (simp_all add: coord_inv_def coordinator_setEpoch_def stop_accepting_def reg_inv_other)
  then show ?thesis
    using assms c by (cases ev) (auto simp: handle_event_def accept_inv receive_inv serve_inv restore_coord
        coordinator_setEpoch_def intro!: sys_inv_coord)
qed

lemma coordinator_start_fields [simp]:
  "cd_registry (snd (coordinator_start os port c)) = cd_registry c"
  "cd_liveSocks (snd (coordinator_start os port c)) = cd_liveSocks c"
  "cd_maxBoot (snd (coordinator_start os port c)) = cd_maxBoot c"
  "cd_activeBoot (snd (coordinator_start os port c)) = cd_activeBoot c"
  by (auto simp: coordinator_start_def split: prod.split sum.split)

lemma System_start_inv: "sys_inv (System_start os port given path epoch now fs)"
proof -
  have "coord_inv (setPersistPath path (coordinator_setEpoch epoch (Coordinator_new\<lparr>cd_files := fs\<rparr>)))"
    by (simp add: coord_inv_def setPersistPath_def coordinator_setEpoch_def Coordinator_new_def
        reg_inv_other reg_inv_new)
  moreover have "cd_liveSocks (setPersistPath path (coordinator_setEpoch epoch (Coordinator_new\<lparr>cd_files := fs\<rparr>))) = []"
    by (simp add: setPersistPath_def coordinator_setEpoch_def Coordinator_new_def)
  ultimately show ?thesis
    using restore_coord by (auto simp: System_start_def sys_inv_def Let_def coord_inv_def boot_known_def)
qed

lemma sys_reaches_inv: "sys_reaches s s' \<Longrightarrow> sys_inv s \<Longrightarrow> sys_inv s'"
  by (induction rule: sys_reaches.induct) (auto intro: handle_event_inv)

lemma handle_event_boots: "boots_grow (sy_coord sys) (sy_coord (handle_event ev sys))"
proof -
  have known: "boots_grow c c'" if "cd_maxBoot c' = cd_maxBoot c" for c c'
    using that by (simp add: boots_grow_def boot_known_def)
  have serve: "boots_grow (sy_coord sys) (sy_coord (fst (serve_frame now s sys)))" for now s
    by (auto simp: serve_frame_def split: option.split list.split prod.split dest: frames.handled(3))
  show ?thesis
  proof (cases ev)
    case (Receive s data now)
    then show ?thesis
      by (auto simp: handle_event_def receive_chunk_def close_connection_def end_connection_fields
          intro!: known split: option.split prod.split bool.split)
  qed (auto simp: handle_event_def serve accept_connection_def Let_def restore_coord coordinator_setEpoch_def
      intro!: known)
qed

lemma boots_grow_reaches: "sys_reaches s s' \<Longrightarrow> boots_grow (sy_coord s) (sy_coord s')"
  by (induction rule: sys_reaches.induct) (auto intro: boots_grow_trans handle_event_boots)

end
