(* ===== verification/Fabric_Coordination.thy ===== *)
theory Fabric_Coordination
  imports Fabric_Coordinator
begin

text \<open>
  Correctness of the coordinator: closing a connection fences its worker, what a publication
  writes, stale boots, and restoring at start.
\<close>

section \<open>Fencing always commits\<close>

text \<open>No generation of the snapshot is the last one, from which the next would wrap to zero.\<close>

definition gens_below_max :: "FabricTopology \<Rightarrow> bool" where
  "gens_below_max t \<longleftrightarrow>
     list_all (\<lambda>r. gen_get (sw_gen r) \<noteq> - 1) (om_values (t_switches t)) \<and>
     list_all (\<lambda>r. gen_get (po_gen r) \<noteq> - 1) (om_values (t_ports t)) \<and>
     list_all (\<lambda>r. gen_get (li_gen r) \<noteq> - 1) (om_values (t_links t)) \<and>
     list_all (\<lambda>r. gen_get (pa_gen r) \<noteq> - 1) (om_values (t_partitions t)) \<and>
     gen_get (t_topologyGen t) \<noteq> - 1"

lemma gens_le_map:
  assumes "\<And>v. v \<in> set (om_values m) \<Longrightarrow> gen v \<le> gen (f v)"
  shows "gens_le gen m (om_map f m)"
  using assms om_find_Some_in unfolding gens_le_def om_values_def by fastforce

lemma le_gen_next: "gen_get g \<noteq> - 1 \<Longrightarrow> g \<le> gen_next g"
  using gen_next_less_iff order_less_imp_le by blast

lemma fence_gens_monotone:
  assumes "gens_below_max t" "invalidateForWorker_edit w b t = Inr c"
  shows "gens_monotone t c"
proof -
  have "gens_le sw_gen (t_switches t) (om_map (fence_switch w b) (t_switches t))"
    "gens_le po_gen (t_ports t) (om_map (fence_port w b) (t_ports t))"
    "gens_le li_gen (t_links t) (om_map (fence_link w b) (t_links t))"
    "gens_le pa_gen (t_partitions t) (om_map (fence_partition w b) (t_partitions t))"
    using assms(1)
    by (auto intro!: gens_le_map le_gen_next simp: gens_below_max_def list_all_iff fence_switch_def
        fence_port_def fence_link_def fence_partition_def)
  moreover have "t_topologyGen t \<le> t_topologyGen c"
    using assms le_gen_next [of "t_topologyGen t"]
    by (auto simp: gens_below_max_def invalidateForWorker_edit_def Let_def split: if_splits)
  ultimately show ?thesis
    using assms(2) by (auto simp: gens_monotone_def invalidateForWorker_edit_def Let_def split: if_splits)
qed

lemma om_map_sets:
  "fst ` set (om_map f m) = fst ` set m" "set (om_values (om_map f m)) = f ` set (om_values m)"
  by (force simp: om_map_def om_values_def)+

text \<open>Maps over the records that keep the ends of links and the members of partitions keep integrity.\<close>

lemma integral_maps:
  assumes "integral t" and "t_devices c = om_map fd (t_devices t)" "t_switches c = om_map fs (t_switches t)"
    and "t_ports c = om_map fp (t_ports t)" "t_links c = om_map fl (t_links t)"
    and "t_partitions c = om_map fq (t_partitions t)"
    and "\<And>l. li_rootSwitch (fl l) = li_rootSwitch l \<and> li_port (fl l) = li_port l \<and>
      li_otherEnd (fl l) = li_otherEnd l"
    and "\<And>q. pa_members (fq q) = pa_members q \<and> pa_switches (fq q) = pa_switches q"
  shows "integral c"
proof -
  have look: "(\<exists>s. lookupSwitch c i = Some s) \<longleftrightarrow> (\<exists>s. lookupSwitch t i = Some s)"
    "(\<exists>s. lookupPort c j = Some s) \<longleftrightarrow> (\<exists>s. lookupPort t j = Some s)"
    "(\<exists>s. lookupDevice c k = Some s) \<longleftrightarrow> (\<exists>s. lookupDevice t k = Some s)" for i j k
    using assms(2-4) by (auto simp: lookup_defs)
  have "fst ` set (t_ports c) = fst ` set (t_ports t)"
    "set (om_values (t_links c)) = fl ` set (om_values (t_links t))"
    "set (om_values (t_partitions c)) = fq ` set (om_values (t_partitions t))"
    using assms(4-6) by (simp_all add: om_map_sets)
  moreover have "link_integral c (fl l) = link_integral t l" "partition_integral c (fq q) = partition_integral t q"
    "port_integral c p = port_integral t p" for l p q
    using assms(7,8)
    by (simp_all add: link_integral_def end_integral_def partition_integral_def port_integral_def look)
  ultimately show ?thesis
    using assms(1) unfolding integral_def by (metis (no_types, lifting) image_iff)
qed

lemma fence_integral:
  assumes "integral t" "invalidateForWorker_edit w b t = Inr c"
  shows "integral c"
proof (rule integral_maps [OF assms(1)])
  show "t_devices c = om_map (fence_device w b) (t_devices t)" "t_switches c = om_map (fence_switch w b) (t_switches t)"
    "t_ports c = om_map (fence_port w b) (t_ports t)" "t_links c = om_map (fence_link w b) (t_links t)"
    "t_partitions c = om_map (fence_partition w b) (t_partitions t)"
    using assms(2) by (auto simp: invalidateForWorker_edit_def Let_def split: if_splits)
qed (simp_all add: fence_link_def fence_partition_def)

lemma fencing_commits:
  assumes "reg_inv r" "gens_below_max (r_current r)"
  shows "\<exists>t. fst (invalidateForWorker w b now r) = Inr t"
proof -
  obtain c where c: "invalidateForWorker_edit w b (r_current r) = Inr c"
    by (simp add: invalidateForWorker_edit_def Let_def)
  have wf: "topo_wf c"
    using c assms(1) invalidateForWorker.edit_wf by (auto simp: reg_inv_def)
  have "within_limits c"
    using c assms(1) by (auto simp: invalidateForWorker_edit_def Let_def reg_inv_def within_limits_def split: if_splits)
  then have "candidate_problem (r_current r) (finalizeProvenance c) = None"
    using wf fence_integral [OF _ c] fence_gens_monotone [OF assms(2) c] assms(1)
    by (simp add: candidate_problem_None reg_inv_def)
  moreover obtain res r' where "transact (invalidateForWorker_edit w b) now r = (res, r')"
    by fastforce
  ultimately show ?thesis
    using c by (auto simp: invalidateForWorker_def elim: transact_cases)
qed

section \<open>What a publication writes\<close>

lemma find_unique: "x \<in> set xs \<Longrightarrow> P x \<Longrightarrow> (\<And>y. y \<in> set xs \<Longrightarrow> P y \<Longrightarrow> y = x) \<Longrightarrow> find P xs = Some x"
proof (induction xs)
  case (Cons a xs)
  then show ?case
    by (metis find.simps(2) list.set_intros set_ConsD)
qed simp

lemma om_insert_all_stamped:
  assumes "om_ok m" "om_keyed key m" "\<And>v. key (f v) = key v" "om_find m k = Some v"
  shows "om_find (om_insert_all key (map f (om_values m)) m') k = Some (f v)"
proof -
  have v: "(k, v) \<in> set m" "key v = k"
    using om_find_Some_in [OF assms(4)] om_keyed_find [OF assms(2,4)] by simp_all
  have unique: "x = v" if "(k', x) \<in> set m" "key x = k" for k' x
    using that assms(2,4) om_find_eq_Some [OF assms(1), of k x] by (fastforce simp: om_keyed_def)
  have "find (\<lambda>x. key x = k) (rev (map f (om_values m))) = Some (f v)"
  proof (rule find_unique)
    show "f v \<in> set (rev (map f (om_values m)))" "key (f v) = k"
      using v by (auto simp: om_values_def assms(3) image_iff intro!: bexI [of _ "(k, v)"])
    show "y = f v" if "y \<in> set (rev (map f (om_values m)))" "key y = k" for y
      using that unique by (auto simp: om_values_def assms(3))
  qed
  then show ?thesis
    by (simp add: om_find_insert_all)
qed

lemma worker_bulk_switch:
  assumes "fst (applyBulk (worker_bulk topo w b) now r) = Inr t" "topo_wf topo"
    "lookupSwitch topo i = Some s"
  shows "lookupSwitch (r_current (snd (applyBulk (worker_bulk topo w b) now r))) i =
    Some (s\<lparr>sw_workerKnown := True, sw_worker := w, sw_workerBoot := b\<rparr>)"
proof -
  obtain cand where c: "applyBulk_edit (worker_bulk topo w b) (r_current r) = Inr cand" "t = stamped r cand"
    "snd (applyBulk (worker_bulk topo w b) now r) = published now t r"
    using committed_snapshot [OF assms(1) [unfolded applyBulk_def]] unfolding applyBulk_def by blast
  then have "lookupSwitch t i = om_find (om_insert_all sw_id (be_switches (worker_bulk topo w b))
      (t_switches (r_current r))) i"
    by (auto simp: applyBulk_edit_def lookupSwitch_def)
  also have "\<dots> = Some (s\<lparr>sw_workerKnown := True, sw_worker := w, sw_workerBoot := b\<rparr>)"
    unfolding worker_bulk_def BulkEdit.simps
    by (rule om_insert_all_stamped) (use assms(2,3) in \<open>simp_all add: topo_wf_def lookupSwitch_def\<close>)
  finally show ?thesis
    using c(3) by simp
qed

lemma map_option_image: "map_option f m = Some s \<Longrightarrow> (\<And>z. P (f z) \<longrightarrow> Q (f z)) \<Longrightarrow> P s \<longrightarrow> Q s"
  by auto

lemma transact_epoch: "r_epoch (snd (transact_with pfx edit now r)) = r_epoch r"
proof -
  obtain res r' where t: "transact_with pfx edit now r = (res, r')"
    by fastforce
  then have "r_epoch r' = r_epoch r"
    by (cases rule: transact_cases) auto
  with t show ?thesis by simp
qed

text \<open>A well-formed publication of a registered worker reaches the registry.\<close>

lemma publish_delivered:
  assumes "cn_registered cn" "str_ok (sid_value (cn_worker cn))"
    and "topo_wf t" "checkIntegrity t = []" "within_limits t" "persistable t"
    and "length (encodeTopologyPayload t) \<le> unat kMaxFrameBytes"
  shows "cd_registry (fst (snd (handle_publish now
      (publish_payload (encodeTopologyPayload t) (cn_worker cn) (cn_boot cn) (r_epoch (cd_registry c))) cn c))) =
    snd (applyBulk (worker_bulk t (cn_worker cn) (cn_boot cn)) now (cd_registry c))"
proof -
  let ?blob = "encodeTopologyPayload t"
  have "decodeTopology ?blob = Inr t"
    using assms(4) fields_back [OF assms(3,5,6), of "[]"] by (simp add: decodeTopology_cases)
  moreover have "cd_registry (snd (coordinator_persistTo p x)) = cd_registry x" for p x
    by (simp add: coordinator_persistTo_def split: prod.split)
  moreover have "get_bytes (length ?blob) ?blob = Some (?blob, [])"
    by (simp add: get_bytes_def)
  ultimately show ?thesis
    using assms(1,2) count_back [OF assms(7)]
    by (simp add: handle_publish_def parse_publish_def publish_payload_def applyWorkerTopology_def Let_def)
qed

definition sample_connection :: Connection where
  "sample_connection = Connection_new\<lparr>cn_worker := MkStringId ''w1'', cn_boot := 3, cn_registered := True\<rparr>"

lemma pair_payload_small: "length (encodeTopologyPayload (snapshot pair_registry)) \<le> unat kMaxFrameBytes"
  using pair_image_small length_image [OF pair_image_accepted(3)] by (simp add: limit_defs)

lemma pair_publish_version:
  "r_version (snd (applyBulk (worker_bulk (snapshot pair_registry) (MkStringId ''w1'') 3) 9 FabricRegistry_new)) = 1"
  by code_simp

lemma owned_inv: "reg_inv owned_registry"
  unfolding owned_registry_def by (intro reg_inv_applyBulk reg_inv_new)

lemma owned_below_max: "gens_below_max (snapshot owned_registry)"
  by code_simp

lemma owned_rests: "rests_on_worker (snapshot owned_registry) (MkStringId ''w1'') 3 (sample_answer owned_registry)"
  using owned_facts unfolding rests_on_worker_def snapshot_def by fastforce

lemma owned_persistable: "persistable (snapshot owned_registry)"
  by code_simp

definition owned_image :: bytes where
  "owned_image = projr (serialize owned_registry)"

lemma owned_image_facts:
  "deserialize owned_image = Inr (restored (snapshot owned_registry))" "serialize owned_registry = Inr owned_image"
  using serialize_deserialize [of owned_registry] owned_inv owned_persistable
  by (auto simp: reg_inv_def snapshot_def checkIntegrity_iff owned_image_def)

lemma owned_image_small: "length owned_image \<le> unat kMaxPersistenceBytes"
proof -
  have "length (encodeTopologyPayload (snapshot owned_registry)) \<le> 10000"
    by code_simp
  then show ?thesis
    unfolding length_image [OF owned_image_facts(2)] limit_defs by simp
qed

text \<open>A coordinator that finds this file.\<close>

definition restart_coordinator :: Coordinator where
  "restart_coordinator = Coordinator_new\<lparr>cd_files := [''f'' \<mapsto> owned_image]\<rparr>"

lemma owned_restored: "restoreFrom ''f'' (cd_files restart_coordinator) = Inr (restored (snapshot owned_registry))"
  using owned_image_facts(1) owned_image_small
  by (simp add: restart_coordinator_def restoreFrom_def deserializeFromFile_def)

lemma owned_restart:
  "map_option (\<lambda>s. (sw_workerKnown s, sw_provenance s)) (lookupSwitch (snapshot
     (snd (expireDynamicEvidence 9 (snd (applyBulk (bulk_of_topology (snapshot owned_registry)) 9 FabricRegistry_new)))))
     (MkId 10)) = Some (True, Provenance.SYNTHETIC) \<and>
   \<not> isl (fst (expireDynamicEvidence 9 (snd (applyBulk (bulk_of_topology (snapshot owned_registry)) 9 FabricRegistry_new))))"
  by code_simp

section \<open>Properties\<close>

text \<open>
  (C31) The invariant of the running coordinator: whatever connections come and go and whatever
  they send, in any interleaving, there are at most \<open>kMaxConnections\<close> live connections, each
  served once; the published snapshot is integral and within the limits; no connection
  buffers more than one frame of the largest size; and no connection and no entry of the table
  of active boots carries a boot above the largest one recorded for its worker.
\<close>

theorem coordinator_invariant:
  assumes "sys_reaches (System_start os port given path epoch now fs) s"
  shows "liveConnections (sy_coord s) \<le> unat kMaxConnections \<and> distinct (cd_liveSocks (sy_coord s)) \<and>
    checkIntegrity (snapshot (cd_registry (sy_coord s))) = [] \<and>
    within_limits (snapshot (cd_registry (sy_coord s))) \<and>
    (\<forall>x cn. om_find (sy_conns s) x = Some cn \<longrightarrow>
       length (fs_buf (cn_stream cn)) < 20 + unat kMaxFrameBytes \<and>
       (cn_registered cn \<longrightarrow> boot_known (sy_coord s) (cn_worker cn) (cn_boot cn))) \<and>
    (\<forall>w b. om_find (cd_activeBoot (sy_coord s)) w = Some b \<longrightarrow> boot_known (sy_coord s) w b)"
proof -
  have "sys_inv s"
    using assms System_start_inv sys_reaches_inv by blast
  then have "liveConnections (sy_coord s) \<le> unat kMaxConnections" "distinct (cd_liveSocks (sy_coord s))"
    "reg_inv (cd_registry (sy_coord s))"
    "\<forall>w b. om_find (cd_activeBoot (sy_coord s)) w = Some b \<longrightarrow> boot_known (sy_coord s) w b"
    "\<forall>x cn. om_find (sy_conns s) x = Some cn \<longrightarrow> conn_inv (sy_coord s) cn"
    by (simp_all add: sys_inv_def coord_inv_def liveConnections_def)
  then show ?thesis
    using feed_step_Wait by (simp add: reg_inv_def snapshot_def checkIntegrity_iff conn_inv_def)
qed

text \<open>A run of the sample: one worker connects and registers with boot 3.\<close>

definition sample_os :: Os where
  "sample_os = \<lparr>os_socket = 3, os_resolves = \<lambda>h p. True, os_connect = \<lambda>f h p. 0, os_bind = \<lambda>f p. 0,
     os_listen = \<lambda>f. 0, os_getsockname = \<lambda>f. 4000, os_accept = \<lambda>f. 4\<rparr>"

definition sample_start :: System where
  "sample_start = System_start sample_os 0 False [] 1 0 Map.empty"

lemma sample_listens: "coordinator_start sample_os 0 c =
    (Inr (), c\<lparr>cd_listen := (cd_listen c)\<lparr>so_fd := 3, so_localPort := 4000\<rparr>, cd_port := 4000, cd_running := True\<rparr>)"
  by (simp add: coordinator_start_def listenOn_def sample_os_def Let_def)

definition sample_frame :: Frame where
  "sample_frame = \<lparr>fr_type = REGISTER, fr_payload = register_payload (MkStringId ''w1'') 3 1\<rparr>"

definition sample_system :: System where
  "sample_system = handle_event (Serve 7 0)
     (handle_event (Receive 7 (encodeFrame sample_frame) 0) (handle_event (Accept 7) sample_start))"

lemma sample_system_reached: "sys_reaches sample_start sample_system"
  unfolding sample_system_def by (intro sys_reaches.intros)

lemma parse_register_payload:
  "str_ok (sid_value w) \<Longrightarrow> parse_register (register_payload w b ep) = Some (ep, sid_value w, b)"
  by (simp add: parse_register_def register_payload_def)

lemma sample_system_boots:
  "om_find (cd_maxBoot (sy_coord sample_system)) (MkStringId ''w1'') = Some 3"
proof -
  have f: "feed (encodeFrame sample_frame) FrameStream_new = (True, [sample_frame], FrameStream_new)"
    using feed_loop_encoded [of "[sample_frame]"]
    by (simp add: feed_def FrameStream_new_def stream_ok_def no_error_def frame_fits_def sample_frame_def
        register_payload_def put_str_def put_u32_def put_u64_def put_u8_def limit_defs)
  have "encodeFrame sample_frame \<noteq> []"
    by (metis length_encodeFrame add_is_0 list.size(3) zero_neq_numeral)
  with f show ?thesis
    by (simp add: sample_system_def handle_event_def accept_connection_def receive_chunk_def serve_frame_def
        sample_start_def System_start_def Let_def setPersistPath_def coordinator_setEpoch_def setEpoch_def
        sample_listens Coordinator_new_def Connection_new_def liveConnections_def handle_frame_def handle_register_def
        parse_register_payload str_ok_def kMaxStringBytes_def limit_defs FabricRegistry_new_def om_find_def)
      (simp add: sample_frame_def handle_register_def parse_register_payload str_ok_def kMaxStringBytes_def Let_def)
qed

theorem coordinator_invariant_witness:
  "liveConnections (sy_coord sample_system) \<le> unat kMaxConnections \<and>
   checkIntegrity (snapshot (cd_registry (sy_coord sample_system))) = []"
  using coordinator_invariant [OF sample_system_reached [unfolded sample_start_def]] by blast

text \<open>
  (C32) A stale boot stays rejected: once a boot of a worker has been recorded, a \<open>REGISTER\<close> with a
  smaller boot changes nothing, neither the connection nor the coordinator, at any later
  moment of the run.
\<close>

theorem stale_boot_rejected:
  assumes "om_find (cd_maxBoot (sy_coord s)) (MkStringId wid) = Some m" and "sys_reaches s s'"
    and "parse_register payload = Some (ep, wid, b)" and "b < m"
  shows "handle_register payload cn (sy_coord s') = (cn, sy_coord s', [])"
proof -
  have "boot_known (sy_coord s) (MkStringId wid) m"
    using assms(1) by (simp add: boot_known_def)
  then obtain m' where "om_find (cd_maxBoot (sy_coord s')) (MkStringId wid) = Some m'" "m \<le> m'"
    using boots_grow_reaches [OF assms(2)] by (auto simp: boots_grow_def boot_known_def)
  then show ?thesis
    using assms(3,4) by (auto simp: handle_register_def Let_def)
qed

theorem stale_boot_rejected_witness:
  "handle_register (register_payload (MkStringId ''w1'') 2 1) Connection_new (sy_coord sample_system) =
     (Connection_new, sy_coord sample_system, [])"
  by (rule stale_boot_rejected [OF sample_system_boots sys_reaches.sys_refl
        parse_register_payload [of "MkStringId ''w1''" 2 1, simplified]]) (simp_all add: str_ok_def kMaxStringBytes_def)

lemma measured_snapshot: "snapshot (snd (publishMeasurement m r)) = snapshot r"
  by (simp add: publishMeasurement_def snapshot_def Let_def)

lemma routed_snapshot: "route src dst policy now r = (d, r') \<Longrightarrow> snapshot r' = snapshot r"
  by (auto simp: route_def route_draw_def route_log_def snapshot_def Let_def split: prod.splits sum.splits)

lemma measurement_quiet:
  "snapshot (cd_registry (fst (snd (handle_measurement p cn c)))) = snapshot (cd_registry c) \<and>
   (\<not> cn_registered cn \<longrightarrow> fst (snd (handle_measurement p cn c)) = c)"
  by (simp add: handle_measurement_def measured_snapshot split: option.split prod.split)

lemma query_quiet:
  "snapshot (cd_registry (fst (snd (handle_query now p cn c)))) = snapshot (cd_registry c) \<and>
   (\<not> cn_registered cn \<longrightarrow> fst (snd (handle_query now p cn c)) = c)"
  by (simp add: handle_query_def routed_snapshot split: option.split prod.split sum.split)

text \<open>
  (C33) Only authorised publications reach the registry: if a frame other than \<open>REGISTER\<close> changes the
  coordinator, the connection is registered; the published snapshot changes only through a
  \<open>PUBLISH_TOPOLOGY\<close>; and if a \<open>PUBLISH_TOPOLOGY\<close> changes the registry, its
  epoch is the current one, its worker and boot are those the connection registered, the blob
  decodes to a topology, and the new registry is the bulk edit of that topology with every
  record attributed to this worker and boot.
\<close>

theorem publication_authorised:
  assumes "fst (snd (handle_frame now f cn c)) \<noteq> c" and "fr_type f \<noteq> REGISTER"
  shows "cn_registered cn \<and>
    (snapshot (cd_registry (fst (snd (handle_frame now f cn c)))) \<noteq> snapshot (cd_registry c) \<longrightarrow>
      fr_type f = PUBLISH_TOPOLOGY) \<and>
    (fr_type f = PUBLISH_TOPOLOGY \<longrightarrow>
      (\<exists>wid n rest blob rest' topo.
         parse_publish (fr_payload f) = Some ((r_epoch (cd_registry c), wid, cn_boot cn, n), rest) \<and>
         MkStringId wid = cn_worker cn \<and> get_bytes (unat n) rest = Some (blob, rest') \<and>
         decodeTopology blob = Inr topo \<and>
         cd_registry (fst (snd (handle_frame now f cn c))) =
           snd (applyBulk (worker_bulk topo (cn_worker cn) (cn_boot cn)) now (cd_registry c))))"
proof (cases "fr_type f = PUBLISH_TOPOLOGY")
  case True
  then have h: "handle_frame now f cn c = handle_publish now (fr_payload f) cn c"
    by (simp add: handle_frame_def)
  show ?thesis
  proof (cases rule: publish_cases [of now "fr_payload f" cn c])
    case ignored
    then show ?thesis using assms(1) h by simp
  next
    case (applied wid n rest blob rest' topo fs)
    then show ?thesis using h True by auto
  qed
next
  case False
  then show ?thesis
    using assms measurement_quiet [of "fr_payload f" cn c] query_quiet [of now "fr_payload f" cn c]
    by (auto simp: handle_frame_def split: MsgType.splits)
qed

theorem publication_authorised_witness:
  "let f = \<lparr>fr_type = PUBLISH_TOPOLOGY, fr_payload =
         publish_payload (encodeTopologyPayload (snapshot pair_registry)) (MkStringId ''w1'') 3 0\<rparr>;
       c' = fst (snd (handle_frame 9 f sample_connection Coordinator_new))
   in c' \<noteq> Coordinator_new \<and> r_version (cd_registry c') = 1 \<and>
      (\<exists>topo. cd_registry c' = snd (applyBulk (worker_bulk topo (MkStringId ''w1'') 3) 9 FabricRegistry_new))"
proof -
  let ?f = "\<lparr>fr_type = PUBLISH_TOPOLOGY, fr_payload =
     publish_payload (encodeTopologyPayload (snapshot pair_registry)) (MkStringId ''w1'') 3 0\<rparr>"
  let ?c = "fst (snd (handle_frame 9 ?f sample_connection Coordinator_new))"
  have cn: "cn_registered sample_connection" "cn_worker sample_connection = MkStringId ''w1''"
    "cn_boot sample_connection = 3" "r_epoch FabricRegistry_new = 0"
    "cd_registry Coordinator_new = FabricRegistry_new"
    by (simp_all add: sample_connection_def Coordinator_new_def FabricRegistry_new_def)
  have "cd_registry ?c = snd (applyBulk (worker_bulk (snapshot pair_registry) (MkStringId ''w1'') 3) 9 FabricRegistry_new)"
    using publish_delivered [of sample_connection "snapshot pair_registry" 9 Coordinator_new] reg_inv_sample
      pair_persistable pair_payload_small
    by (simp add: cn handle_frame_def reg_inv_def snapshot_def checkIntegrity_iff str_ok_def kMaxStringBytes_def)
  then have v: "r_version (cd_registry ?c) = 1"
    using pair_publish_version by simp
  moreover have ne: "?c \<noteq> Coordinator_new"
    using v by (auto simp: Coordinator_new_def FabricRegistry_new_def)
  moreover have "\<exists>topo. cd_registry ?c = snd (applyBulk (worker_bulk topo (MkStringId ''w1'') 3) 9 FabricRegistry_new)"
    using publication_authorised [OF ne] by (auto simp: cn)
  ultimately show ?thesis
    unfolding Let_def by blast
qed



text \<open>
  A superseded connection keeps publishing: whether a publication is accepted does not depend on
  the boot tables, so a connection that registered an old boot still writes to the registry
  after a newer boot of the same worker has registered.
\<close>

theorem superseded_connection_publishes:
  "cd_registry (fst (snd (handle_publish now payload cn (c\<lparr>cd_maxBoot := m, cd_activeBoot := a\<rparr>)))) =
   cd_registry (fst (snd (handle_publish now payload cn c)))"
proof -
  have "cd_registry (snd (coordinator_persistTo p x)) = cd_registry x" for p x
    by (simp add: coordinator_persistTo_def split: prod.split)
  then show ?thesis
    by (auto simp: handle_publish_def Let_def applyWorkerTopology_def split: option.split sum.split)
qed

text \<open>
  Restoring at start: after the saved state has been merged and its dynamic evidence expired, the
  epoch of the coordinator is what it was before, and every switch, port, device or partition
  that came from a worker or from hardware requires revalidation.
\<close>

theorem restore_requires_revalidation:
  assumes "fst (expireDynamicEvidence now
      (snd (applyBulk (bulk_of_topology (snapshot saved)) now (cd_registry c)))) = Inr t"
    and "restoreFrom path (cd_files c) = Inr saved"
    and "c' = snd (restoreFromAndRevalidate path now c)"
  shows "coordinator_epoch c' = coordinator_epoch c \<and>
    (\<forall>i s. lookupSwitch (snapshot (cd_registry c')) i = Some s \<longrightarrow> dynamic (sw_workerKnown s) (sw_provenance s) \<longrightarrow>
       sw_state s = EntityState.REVALIDATION_REQUIRED) \<and>
    (\<forall>i p. lookupPort (snapshot (cd_registry c')) i = Some p \<longrightarrow> dynamic (po_workerKnown p) (po_provenance p) \<longrightarrow>
       po_state p = EntityState.REVALIDATION_REQUIRED) \<and>
    (\<forall>i d. lookupDevice (snapshot (cd_registry c')) i = Some d \<longrightarrow> dynamic (dev_workerKnown d) (dev_provenance d) \<longrightarrow>
       dev_state d = EntityState.REVALIDATION_REQUIRED) \<and>
    (\<forall>i q. lookupPartition (snapshot (cd_registry c')) i = Some q \<longrightarrow> dynamic (pa_workerKnown q) (pa_provenance q) \<longrightarrow>
       pa_state q = PartitionState.REVALIDATION_REQUIRED)"
proof -
  let ?r = "snd (applyBulk (bulk_of_topology (snapshot saved)) now (cd_registry c))"
  have r: "cd_registry c' = snd (expireDynamicEvidence now ?r)"
    using assms(2,3) by (simp add: restoreFromAndRevalidate_def Let_def)
  have "r_epoch ?r = r_epoch (cd_registry c)"
    by (simp add: applyBulk_def transact_epoch)
  moreover have "snapshot (cd_registry c') = t" "r_epoch (cd_registry c') = r_epoch ?r"
    using expire_lookups(1,2) [OF assms(1)] by (simp_all add: r snapshot_def)
  moreover have "dynamic (sw_workerKnown s) (sw_provenance s) \<longrightarrow> sw_state s = EntityState.REVALIDATION_REQUIRED"
    if "lookupSwitch t i = Some s" for i s
    using that unfolding expire_lookups(3) [OF assms(1)] by (rule map_option_image) simp
  moreover have "dynamic (po_workerKnown p) (po_provenance p) \<longrightarrow> po_state p = EntityState.REVALIDATION_REQUIRED"
    if "lookupPort t i = Some p" for i p
    using that unfolding expire_lookups(4) [OF assms(1)] by (rule map_option_image) simp
  moreover have "dynamic (pa_workerKnown q) (pa_provenance q) \<longrightarrow> pa_state q = PartitionState.REVALIDATION_REQUIRED"
    if "lookupPartition t i = Some q" for i q
    using that unfolding expire_lookups(5) [OF assms(1)] by (rule map_option_image) simp
  moreover have "dynamic (dev_workerKnown d) (dev_provenance d) \<longrightarrow> dev_state d = EntityState.REVALIDATION_REQUIRED"
    if "lookupDevice t i = Some d" for i d
    using that unfolding expire_lookups(6) [OF assms(1)] by (rule map_option_image) simp
  ultimately show ?thesis
    by (simp add: coordinator_epoch_def)
qed

theorem restore_requires_revalidation_witness:
  "\<exists>s. lookupSwitch (snapshot (cd_registry (snd (restoreFromAndRevalidate ''f'' 9 restart_coordinator)))) (MkId 10) = Some s \<and>
     sw_state s = EntityState.REVALIDATION_REQUIRED"
proof -
  let ?r = "snd (expireDynamicEvidence 9 (snd (applyBulk (bulk_of_topology (snapshot owned_registry)) 9 FabricRegistry_new)))"
  have reg: "cd_registry restart_coordinator = FabricRegistry_new"
    by (simp add: restart_coordinator_def Coordinator_new_def)
  obtain t where "fst (expireDynamicEvidence 9 (snd (applyBulk
      (bulk_of_topology (snapshot (restored (snapshot owned_registry)))) 9 (cd_registry restart_coordinator)))) = Inr t"
    using owned_restart unfolding reg restored_simps by (metis sum.collapse(2))
  note re = restore_requires_revalidation [OF this owned_restored refl]
  have "cd_registry (snd (restoreFromAndRevalidate ''f'' 9 restart_coordinator)) = ?r"
    using owned_restored by (simp add: restoreFromAndRevalidate_def Let_def reg)
  then show ?thesis
    using re owned_restart by (auto simp: dynamic_def)
qed

end
