(* ===== verification/Fabric_Worker.thy ===== *)
theory Fabric_Worker
  imports Fabric_Coordination
begin

text \<open>
  The worker (\<open>runtime/worker.h\<close>, \<open>runtime/worker.cpp\<close>) and its conversation with the coordinator.

  The socket below the worker is a parameter: the results of the successive \<open>send\<close> calls and the
  results of the successive \<open>recv\<close> calls are lists, and an operation that would wait for more than the
  list offers is \<open>None\<close>. Sending returns the bytes that the system took.
\<close>

section \<open>The worker\<close>

record Worker =
  wk_sock :: TcpSocket
  wk_stream :: FrameStream
  wk_host :: string
  wk_port :: u16
  wk_worker :: WorkerId
  wk_boot :: WorkerBootId

definition Worker_new :: Worker where
  "Worker_new = \<lparr>wk_sock = TcpSocket_new, wk_stream = FrameStream_new, wk_host = [], wk_port = 0,
     wk_worker = MkStringId [], wk_boot = 0\<rparr>"

definition connected :: "Worker \<Rightarrow> bool" where
  "connected w = socket_valid (wk_sock w)"

definition worker_close :: "Worker \<Rightarrow> Worker" where
  "worker_close w = w\<lparr>wk_sock := socket_close (wk_sock w)\<rparr>"

definition sendFrame :: "int list \<Rightarrow> MsgType \<Rightarrow> bytes \<Rightarrow> (unit Result \<times> bytes) option" where
  "sendFrame ns type payload = sendAll ns (encodeFrame \<lparr>fr_type = type, fr_payload = payload\<rparr>) 0"

text \<open>\<open>connect\<close>: open the socket, then \<open>HELLO\<close> and \<open>REGISTER\<close>.\<close>

definition worker_connect ::
    "Os \<Rightarrow> int list \<Rightarrow> int list \<Rightarrow> string \<Rightarrow> u16 \<Rightarrow> WorkerId \<Rightarrow> WorkerBootId \<Rightarrow> CoordinatorEpoch \<Rightarrow> Worker \<Rightarrow>
     (u8 Result \<times> Worker \<times> bytes) option" where
  "worker_connect os ns1 ns2 host port worker boot epoch w =
     (case connectTo os host port (wk_sock w) of
        (Inl e, so) \<Rightarrow> Some (Inl e, w\<lparr>wk_sock := so\<rparr>, [])
      | (Inr _, so) \<Rightarrow>
          let w = w\<lparr>wk_sock := so, wk_host := host, wk_port := port\<rparr> in do {
          (r1, sent1) \<leftarrow> sendFrame ns1 HELLO hello_payload;
          (case r1 of
             Inl e \<Rightarrow> Some (Inl e, w, sent1)
           | Inr _ \<Rightarrow> do {
               (r2, sent2) \<leftarrow> sendFrame ns2 REGISTER (register_payload worker boot epoch);
               (case r2 of
                  Inl e \<Rightarrow> Some (Inl e, w, sent1 @ sent2)
                | Inr _ \<Rightarrow> Some (Inr kWireProtocolVersion, w\<lparr>wk_worker := worker, wk_boot := boot\<rparr>,
                             sent1 @ sent2))})})"

definition publishTopology ::
    "int list \<Rightarrow> FabricTopology \<Rightarrow> CoordinatorEpoch \<Rightarrow> Worker \<Rightarrow> (unit Result \<times> bytes) option" where
  "publishTopology ns topo epoch w =
     (case encodeTopology topo of
        Inl e \<Rightarrow> Some (Inl e, [])
      | Inr blob \<Rightarrow>
          sendFrame ns PUBLISH_TOPOLOGY (publish_payload blob (wk_worker w) (wk_boot w) epoch))"

definition worker_publishMeasurement ::
    "int list \<Rightarrow> Measurement \<Rightarrow> CoordinatorEpoch \<Rightarrow> (unit Result \<times> bytes) option" where
  "worker_publishMeasurement ns m epoch = sendFrame ns PUBLISH_MEASUREMENT (measurement_payload m epoch)"

text \<open>\<open>recvFrame\<close> keeps the first frame of the chunk that completes one and drops the others.\<close>

fun recvFrame :: "bytes Result list \<Rightarrow> Worker \<Rightarrow> (Frame Result \<times> Worker) option" where
  "recvFrame [] w = None"
| "recvFrame (Inl e # rs) w = Some (Inl e, w)"
| "recvFrame (Inr data # rs) w =
     (if data = [] then Some (Inl (err ErrorCode.PROTOCOL_ERROR ''connection closed''), w)
      else case feed data (wk_stream w) of
             (False, _, st) \<Rightarrow> Some (Inl (fs_err st), w\<lparr>wk_stream := st\<rparr>)
           | (True, [], st) \<Rightarrow> recvFrame rs (w\<lparr>wk_stream := st\<rparr>)
           | (True, f # _, st) \<Rightarrow> Some (Inr f, w\<lparr>wk_stream := st\<rparr>))"

text \<open>What \<open>queryRoute\<close> makes of the answer.\<close>

definition read_answer :: "DeviceId \<Rightarrow> DeviceId \<Rightarrow> Frame \<Rightarrow> RouteDecision Result" where
  "read_answer src dst f =
     (if fr_type f \<noteq> ROUTE_RESULT then Inl (err ErrorCode.PROTOCOL_ERROR ''expected route result'')
      else
        require ''outcome'' (get_u8 (fr_payload f)) (\<lambda>(out, r).
        require ''reason'' (get_str r) (\<lambda>(reason, r).
        require ''key'' (get_str r) (\<lambda>(key, r).
        require ''candidates'' (get_u32 r) (\<lambda>(cc, r).
        require ''authoritative'' (get_bool r) (\<lambda>(au, r).
        let d = default_RouteDecision\<lparr>rd_outcome := RouteOutcome_of_u8 out, rd_outcomeReason := reason,
                  rd_authoritative := au, rd_source := src, rd_destination := dst\<rparr>
        in Inr (if key \<noteq> [] then d\<lparr>rd_selected := Some (default_FabricPath\<lparr>fp_source := src,
                     fp_destination := dst\<rparr>)\<rparr> else d)))))))"

definition queryRoute ::
    "int list \<Rightarrow> bytes Result list \<Rightarrow> DeviceId \<Rightarrow> DeviceId \<Rightarrow> RoutePolicy \<Rightarrow> Worker \<Rightarrow>
     (RouteDecision Result \<times> Worker) option" where
  "queryRoute ns rs src dst policy w = do {
     (r1, sent) \<leftarrow> sendFrame ns QUERY_ROUTE (query_payload src dst policy);
     (case r1 of
        Inl e \<Rightarrow> Some (Inl e, w)
      | Inr _ \<Rightarrow> do {
          (rf, w) \<leftarrow> recvFrame rs w;
          (case rf of
             Inl e \<Rightarrow> Some (Inl e, w)
           | Inr f \<Rightarrow> Some (read_answer src dst f, w))})}"

text \<open>The frames \<open>workerMain\<close> sends for a scenario.\<close>

definition main_measurement :: Measurement where
  "main_measurement = default_Measurement\<lparr>me_source := MkId 1, me_destination := MkId 2,
     me_sourceKnown := True, me_destinationKnown := True, me_payloadBytes := 8 * 1024 * 1024,
     me_iterations := 10, me_elapsedNanos := 5000000, me_elapsedKnown := True,
     me_kind := MeasurementKind.SYNTHETIC_FIXTURE, me_provenance := Provenance.SYNTHETIC,
     me_integrityVerified := True\<rparr>"

definition workerMain_frames ::
    "WorkerId \<Rightarrow> WorkerBootId \<Rightarrow> CoordinatorEpoch \<Rightarrow> ScenarioType \<Rightarrow> u64 \<Rightarrow> Frame list" where
  "workerMain_frames worker boot epoch scenario now =
     (let snap = snapshot (snd (applyScenarioToRegistry scenario now FabricRegistry_new)) in
      [\<lparr>fr_type = HELLO, fr_payload = hello_payload\<rparr>,
       \<lparr>fr_type = REGISTER, fr_payload = register_payload worker boot epoch\<rparr>,
       \<lparr>fr_type = PUBLISH_TOPOLOGY, fr_payload =
          publish_payload (encodeTopologyPayload snap) worker boot epoch\<rparr>]
      @ (if scenario \<noteq> EMPTY
         then [\<lparr>fr_type = PUBLISH_MEASUREMENT, fr_payload = measurement_payload main_measurement epoch\<rparr>]
         else []))"

section \<open>A connection fed in chunks\<close>

text \<open>The thread of a connection: it takes a chunk and serves the frames in it, one by one.\<close>

fun deliver :: "u64 \<Rightarrow> sock \<Rightarrow> bytes list \<Rightarrow> System \<Rightarrow> System" where
  "deliver now s [] sys = sys"
| "deliver now s (c # cs) sys =
     (let sys = receive_chunk now s c sys in deliver now s cs (serve_all (pending s sys) now s sys))"

text \<open>The handlers applied to a list of frames.\<close>

fun handle_frames :: "u64 \<Rightarrow> Frame list \<Rightarrow> Connection \<Rightarrow> Coordinator \<Rightarrow> Connection \<times> Coordinator" where
  "handle_frames now [] cn c = (cn, c)"
| "handle_frames now (f # fs) cn c =
     (case handle_frame now f cn c of (cn, c, _) \<Rightarrow> handle_frames now fs cn c)"

lemma handle_frame_local:
  "handle_frame now f (cn\<lparr>cn_stream := st, cn_frames := fs\<rparr>) c =
     (case handle_frame now f cn c of (cn', c', out) \<Rightarrow> (cn'\<lparr>cn_stream := st, cn_frames := fs\<rparr>, c', out))"
proof -
  have "handle_register p (cn\<lparr>cn_stream := st, cn_frames := fs\<rparr>) c =
      (case handle_register p cn c of (cn', c', out) \<Rightarrow> (cn'\<lparr>cn_stream := st, cn_frames := fs\<rparr>, c', out))" for p
    by (auto simp: handle_register_def Let_def split: option.split)
  moreover have "handle_publish now p (cn\<lparr>cn_stream := st, cn_frames := fs\<rparr>) c =
      (case handle_publish now p cn c of (cn', c', out) \<Rightarrow> (cn'\<lparr>cn_stream := st, cn_frames := fs\<rparr>, c', out))" for p
    by (auto simp: handle_publish_def Let_def split: option.split sum.split)
  moreover have "handle_measurement p (cn\<lparr>cn_stream := st, cn_frames := fs\<rparr>) c =
      (case handle_measurement p cn c of (cn', c', out) \<Rightarrow> (cn'\<lparr>cn_stream := st, cn_frames := fs\<rparr>, c', out))" for p
    by (auto simp: handle_measurement_def Let_def split: option.split sum.split)
  moreover have "handle_query now p (cn\<lparr>cn_stream := st, cn_frames := fs\<rparr>) c =
      (case handle_query now p cn c of (cn', c', out) \<Rightarrow> (cn'\<lparr>cn_stream := st, cn_frames := fs\<rparr>, c', out))" for p
    by (auto simp: handle_query_def Let_def split: option.split sum.split prod.split)
  ultimately show ?thesis
    by (simp add: handle_frame_def split: MsgType.split)
qed

text \<open>The worker, boot and registration of a connection, which is all the handlers see of it.\<close>

definition conn_view :: "Connection \<Rightarrow> WorkerId \<times> WorkerBootId \<times> bool" where
  "conn_view cn = (cn_worker cn, cn_boot cn, cn_registered cn)"

lemma conn_view_eq:
  "conn_view a = conn_view b \<Longrightarrow> a = b\<lparr>cn_stream := cn_stream a, cn_frames := cn_frames a\<rparr>"
  by (auto simp: conn_view_def)

lemma handle_frame_view:
  assumes "conn_view a = conn_view b" "handle_frame now f b c = (b', c', out)"
  shows "\<exists>a'. handle_frame now f a c = (a', c', out) \<and> conn_view a' = conn_view b' \<and>
    cn_stream a' = cn_stream a \<and> cn_frames a' = cn_frames a"
proof -
  have "handle_frame now f a c =
      (b'\<lparr>cn_stream := cn_stream a, cn_frames := cn_frames a\<rparr>, c', out)"
    using handle_frame_local [where now = now and f = f and cn = b and st = "cn_stream a" and fs = "cn_frames a" and c = c]
      conn_view_eq [OF assms(1)] assms(2) by simp
  then show ?thesis
    by (simp add: conn_view_def)
qed

lemma serve_all_handles:
  assumes "om_find (sy_conns sys) s = Some cn" "conn_view cn = conn_view cn0"
    "handle_frames now (cn_frames cn) cn0 (sy_coord sys) = (cn', c')"
  shows "sy_coord (serve_all (length (cn_frames cn)) now s sys) = c' \<and>
    (\<exists>cn''. om_find (sy_conns (serve_all (length (cn_frames cn)) now s sys)) s = Some cn'' \<and>
       conn_view cn'' = conn_view cn' \<and> cn_frames cn'' = [] \<and> cn_stream cn'' = cn_stream cn)"
  using assms
proof (induction "cn_frames cn" arbitrary: cn cn0 sys)
  case Nil
  then show ?case by (auto simp: Nil.hyps [symmetric])
next
  case (Cons f fs)
  obtain cn1 c1 out where h: "handle_frame now f cn0 (sy_coord sys) = (cn1, c1, out)"
    by (metis prod_cases3)
  then have rest: "handle_frames now fs cn1 c1 = (cn', c')"
    using Cons.prems(3) by (simp flip: Cons.hyps(2))
  have "conn_view (cn\<lparr>cn_frames := fs\<rparr>) = conn_view cn0"
    using Cons.prems(2) by (simp add: conn_view_def)
  then obtain a where a: "handle_frame now f (cn\<lparr>cn_frames := fs\<rparr>) (sy_coord sys) = (a, c1, out)"
    "conn_view a = conn_view cn1" "cn_stream a = cn_stream cn" "cn_frames a = fs"
    using handle_frame_view [OF _ h] by fastforce
  define sys1 where "sys1 = \<lparr>sy_coord = c1, sy_conns = om_insert s a (sy_conns sys)\<rparr>"
  have step: "fst (serve_frame now s sys) = sys1"
    using Cons.prems(1) a(1) by (simp add: serve_frame_def sys1_def flip: Cons.hyps(2))
  have "om_find (sy_conns sys1) s = Some a" "sy_coord sys1 = c1"
    by (simp_all add: sys1_def)
  with Cons.hyps(1) [OF a(4) [symmetric], of sys1 cn1] a rest show ?case
    by (simp add: step flip: Cons.hyps(2))
qed

lemma feeds_Cons_ok:
  assumes "feeds (x # xs) st = (fs, st')" "stream_ok st'"
  obtains fs1 fs2 st1 where "feed x st = (True, fs1, st1)" "feeds xs st1 = (fs2, st')" "fs = fs1 @ fs2"
proof -
  obtain okk fs1 st1 where f: "feed x st = (okk, fs1, st1)"
    by (metis prod_cases3)
  obtain fs2 where r: "feeds xs st1 = (fs2, st')" "fs = fs1 @ fs2"
    using assms(1) f by (auto split: prod.splits)
  have "stream_ok st1"
    using r(1) assms(2) feed_failed by (metis snd_conv)
  then have okk
    using f feed_loop_error by (fastforce simp: feed_def stream_ok_def split: if_splits prod.splits option.splits)
  with f r that show ?thesis by simp
qed

lemma handle_frames_append:
  "handle_frames now (xs @ ys) cn c = (case handle_frames now xs cn c of (cn, c) \<Rightarrow> handle_frames now ys cn c)"
  by (induction xs arbitrary: cn c) (auto split: prod.splits)

lemma deliver_handles:
  assumes "om_find (sy_conns sys) s = Some cn" "cn_frames cn = []" "conn_view cn = conn_view cn0"
    "feeds chunks (cn_stream cn) = (fs, st)" "stream_ok st" "[] \<notin> set chunks"
    "handle_frames now fs cn0 (sy_coord sys) = (cn', c')"
  shows "sy_coord (deliver now s chunks sys) = c' \<and>
    (\<exists>cn''. om_find (sy_conns (deliver now s chunks sys)) s = Some cn'' \<and> conn_view cn'' = conn_view cn')"
  using assms
proof (induction chunks arbitrary: sys cn cn0 fs)
  case Nil
  then show ?case by auto
next
  case (Cons x xs)
  obtain fs1 fs2 st1 where f: "feed x (cn_stream cn) = (True, fs1, st1)" "feeds xs st1 = (fs2, st)"
    "fs = fs1 @ fs2"
    using feeds_Cons_ok Cons.prems(4,5) by blast
  define cn1 where "cn1 = cn\<lparr>cn_stream := st1, cn_frames := fs1\<rparr>"
  define sys1 where "sys1 = sys\<lparr>sy_conns := om_insert s cn1 (sy_conns sys)\<rparr>"
  have recv: "receive_chunk now s x sys = sys1"
    using Cons.prems(1,2,6) f(1) by (auto simp: receive_chunk_def sys1_def cn1_def)
  obtain cn2 c2 where h: "handle_frames now fs1 cn0 (sy_coord sys) = (cn2, c2)" "handle_frames now fs2 cn2 c2 = (cn', c')"
    using Cons.prems(7) f(3) by (auto simp: handle_frames_append split: prod.splits)
  have one: "om_find (sy_conns sys1) s = Some cn1" "conn_view cn1 = conn_view cn0" "pending s sys1 = length fs1"
    "sy_coord sys1 = sy_coord sys"
    using Cons.prems(3) by (simp_all add: sys1_def cn1_def conn_view_def pending_def)
  define sys2 where "sys2 = serve_all (length fs1) now s sys1"
  obtain cn3 where two: "sy_coord sys2 = c2" "om_find (sy_conns sys2) s = Some cn3" "conn_view cn3 = conn_view cn2"
    "cn_frames cn3 = []" "cn_stream cn3 = st1"
    using serve_all_handles [OF one(1,2), of now cn2 c2] h(1) one(4) unfolding sys2_def
    by (auto simp: cn1_def)
  have "deliver now s (x # xs) sys = deliver now s xs sys2"
    by (simp add: recv Let_def one(3) sys2_def)
  then show ?case
    using Cons.IH [OF two(2,4,3), of fs2] two f(2) h(2) Cons.prems(5,6) by simp
qed

lemma length_puts64 [simp]: "length (put_u64 v) = 8" "length (put_str t) = 4 + length t" "length (put_bool b) = 1"
  by (simp_all add: put_u64_def put_str_def put_bool_def put_u8_def)

text \<open>The three frames by which a worker introduces itself and publishes a topology.\<close>

definition publication :: "WorkerId \<Rightarrow> WorkerBootId \<Rightarrow> CoordinatorEpoch \<Rightarrow> FabricTopology \<Rightarrow> Frame list" where
  "publication worker boot epoch t =
     [\<lparr>fr_type = HELLO, fr_payload = hello_payload\<rparr>,
      \<lparr>fr_type = REGISTER, fr_payload = register_payload worker boot epoch\<rparr>,
      \<lparr>fr_type = PUBLISH_TOPOLOGY, fr_payload = publish_payload (encodeTopologyPayload t) worker boot epoch\<rparr>]"

lemma publication_fits:
  assumes "length (publish_payload (encodeTopologyPayload t) worker boot epoch) \<le> unat kMaxFrameBytes"
  shows "list_all frame_fits (publication worker boot epoch t)" "str_ok (sid_value worker)"
    "length (encodeTopologyPayload t) \<le> unat kMaxFrameBytes"
  using assms by (simp_all add: publication_def frame_fits_def publish_payload_def register_payload_def
      hello_payload_def str_ok_def kMaxStringBytes_def limit_defs)

lemma handle_register_accepts:
  assumes "str_ok (sid_value worker)" "om_find (cd_activeBoot c) worker \<noteq> Some boot"
    "\<forall>m. om_find (cd_maxBoot c) worker = Some m \<longrightarrow> m \<le> boot" "r_epoch (cd_registry c) \<le> epoch"
  shows "\<exists>mb ab. handle_register (register_payload worker boot epoch) cn c =
    (cn\<lparr>cn_worker := worker, cn_boot := boot, cn_registered := True\<rparr>,
     c\<lparr>cd_maxBoot := mb, cd_activeBoot := ab\<rparr>, [])"
  by (rule exI [of _ "if om_find (cd_maxBoot c) worker = Some boot then cd_maxBoot c
        else om_insert worker boot (cd_maxBoot c)"], rule exI [of _ "om_insert worker boot (cd_activeBoot c)"])
    (use assms(2-4) in \<open>auto simp: handle_register_unfold [OF parse_register_payload [OF assms(1)]] not_less\<close>)

lemma publish_shape: "\<exists>c'. handle_publish now p cn c = (cn, c', [])"
  by (cases rule: publish_cases [of now p cn c]) simp_all

lemma recvFrame_reply:
  assumes "feeds chunks (wk_stream w) = ([f], st)" "stream_ok st" "[] \<notin> set chunks"
  shows "\<exists>w'. recvFrame (map Inr chunks) w = Some (Inr f, w')"
  using assms
proof (induction chunks arbitrary: w)
  case (Cons x xs)
  obtain fs1 fs2 st1 where r: "feed x (wk_stream w) = (True, fs1, st1)" "feeds xs st1 = (fs2, st)" "[f] = fs1 @ fs2"
    using feeds_Cons_ok Cons.prems(1,2) by blast
  show ?case
  proof (cases fs1)
    case Nil
    with r Cons.prems show ?thesis
      using Cons.IH [of "w\<lparr>wk_stream := st1\<rparr>"] by auto
  next
    case (Cons g gs)
    with r Cons.prems(3) show ?thesis by auto
  qed
qed simp

lemma read_answer_back:
  assumes "RouteOutcome_canonical (rd_outcome d)" "str_ok (rd_outcomeReason d)" "str_ok (selected_key d)"
  shows "\<exists>d'. read_answer src dst \<lparr>fr_type = ROUTE_RESULT, fr_payload = encodeDecision d\<rparr> = Inr d' \<and>
    rd_outcome d' = rd_outcome d \<and> rd_outcomeReason d' = rd_outcomeReason d \<and>
    rd_authoritative d' = rd_authoritative d \<and> rd_source d' = src \<and> rd_destination d' = dst \<and>
    (rd_selected d' = None \<longleftrightarrow> rd_selected d = None)"
proof -
  have "selected_key d = [] \<longleftrightarrow> rd_selected d = None"
    by (simp add: selected_key_def canonicalKey_def split: option.split)
  then show ?thesis
    using assms by (simp add: read_answer_def encodeDecision_def Let_def default_RouteDecision_def)
qed

section \<open>Properties\<close>


text \<open>The sample: the pair topology, sent in two chunks to a coordinator that has just accepted.\<close>

definition sample_accepted :: System where
  "sample_accepted = accept_connection 7 sample_start"

definition sample_bytes :: bytes where
  "sample_bytes = concat (map encodeFrame (publication (MkStringId ''w1'') 3 1 (snapshot pair_registry)))"



lemma pair_reply:
  "length (rd_outcomeReason (sample_answer pair_registry)) \<le> 1000 \<and>
   length (selected_key (sample_answer pair_registry)) \<le> 1000 \<and>
   RouteOutcome_canonical (rd_outcome (sample_answer pair_registry)) \<and>
   length (encodePolicyLite default_RoutePolicy) \<le> 1000 \<and>
   rd_outcome (sample_answer pair_registry) = RouteOutcome.ROUTE_ALLOWED \<and>
   rd_selected (sample_answer pair_registry) \<noteq> None"
  by code_simp


end
