(* ===== verification/Fabric_Lifecycle.thy ===== *)
theory Fabric_Lifecycle
  imports Fabric_Worker
begin

text \<open>
  Stopping the coordinator (\<open>Coordinator::stop\<close>): the accept loop ends, every live socket is
  closed, and each connection thread serves the frames it has in hand and ends. The result is
  reached by ordinary events of the running coordinator, so all its invariants hold there.
\<close>

lemma sys_reaches_trans: "sys_reaches b c \<Longrightarrow> sys_reaches a b \<Longrightarrow> sys_reaches a c"
  by (induction rule: sys_reaches.induct) (auto intro: sys_reaches.intros)

lemma sys_reaches_event: "sys_reaches sys (handle_event ev sys)"
  by (intro sys_reaches.intros)

lemma serve_frame_keeps:
  "cd_liveSocks (sy_coord (fst (serve_frame now s sys))) = cd_liveSocks (sy_coord sys)"
  "cd_running (sy_coord (fst (serve_frame now s sys))) = cd_running (sy_coord sys)"
  by (auto simp: serve_frame_def split: option.split list.split prod.split dest: frames.handled(4,5))

lemma serve_all_keeps:
  "cd_liveSocks (sy_coord (serve_all n now s sys)) = cd_liveSocks (sy_coord sys)"
  "cd_running (sy_coord (serve_all n now s sys)) = cd_running (sy_coord sys)"
  "sys_reaches sys (serve_all n now s sys)"
proof (induction n arbitrary: sys)
  case (Suc n)
  { case 1 show ?case using Suc(1) by (simp add: serve_frame_keeps) }
  { case 2 show ?case using Suc(2) by (simp add: serve_frame_keeps) }
  { case 3
    have "sys_reaches sys (fst (serve_frame now s sys))"
      using sys_reaches_event [of sys "Serve s now"] by (simp add: handle_event_def)
    then show ?case
      using Suc(3) sys_reaches_trans by (simp, blast) }
qed (simp_all add: sys_reaches.intros)

lemma drain_reached: "sys_reaches sys (drain_connection now s sys)"
proof -
  have "sys_reaches (serve_all n now s sys) (receive_chunk now s [] (serve_all n now s sys))" for n
    using sys_reaches_event [of _ "Receive s [] now"] by (simp add: handle_event_def)
  then show ?thesis
    using serve_all_keeps(3) sys_reaches_trans unfolding drain_connection_def by blast
qed

text \<open>Draining one connection ends exactly this connection.\<close>

lemma drain_ends:
  assumes "om_find (sy_conns sys) s = Some cn"
  shows "cd_liveSocks (sy_coord (drain_connection now s sys)) = removeAll s (cd_liveSocks (sy_coord sys))"
    "cd_running (sy_coord (drain_connection now s sys)) = cd_running (sy_coord sys)"
proof -
  let ?sys = "serve_all (length (cn_frames cn)) now s sys"
  obtain cn' c' where h: "handle_frames now (cn_frames cn) cn (sy_coord sys) = (cn', c')"
    by fastforce
  obtain cn'' where "om_find (sy_conns ?sys) s = Some cn''" "cn_frames cn'' = []"
    using serve_all_handles [OF assms refl h] by blast
  then have "drain_connection now s sys = close_connection now s cn'' ?sys"
    using assms by (simp add: drain_connection_def pending_def receive_chunk_def)
  moreover have "cd_running (end_connection now s cn'' c) = cd_running c" for c
    by (simp add: end_connection_def Let_def)
  ultimately show "cd_liveSocks (sy_coord (drain_connection now s sys)) = removeAll s (cd_liveSocks (sy_coord sys))"
    "cd_running (sy_coord (drain_connection now s sys)) = cd_running (sy_coord sys)"
    by (simp_all add: close_connection_def end_connection_fields serve_all_keeps)
qed

lemma drain_all:
  assumes "sys_inv sys" "distinct xs" "set xs \<subseteq> set (cd_liveSocks (sy_coord sys))"
  shows "cd_liveSocks (sy_coord (fold (drain_connection now) xs sys)) =
      filter (\<lambda>s. s \<notin> set xs) (cd_liveSocks (sy_coord sys)) \<and>
    cd_running (sy_coord (fold (drain_connection now) xs sys)) = cd_running (sy_coord sys) \<and>
    sys_reaches sys (fold (drain_connection now) xs sys)"
  using assms
proof (induction xs arbitrary: sys)
  case (Cons s xs)
  then have "om_find (sy_conns sys) s \<noteq> None"
    by (simp add: sys_inv_def)
  then obtain cn where "om_find (sy_conns sys) s = Some cn"
    by blast
  note d = drain_ends [OF this, of now] drain_reached [of sys now s]
  have "sys_inv (drain_connection now s sys)"
    using d(3) Cons.prems(1) sys_reaches_inv by blast
  moreover have "set xs \<subseteq> set (cd_liveSocks (sy_coord (drain_connection now s sys)))"
    using Cons.prems(2,3) by (auto simp: d(1))
  ultimately have "cd_liveSocks (sy_coord (fold (drain_connection now) (s # xs) sys)) =
      filter (\<lambda>x. x \<notin> set xs) (removeAll s (cd_liveSocks (sy_coord sys))) \<and>
    cd_running (sy_coord (fold (drain_connection now) (s # xs) sys)) = cd_running (sy_coord sys) \<and>
    sys_reaches sys (fold (drain_connection now) (s # xs) sys)"
    using Cons.IH Cons.prems(2) d(1,2) sys_reaches_trans [OF _ d(3)] by simp
  moreover have "filter (\<lambda>x. x \<notin> set xs) (removeAll s l) = filter (\<lambda>x. x \<notin> set (s # xs)) l" for l
    by (induction l) auto
  ultimately show ?case by simp
qed (simp add: sys_reaches.intros)

section \<open>Property\<close>



end
