(* ===== verification/Fabric_Concurrency.thy ===== *)
theory Fabric_Concurrency
  imports Fabric_Authority
begin

text \<open>
  Threads on one registry. Every method of \<open>FabricRegistry\<close> that changes the state in one critical
  section is one step. Two methods are not atomic: \<open>route\<close> copies the snapshot under the shared lock,
  draws its identifiers under the exclusive lock, computes with no lock held, and logs the decision
  under the exclusive lock; \<open>scanBackend\<close> copies the backend, asks it with no lock held, and applies
  the scan. A schedule is a list of such sections, chosen freely among the threads.

  The theorems say what a caller may rely on: whatever the schedule, the snapshots are those of the
  mutations performed one after the other, a query is answered for a snapshot that was current
  after it was asked, and a decision revoked while the query ran is not reported as authoritative.
\<close>

section \<open>Sections of the threads\<close>

type_synonym tid = nat

type_synonym seen = "FabricTopology \<times> Measurement list"

type_synonym drawn = "RouteDecisionId \<times> ObservationId"

text \<open>Where a thread stands in its call of \<open>route\<close> or \<open>scanBackend\<close>, with its local variables.\<close>

datatype Task =
    Idle
  | Seen DeviceId DeviceId RoutePolicy seen
  | Numbered DeviceId DeviceId RoutePolicy seen drawn
  | Decided DeviceId DeviceId RoutePolicy "RouteDecision Result"
  | Answered DeviceId DeviceId RoutePolicy "RouteDecision Result"
  | Scanning Scan
  | Scanned "unit Result"

record Pool =
  pl_registry :: FabricRegistry
  pl_tasks :: "tid \<Rightarrow> Task"

definition Pool_new :: "FabricRegistry \<Rightarrow> Pool" where
  "Pool_new r = \<lparr>pl_registry = r, pl_tasks = (\<lambda>t. Idle)\<rparr>"

datatype Section =
    Mutate RegOp u64
  | Query tid DeviceId DeviceId RoutePolicy | Draw tid | Compute tid u64 | Log tid
  | ScanRead tid | ScanApply tid u64

text \<open>The operations that hold the lock once.\<close>

definition one_lock :: "RegOp \<Rightarrow> bool" where
  "one_lock op = (case op of Route src dst policy \<Rightarrow> False | ScanBackend \<Rightarrow> False | _ \<Rightarrow> True)"

definition set_task :: "tid \<Rightarrow> Task \<Rightarrow> Pool \<Rightarrow> Pool" where
  "set_task t k p = p\<lparr>pl_tasks := (pl_tasks p)(t := k)\<rparr>"

text \<open>\<open>scanBackend\<close> up to the call of \<open>applyBackendScan\<close>.\<close>

definition scan_read :: "FabricRegistry \<Rightarrow> Task" where
  "scan_read r =
     (case r_backend r of
        None \<Rightarrow> Scanned (Inl (err ErrorCode.BACKEND_UNAVAILABLE ''no backend bound''))
      | Some b \<Rightarrow>
          if bc_provenance (bk_capabilities b) = Provenance.UNSUPPORTED then Scanned (Inr ())
          else (case bk_scan b of Inl e \<Rightarrow> Scanned (Inl e) | Inr sc \<Rightarrow> Scanning sc))"

text \<open>One section; a thread that does not stand before it does nothing.\<close>

definition run_section :: "Section \<Rightarrow> Pool \<Rightarrow> Pool" where
  "run_section s p = (let r = pl_registry p in case s of
     Mutate op now \<Rightarrow> if one_lock op then p\<lparr>pl_registry := apply_op op now r\<rparr> else p
   | Query t src dst policy \<Rightarrow>
       (case pl_tasks p t of Idle \<Rightarrow> set_task t (Seen src dst policy (route_read r)) p | _ \<Rightarrow> p)
   | Draw t \<Rightarrow>
       (case pl_tasks p t of
          Seen src dst policy seen \<Rightarrow>
            set_task t (Numbered src dst policy seen (fst (route_draw r)))
              (p\<lparr>pl_registry := snd (route_draw r)\<rparr>)
        | _ \<Rightarrow> p)
   | Compute t now \<Rightarrow>
       (case pl_tasks p t of
          Numbered src dst policy seen ids \<Rightarrow>
            set_task t (Decided src dst policy (route_compute seen ids (r_epoch r) now src dst policy)) p
        | _ \<Rightarrow> p)
   | Log t \<Rightarrow>
       (case pl_tasks p t of
          Decided src dst policy res \<Rightarrow> set_task t (Answered src dst policy res) (p\<lparr>pl_registry := route_log res r\<rparr>)
        | _ \<Rightarrow> p)
   | ScanRead t \<Rightarrow> (case pl_tasks p t of Idle \<Rightarrow> set_task t (scan_read r) p | _ \<Rightarrow> p)
   | ScanApply t now \<Rightarrow>
       (case pl_tasks p t of
          Scanning sc \<Rightarrow>
            (case applyBackendScan sc now r of (res, r') \<Rightarrow>
               set_task t (Scanned (map_sum id (\<lambda>_. ()) res)) (p\<lparr>pl_registry := r'\<rparr>))
        | _ \<Rightarrow> p))"

definition run_sections :: "Section list \<Rightarrow> Pool \<Rightarrow> Pool" where
  "run_sections ss p = fold run_section ss p"

lemma run_sections_simps [simp]:
  "run_sections [] p = p"
  "run_sections (s # ss) p = run_sections ss (run_section s p)"
  "run_sections (ss @ ss') p = run_sections ss' (run_sections ss p)"
  by (simp_all add: run_sections_def)

text \<open>A call that is not interrupted is the sequential method.\<close>

lemma query_alone:
  assumes "pl_tasks p t = Idle"
  shows "run_sections [Query t src dst policy, Draw t, Compute t now, Log t] p =
     set_task t (Answered src dst policy (fst (route src dst policy now (pl_registry p))))
       (p\<lparr>pl_registry := snd (route src dst policy now (pl_registry p))\<rparr>)"
  using assms
  by (simp add: run_section_def Let_def set_task_def route_def split_beta route_draw_def)

lemma scan_alone:
  assumes "pl_tasks p t = Idle"
  shows "run_sections [ScanRead t, ScanApply t now] p =
     set_task t (Scanned (fst (scanBackend now (pl_registry p))))
       (p\<lparr>pl_registry := snd (scanBackend now (pl_registry p))\<rparr>)"
  using assms
  by (auto simp: run_section_def Let_def set_task_def scanBackend_def scan_read_def
      split: option.splits sum.splits prod.splits)

section \<open>The sequential history of a schedule\<close>

text \<open>What a section does to the registry apart from the answers of queries, as an operation.\<close>

definition section_ops :: "Section \<Rightarrow> Pool \<Rightarrow> (RegOp \<times> u64) list" where
  "section_ops s p = (case s of
     Mutate op now \<Rightarrow> if one_lock op then [(op, now)] else []
   | ScanApply t now \<Rightarrow>
       (case pl_tasks p t of Scanning sc \<Rightarrow> [(ApplyBulk (bulk_of_scan sc), now)] | _ \<Rightarrow> [])
   | _ \<Rightarrow> [])"

fun schedule_ops :: "Section list \<Rightarrow> Pool \<Rightarrow> (RegOp \<times> u64) list" where
  "schedule_ops [] p = []"
| "schedule_ops (s # ss) p = section_ops s p @ schedule_ops ss (run_section s p)"

text \<open>The registry without the decision log and the two counters that only queries advance.\<close>

definition without_answers :: "FabricRegistry \<Rightarrow> FabricRegistry" where
  "without_answers r = r\<lparr>r_nextDecisionId := 0, r_nextObservationId := 0, r_decisionLog := []\<rparr>"

lemma without_answers_simps [simp]:
  "r_current (without_answers r) = r_current r" "r_epoch (without_answers r) = r_epoch r"
  "r_measurements (without_answers r) = r_measurements r"
  "without_answers (without_answers r) = without_answers r"
  "without_answers (snd (route_draw r)) = without_answers r"
  "without_answers (route_log res r) = without_answers r"
  by (simp_all add: without_answers_def route_draw_def route_log_def split: sum.split)

lemma transact_answers:
  "snd (transact_with pfx edit now (without_answers r)) = without_answers (snd (transact_with pfx edit now r))"
  by (simp add: transact_with_def commit_def without_answers_def Let_def split: sum.splits)

text \<open>No operation looks at the answers.\<close>

lemma apply_op_answers:
  assumes "one_lock op"
  shows "without_answers (apply_op op now (without_answers r)) = without_answers (apply_op op now r)"
proof (cases "op_edit op")
  case None
  then show ?thesis
    using assms
    by (cases op) (auto simp: one_lock_def apply_op_def publishMeasurement_def recordDecision_def
        setEpoch_def bindBackend_def expireDynamicEvidence_def without_answers_def Let_def
        transact_with_def commit_def split: option.splits sum.splits)
next
  case (Some pe)
  then show ?thesis
    by (cases pe) (simp add: apply_op_edit transact_answers)
qed

lemma apply_op_cong:
  assumes "one_lock op" and "without_answers r = without_answers r'"
  shows "without_answers (apply_op op now r) = without_answers (apply_op op now r')"
  using assms apply_op_answers by metis

lemma applyBackendScan_op: "snd (applyBackendScan sc now r) = apply_op (ApplyBulk (bulk_of_scan sc)) now r"
  by (simp add: applyBackendScan_def apply_op_def)

text \<open>One section is its operation, up to the answers.\<close>

lemma run_section_op:
  "without_answers (pl_registry (run_section s p)) =
   without_answers (reg_run (section_ops s p) (pl_registry p))"
  by (cases s) (auto simp: run_section_def section_ops_def set_task_def Let_def
      applyBackendScan_op [symmetric] split: Task.splits prod.splits)

lemma section_ops_one_lock: "list_all (one_lock \<circ> fst) (section_ops s p)"
  by (auto simp: section_ops_def one_lock_def split: Section.splits Task.splits)

lemma reg_run_cong:
  assumes "list_all (one_lock \<circ> fst) ops" and "without_answers r = without_answers r'"
  shows "without_answers (reg_run ops r) = without_answers (reg_run ops r')"
  using assms
proof (induction ops arbitrary: r r')
  case (Cons x ops)
  have "without_answers (apply_op (fst x) (snd x) r) = without_answers (apply_op (fst x) (snd x) r')"
    by (rule apply_op_cong [OF _ Cons.prems(2)]) (use Cons.prems(1) in simp)
  from Cons.IH [OF _ this] show ?case
    using Cons.prems(1) by simp
qed simp

lemma schedule_refines:
  "without_answers (pl_registry (run_sections ss p)) =
   without_answers (reg_run (schedule_ops ss p) (pl_registry p))"
proof (induction ss arbitrary: p)
  case (Cons s ss)
  have ops: "list_all (one_lock \<circ> fst) (schedule_ops ss q)" for q
    by (induction ss arbitrary: q) (simp_all add: section_ops_one_lock)
  show ?case
    using Cons.IH [of "run_section s p"] reg_run_cong [OF ops run_section_op]
    by (simp add: reg_run_append)
qed simp

lemma schedule_current:
  "r_current (pl_registry (run_sections ss p)) = r_current (reg_run (schedule_ops ss p) (pl_registry p))"
  using schedule_refines without_answers_simps(1) by metis

section \<open>The invariant of the registry\<close>

lemma reg_inv_answers:
  "reg_inv r \<Longrightarrow> reg_inv (snd (route_draw r))" "reg_inv r \<Longrightarrow> reg_inv (route_log res r)"
  by (simp_all add: reg_inv_def route_draw_def route_log_def length_log_decision split: sum.split)

lemma reg_inv_scanned: "applyBackendScan sc now r = (res, r') \<Longrightarrow> reg_inv r \<Longrightarrow> reg_inv r'"
  unfolding applyBackendScan_def using reg_inv_applyBulk by (metis snd_conv)

lemma run_section_inv: "reg_inv (pl_registry p) \<Longrightarrow> reg_inv (pl_registry (run_section s p))"
  by (cases s) (auto simp: run_section_def set_task_def Let_def reg_inv_answers reg_inv_apply_op
      split: Task.splits prod.splits dest: reg_inv_scanned)

lemma run_sections_inv: "reg_inv (pl_registry p) \<Longrightarrow> reg_inv (pl_registry (run_sections ss p))"
  by (induction ss arbitrary: p) (simp_all add: run_section_inv)

section \<open>Where an answer comes from\<close>

text \<open>The registry before the section at a position of the schedule.\<close>

definition registry_at :: "Section list \<Rightarrow> Pool \<Rightarrow> nat \<Rightarrow> FabricRegistry" where
  "registry_at ss p k = pl_registry (run_sections (take k ss) p)"

lemma registry_at_snoc:
  "k < length ss \<Longrightarrow> registry_at (ss @ [s]) p k = registry_at ss p k"
  "registry_at (ss @ [s]) p (length ss) = pl_registry (run_sections ss p)"
  by (simp_all add: registry_at_def)

text \<open>The position at which a thread asked, drew its identifiers and computed.\<close>

definition asked_at ::
    "Section list \<Rightarrow> Pool \<Rightarrow> tid \<Rightarrow> nat \<Rightarrow> DeviceId \<Rightarrow> DeviceId \<Rightarrow> RoutePolicy \<Rightarrow> seen \<Rightarrow> bool" where
  "asked_at ss p t i src dst policy seen \<longleftrightarrow>
     i < length ss \<and> ss ! i = Query t src dst policy \<and> seen = route_read (registry_at ss p i)"

definition drew_at :: "Section list \<Rightarrow> Pool \<Rightarrow> tid \<Rightarrow> nat \<Rightarrow> drawn \<Rightarrow> bool" where
  "drew_at ss p t j ids \<longleftrightarrow>
     j < length ss \<and> ss ! j = Draw t \<and> ids = fst (route_draw (registry_at ss p j))"

definition computed_at :: "Section list \<Rightarrow> Pool \<Rightarrow> tid \<Rightarrow> nat \<Rightarrow> u64 \<Rightarrow> CoordinatorEpoch \<Rightarrow> bool" where
  "computed_at ss p t k now epoch \<longleftrightarrow>
     k < length ss \<and> ss ! k = Compute t now \<and> epoch = r_epoch (registry_at ss p k)"

lemmas at_defs = asked_at_def drew_at_def computed_at_def

lemma at_snoc:
  "asked_at ss p t i src dst policy seen \<Longrightarrow> asked_at (ss @ [s]) p t i src dst policy seen"
  "drew_at ss p t j ids \<Longrightarrow> drew_at (ss @ [s]) p t j ids"
  "computed_at ss p t k now epoch \<Longrightarrow> computed_at (ss @ [s]) p t k now epoch"
  by (auto simp: at_defs registry_at_snoc nth_append)

lemma at_last:
  "asked_at (ss @ [Query t src dst policy]) p t (length ss) src dst policy (route_read (pl_registry (run_sections ss p)))"
  "drew_at (ss @ [Draw t]) p t (length ss) (fst (route_draw (pl_registry (run_sections ss p))))"
  "computed_at (ss @ [Compute t now]) p t (length ss) now (r_epoch (pl_registry (run_sections ss p)))"
  by (simp_all add: at_defs registry_at_snoc)

lemma at_length:
  "asked_at ss p t i src dst policy seen \<Longrightarrow> i < length ss" "drew_at ss p t j ids \<Longrightarrow> j < length ss"
  by (simp_all add: at_defs)

inductive task_origin :: "Section list \<Rightarrow> Pool \<Rightarrow> tid \<Rightarrow> Task \<Rightarrow> bool" for ss p t where
  idle: "task_origin ss p t Idle"
| seen: "asked_at ss p t i src dst policy seen \<Longrightarrow> task_origin ss p t (Seen src dst policy seen)"
| numbered: "asked_at ss p t i src dst policy seen \<Longrightarrow> drew_at ss p t j ids \<Longrightarrow> i < j \<Longrightarrow>
    task_origin ss p t (Numbered src dst policy seen ids)"
| decided: "asked_at ss p t i src dst policy seen \<Longrightarrow> drew_at ss p t j ids \<Longrightarrow> computed_at ss p t k now epoch \<Longrightarrow>
    i < j \<Longrightarrow> j < k \<Longrightarrow>
    task_origin ss p t (Decided src dst policy (route_compute seen ids epoch now src dst policy))"
| answered: "task_origin ss p t (Decided src dst policy res) \<Longrightarrow> task_origin ss p t (Answered src dst policy res)"
| scanning: "task_origin ss p t (Scanning sc)"
| scanned: "task_origin ss p t (Scanned res)"

inductive_cases task_originE:
  "task_origin ss p t (Seen src dst policy seen)" "task_origin ss p t (Numbered src dst policy seen ids)"
  "task_origin ss p t (Decided src dst policy res)" "task_origin ss p t (Answered src dst policy res)"

lemma task_origin_snoc: "task_origin ss p t task \<Longrightarrow> task_origin (ss @ [s]) p t task"
  by (induction rule: task_origin.induct) (auto intro: task_origin.intros at_snoc)

lemma task_origin_step:
  assumes "task_origin ss p t (pl_tasks (run_sections ss p) t)"
  shows "task_origin (ss @ [s]) p t (pl_tasks (run_section s (run_sections ss p)) t)"
proof (cases "pl_tasks (run_section s (run_sections ss p)) t = pl_tasks (run_sections ss p) t")
  case True
  then show ?thesis using task_origin_snoc [OF assms] by simp
next
  case changed: False
  note run = run_section_def set_task_def Let_def
  show ?thesis
  proof (cases s)
    case (Query t' src dst policy)
    then show ?thesis
      using changed task_origin.seen [OF at_last(1)] by (auto simp: run split: Task.splits)
  next
    case (Draw t')
    then show ?thesis
      using changed assms by (auto simp: run split: Task.splits elim!: task_originE
          intro: task_origin.numbered [OF at_snoc(1) at_last(2) at_length(1)])
  next
    case (Compute t' now)
    then show ?thesis
      using changed assms by (auto simp: run split: Task.splits elim!: task_originE
          intro: task_origin.decided [OF at_snoc(1) at_snoc(2) at_last(3) _ at_length(2)])
  next
    case (Log t')
    then show ?thesis
      using changed task_origin_snoc [OF assms]
      by (auto simp: run split: Task.splits intro: task_origin.answered)
  qed (use changed in \<open>auto simp: run scan_read_def
      split: Task.splits if_splits option.splits sum.splits prod.splits intro: task_origin.intros\<close>)
qed

lemma task_originated: "task_origin ss (Pool_new r) t (pl_tasks (run_sections ss (Pool_new r)) t)"
proof (induction ss rule: rev_induct)
  case Nil
  show ?case by (simp add: Pool_new_def task_origin.idle)
next
  case (snoc s ss)
  then show ?case using task_origin_step by simp
qed

section \<open>The numbers of the decisions\<close>

lemma computeRoute_id:
  assumes "computeRoute t src dst policy ms i g snap now epoch = Inr d"
  shows "rd_id d = i"
proof -
  have paths: "rd_id (route_over_paths t src dst policy ms e) = rd_id e" for e
    by (simp add: route_over_paths_def select_route_def refuse_unreachable_def refuse_def Let_def
        split: list.splits Reachability.splits)
  have refuse: "rd_id (refuse e out why) = rd_id e" for e out why
    by (simp add: refuse_def)
  have "rd_id (initial_decision t src dst policy i g snap now epoch) = i"
    by (simp add: initial_decision_def)
  then show ?thesis
    using assms unfolding computeRoute_def Let_def
    by (cases "lookupDevice t src"; cases "lookupDevice t dst"; cases "commonPartition t src dst")
      (auto simp: refuse paths)
qed

lemma route_compute_decision:
  obtains d where "route_compute seen ids epoch now src dst policy = Inr d" "rd_id d = fst ids"
proof -
  obtain d where "computeRoute (fst seen) src dst policy (Some (snd seen)) (fst ids) (MkGen 0)
      (MkStringId (''snap'' @ u64_to_string (t_id (fst seen)))) now epoch = Inr d"
    using computeRoute_total by blast
  then show ?thesis
    using that computeRoute_id by (simp add: route_compute_def)
qed

definition task_number :: "Task \<Rightarrow> RouteDecisionId option" where
  "task_number task = (case task of
     Numbered src dst policy seen ids \<Rightarrow> Some (fst ids)
   | Decided src dst policy (Inr d) \<Rightarrow> Some (rd_id d)
   | Answered src dst policy (Inr d) \<Rightarrow> Some (rd_id d)
   | _ \<Rightarrow> None)"

text \<open>After fewer than \<open>2 ^ 64\<close> sections the numbers drawn lie below the counter and differ.\<close>

definition numbers_fresh :: "u64 \<Rightarrow> nat \<Rightarrow> Pool \<Rightarrow> bool" where
  "numbers_fresh base n p \<longleftrightarrow> r_nextDecisionId (pl_registry p) = base + of_nat n \<and>
     (\<forall>t x. task_number (pl_tasks p t) = Some x \<longrightarrow> (\<exists>k < n. x = MkId (base + of_nat k))) \<and>
     (\<forall>t t' x. task_number (pl_tasks p t) = Some x \<longrightarrow> task_number (pl_tasks p t') = Some x \<longrightarrow> t = t')"

lemma one_lock_counter: "one_lock op \<Longrightarrow> r_nextDecisionId (apply_op op now r) = r_nextDecisionId r"
proof (cases "op_edit op")
  case None
  assume "one_lock op"
  with None show ?thesis
    by (cases op) (auto simp: one_lock_def apply_op_def publishMeasurement_def recordDecision_def
        setEpoch_def bindBackend_def expireDynamicEvidence_def Let_def
        transact_with_def commit_def split: option.splits sum.splits)
next
  case (Some pe)
  then show ?thesis
    by (cases pe) (simp add: apply_op_edit transact_with_def commit_def Let_def split: sum.splits)
qed

lemma task_number_decided [simp]:
  "task_number (Decided src dst policy (route_compute seen ids epoch now src dst policy)) = Some (fst ids)"
  by (rule route_compute_decision [of seen ids epoch now src dst policy]) (simp add: task_number_def)

lemma task_number_simps [simp]:
  "task_number Idle = None" "task_number (Seen src dst policy seen) = None"
  "task_number (Numbered src dst policy seen ids) = Some (fst ids)"
  "task_number (Scanning sc) = None" "task_number (Scanned u) = None"
  "task_number (scan_read r) = None"
  by (simp_all add: task_number_def scan_read_def split: option.splits sum.splits)

lemma task_number_answered: "task_number (Answered src dst policy res) = task_number (Decided src dst policy res)"
  by (simp add: task_number_def)

text \<open>Only \<open>Draw\<close> gives out a number and advances the counter.\<close>

lemma run_section_numbers:
  obtains (kept) "r_nextDecisionId (pl_registry (run_section s p)) = r_nextDecisionId (pl_registry p)"
      "\<And>t. task_number (pl_tasks (run_section s p) t) = task_number (pl_tasks p t)"
  | (drawn) t where "r_nextDecisionId (pl_registry (run_section s p)) = r_nextDecisionId (pl_registry p) + 1"
      "\<And>t'. task_number (pl_tasks (run_section s p) t') =
         (if t' = t then Some (MkId (r_nextDecisionId (pl_registry p))) else task_number (pl_tasks p t'))"
proof (cases s)
  case (Mutate op now)
  then show ?thesis
    using kept by (auto simp: run_section_def Let_def one_lock_counter)
next
  case (Draw t)
  then show ?thesis
    using kept drawn [of t]
    by (cases "pl_tasks p t") (auto simp: run_section_def Let_def set_task_def route_draw_def)
next
  case (Compute t now)
  then show ?thesis
    by (intro kept) (auto simp: run_section_def Let_def set_task_def split: Task.splits)
next
  case (Log t)
  then show ?thesis
    by (intro kept) (auto simp: run_section_def Let_def set_task_def task_number_answered route_log_def
        split: Task.splits sum.splits)
next
  case (ScanApply t now)
  have "r_nextDecisionId r' = r_nextDecisionId r" if "applyBackendScan sc now r = (res, r')" for sc res r r'
    using one_lock_counter [of "ApplyBulk (bulk_of_scan sc)" now r] that
    by (simp add: applyBackendScan_op [symmetric] one_lock_def)
  with ScanApply show ?thesis
    by (intro kept) (auto simp: run_section_def Let_def set_task_def split: Task.splits prod.splits)
qed (intro kept; auto simp: run_section_def Let_def set_task_def split: Task.splits)+

lemma of_nat_u64_inj: "m < 2 ^ 64 \<Longrightarrow> n < 2 ^ 64 \<Longrightarrow> (of_nat m :: u64) = of_nat n \<longleftrightarrow> m = n"
  by (simp add: word_of_nat_eq_iff take_bit_nat_eq_self)

lemma numbers_fresh_step:
  assumes "numbers_fresh base n p" and "n < 2 ^ 64"
  obtains n' where "numbers_fresh base n' (run_section s p)" "n' \<le> Suc n"
proof (cases rule: run_section_numbers [of s p])
  case kept
  then show ?thesis
    using that [of n] assms(1) by (simp add: numbers_fresh_def)
next
  case (drawn t)
  have new: "task_number (pl_tasks p t') \<noteq> Some (MkId (base + of_nat n))" for t'
  proof
    assume "task_number (pl_tasks p t') = Some (MkId (base + of_nat n))"
    then obtain k where "k < n" "MkId (base + of_nat n) = (MkId (base + of_nat k) :: RouteDecisionId)"
      using assms(1) unfolding numbers_fresh_def by blast
    then show False
      using of_nat_u64_inj [of k n] assms(2) by simp
  qed
  have counter: "r_nextDecisionId (pl_registry p) = base + of_nat n"
    using assms(1) by (simp add: numbers_fresh_def)
  have "\<exists>k < Suc n. x = MkId (base + of_nat k)"
    if num: "task_number (pl_tasks (run_section s p) t') = Some x" for t' x
  proof (cases "t' = t")
    case True
    then show ?thesis
      using num by (intro exI [of _ n]) (simp add: drawn(2) counter)
  next
    case False
    then have "task_number (pl_tasks p t') = Some x"
      using num by (simp add: drawn(2))
    then obtain k where "k < n" "x = MkId (base + of_nat k)"
      using assms(1) unfolding numbers_fresh_def by blast
    then show ?thesis
      by (intro exI [of _ k]) simp
  qed
  moreover have "t' = t''"
    if "task_number (pl_tasks (run_section s p) t') = Some x" "task_number (pl_tasks (run_section s p) t'') = Some x"
    for t' t'' x
    using that assms(1) new unfolding drawn(2) counter numbers_fresh_def by (auto split: if_splits)
  ultimately have "numbers_fresh base (Suc n) (run_section s p)"
    unfolding numbers_fresh_def by (auto simp: drawn(1) counter)
  then show ?thesis
    using that by blast
qed

lemma numbers_fresh_run:
  assumes "length ss < 2 ^ 64"
  shows "\<exists>n \<le> length ss. numbers_fresh (r_nextDecisionId r) n (run_sections ss (Pool_new r))"
  using assms
proof (induction ss rule: rev_induct)
  case Nil
  show ?case by (simp add: numbers_fresh_def Pool_new_def)
next
  case (snoc s ss)
  then obtain n where n: "n \<le> length ss" "numbers_fresh (r_nextDecisionId r) n (run_sections ss (Pool_new r))"
    by auto
  with snoc.prems obtain n' where
    "numbers_fresh (r_nextDecisionId r) n' (run_section s (run_sections ss (Pool_new r)))" "n' \<le> Suc n"
    using numbers_fresh_step [OF n(2)] by (auto elim: order_le_less_trans)
  then show ?case
    using n(1) by (intro exI [of _ n']) simp
qed

section \<open>Revocation while a query runs\<close>

text \<open>The generation of a switch does not go back between two snapshots.\<close>

definition behind :: "SwitchId \<Rightarrow> FabricTopology \<Rightarrow> FabricTopology \<Rightarrow> bool" where
  "behind i old new \<longleftrightarrow>
     (\<forall>s. lookupSwitch old i = Some s \<longrightarrow> (\<exists>s'. lookupSwitch new i = Some s' \<and> sw_gen s \<le> sw_gen s'))"

lemma behind_refl [simp]: "behind i t t"
  by (simp add: behind_def)

lemma behind_trans: "behind i a b \<Longrightarrow> behind i b c \<Longrightarrow> behind i a c"
  unfolding behind_def by (meson order_trans)

lemma behind_op:
  assumes "topo_wf (r_current r)" and "op \<noteq> RemoveSwitch i"
  shows "behind i (r_current r) (r_current (apply_op op now r))"
  unfolding behind_def
proof (intro allI impI)
  fix s assume s: "lookupSwitch (r_current r) i = Some s"
  then obtain s' where "lookupSwitch (r_current (apply_op op now r)) i = Some s'"
    using apply_op_keeps_switch [OF assms(2), of r now] by (auto simp: om_count_def lookupSwitch_def)
  moreover from this have "sw_gen s \<le> sw_gen s'"
    using apply_op_gens [OF assms(1), of op now] s
    by (simp add: gens_monotone_def gens_le_def lookupSwitch_def)
  ultimately show "\<exists>s'. lookupSwitch (r_current (apply_op op now r)) i = Some s' \<and> sw_gen s \<le> sw_gen s'"
    by blast
qed

lemma schedule_ops_removes:
  "(RemoveSwitch i, now) \<in> set (schedule_ops ss p) \<Longrightarrow> Mutate (RemoveSwitch i) now \<in> set ss"
  by (induction ss arbitrary: p)
    (auto simp: section_ops_def split: Section.splits Task.splits if_splits)

lemma behind_section:
  assumes "reg_inv (pl_registry p)" and "\<forall>now. s \<noteq> Mutate (RemoveSwitch i) now"
  shows "behind i (r_current (pl_registry p)) (r_current (pl_registry (run_section s p)))"
proof -
  have "r_current (pl_registry (run_section s p)) = r_current (reg_run (section_ops s p) (pl_registry p))"
    using schedule_current [of "[s]" p] by simp
  moreover have "behind i (r_current (pl_registry p)) (r_current (reg_run (section_ops s p) (pl_registry p)))"
    using assms(2) behind_op [OF reg_inv_wf [OF assms(1)]]
    by (auto simp: section_ops_def split: Section.splits Task.splits)
  ultimately show ?thesis by simp
qed

text \<open>What is known of the snapshot a query read stays known of its decision.\<close>

definition decided_from ::
    "(FabricTopology \<Rightarrow> bool) \<Rightarrow> DeviceId \<Rightarrow> DeviceId \<Rightarrow> RoutePolicy \<Rightarrow> RouteDecision Result \<Rightarrow> bool" where
  "decided_from P src dst policy res \<longleftrightarrow>
     (\<exists>seen ids epoch now. P (fst seen) \<and> res = route_compute seen ids epoch now src dst policy)"

lemma decided_from_intro [intro]:
  "P (fst seen) \<Longrightarrow> decided_from P src dst policy (route_compute seen ids epoch now src dst policy)"
  unfolding decided_from_def by blast

lemma decided_from_mono:
  "decided_from P src dst policy res \<Longrightarrow> (\<And>t. P t \<Longrightarrow> Q t) \<Longrightarrow> decided_from Q src dst policy res"
  unfolding decided_from_def by blast

definition task_sees :: "(FabricTopology \<Rightarrow> bool) \<Rightarrow> Task \<Rightarrow> bool" where
  "task_sees P task \<longleftrightarrow> (case task of
     Idle \<Rightarrow> False
   | Seen src dst policy seen \<Rightarrow> P (fst seen)
   | Numbered src dst policy seen ids \<Rightarrow> P (fst seen)
   | Decided src dst policy res \<Rightarrow> decided_from P src dst policy res
   | Answered src dst policy res \<Rightarrow> decided_from P src dst policy res
   | _ \<Rightarrow> True)"

lemma task_sees_mono: "task_sees P task \<Longrightarrow> (\<And>t. P t \<Longrightarrow> Q t) \<Longrightarrow> task_sees Q task"
  by (cases task) (auto simp: task_sees_def intro: decided_from_mono)

lemma run_section_sees:
  assumes "task_sees P (pl_tasks p t)"
  shows "task_sees P (pl_tasks (run_section s p) t)"
proof (cases "pl_tasks (run_section s p) t = pl_tasks p t")
  case changed: False
  note run = run_section_def Let_def set_task_def task_sees_def
  show ?thesis
  proof (cases s)
    case (Compute t' now)
    then show ?thesis
      using changed assms by (cases "pl_tasks p t'") (auto simp: run split: if_splits)
  next
    case (ScanApply t' now)
    then show ?thesis
      using changed assms by (cases "pl_tasks p t'") (auto simp: run split: if_splits prod.splits)
  qed (use changed assms in \<open>auto simp: run split: Task.splits if_splits\<close>)
qed (use assms in simp)

lemma run_sections_sees: "task_sees P (pl_tasks p t) \<Longrightarrow> task_sees P (pl_tasks (run_sections ss p) t)"
  by (induction ss arbitrary: p) (simp_all add: run_section_sees)

text \<open>A running query has read a snapshot that is not ahead of the current one.\<close>

lemma task_sees_behind:
  assumes "reg_inv r" and "\<forall>now. Mutate (RemoveSwitch i) now \<notin> set ss"
    and "pl_tasks (run_sections ss (Pool_new r)) t \<noteq> Idle"
  shows "task_sees (\<lambda>u. behind i u (r_current (pl_registry (run_sections ss (Pool_new r)))))
    (pl_tasks (run_sections ss (Pool_new r)) t)"
  using assms(2,3)
proof (induction ss rule: rev_induct)
  case (snoc s ss)
  let ?p = "run_sections ss (Pool_new r)"
  have "reg_inv (pl_registry ?p)"
    using assms(1) run_sections_inv by (simp add: Pool_new_def)
  then have on: "behind i (r_current (pl_registry ?p)) (r_current (pl_registry (run_section s ?p)))"
    using snoc.prems(1) by (intro behind_section) auto
  show ?case
  proof (cases "pl_tasks ?p t = Idle")
    case True
    then show ?thesis
      using snoc.prems(2) on
      by (cases s) (auto simp: run_section_def Let_def set_task_def task_sees_def scan_read_def route_read_def
          split: Task.splits prod.splits option.splits sum.splits if_splits)
  next
    case False
    then have "task_sees (\<lambda>u. behind i u (r_current (pl_registry ?p))) (pl_tasks ?p t)"
      using snoc by simp
    then show ?thesis
      using run_section_sees task_sees_mono behind_trans [OF _ on] by (metis run_sections_simps)
  qed
qed (simp add: Pool_new_def)

lemma captured_switch:
  assumes "route_compute seen ids epoch now src dst policy = Inr d" and "rd_selected d = Some path"
    and "(i, g) \<in> set (fp_switchGens path)"
  obtains s where "lookupSwitch (fst seen) i = Some s" "sw_gen s = g"
proof -
  obtain e where e: "computeRoute (fst seen) src dst policy (Some (snd seen)) (fst ids) (MkGen 0)
      (MkStringId (''snap'' @ u64_to_string (t_id (fst seen)))) now epoch = Inr e"
    using computeRoute_total by blast
  then have "rd_selected e = Some path"
    using assms(1,2) by (auto simp: route_compute_def)
  with e obtain q where "path = annotate (fst seen) q"
    by (rule computeRoute_selected)
  then have "(i, g) \<in> set (captured_switchGens (fst seen) q)"
    using assms(3) by simp
  then show ?thesis
    using that [OF sym] by (auto simp: captured_switchGens_def split: option.splits)
qed

section \<open>Properties\<close>

text \<open>A query whose switch fails after it has read the snapshot.\<close>

definition overlapped :: "Section list" where
  "overlapped = [Query 0 (MkId 1) (MkId 2) default_RoutePolicy, Mutate (SetSwitchState (MkId 10) EntityState.DOWN) 9,
     Draw 0, Compute 0 9, Log 0]"

lemma overlapped_result:
  "\<exists>d. pl_tasks (run_sections overlapped (Pool_new pair_registry)) 0 =
       Answered (MkId 1) (MkId 2) default_RoutePolicy (Inr d) \<and> rd_authoritative d \<and>
     map_option fp_switchGens (rd_selected d) = Some [(MkId 10, MkGen 1)]"
proof -
  let ?r = "apply_op (SetSwitchState (MkId 10) EntityState.DOWN) 9 pair_registry"
  have "(case route_compute (route_read pair_registry) (fst (route_draw ?r)) (r_epoch (snd (route_draw ?r))) 9
      (MkId 1) (MkId 2) default_RoutePolicy of
      Inl e \<Rightarrow> False
    | Inr d \<Rightarrow> rd_authoritative d \<and> map_option fp_switchGens (rd_selected d) = Some [(MkId 10, MkGen 1)])"
    by code_simp
  then show ?thesis
    by (auto simp: overlapped_def run_section_def Let_def set_task_def Pool_new_def one_lock_def
        split: sum.splits)
qed

text \<open>
  (C17) Threads on one registry: whatever the schedule of their critical sections, the registry apart
  from the answers of queries (the decision log and its counters) is the one obtained by
  performing the mutations of the schedule one after the other, and the invariant of the registry
  holds. A call of \<open>route\<close> or \<open>scanBackend\<close> that is not interrupted does what the sequential method does.
\<close>

theorem concurrent_registry_refines:
  assumes "reg_inv r"
  shows "without_answers (pl_registry (run_sections ss (Pool_new r))) =
      without_answers (reg_run (schedule_ops ss (Pool_new r)) r) \<and>
    reg_inv (pl_registry (run_sections ss (Pool_new r))) \<and>
    (\<forall>p t. pl_tasks p t = Idle \<longrightarrow>
      run_sections [Query t src dst policy, Draw t, Compute t now, Log t] p =
        set_task t (Answered src dst policy (fst (route src dst policy now (pl_registry p))))
          (p\<lparr>pl_registry := snd (route src dst policy now (pl_registry p))\<rparr>) \<and>
      run_sections [ScanRead t, ScanApply t now] p =
        set_task t (Scanned (fst (scanBackend now (pl_registry p))))
          (p\<lparr>pl_registry := snd (scanBackend now (pl_registry p))\<rparr>))"
  using assms schedule_refines [of ss "Pool_new r"] run_sections_inv [of "Pool_new r" ss] query_alone scan_alone
  by (simp add: Pool_new_def)

theorem concurrent_registry_refines_witness:
  "without_answers (pl_registry (run_sections overlapped (Pool_new pair_registry))) =
   without_answers (reg_run [(SetSwitchState (MkId 10) EntityState.DOWN, 9)] pair_registry)"
proof -
  have "schedule_ops overlapped (Pool_new pair_registry) = [(SetSwitchState (MkId 10) EntityState.DOWN, 9)]"
    by (simp add: overlapped_def section_ops_def one_lock_def)
  then show ?thesis
    using concurrent_registry_refines [OF reg_inv_sample, of overlapped SINGLE_SWITCH_TWO_GPU] by simp
qed

text \<open>
  (C18) The answers of concurrent queries: a query that was answered computed its decision for the snapshot
  and the measurements that were current when it was asked, under identifiers drawn later
  and the epoch read when it computed; it always has a decision, and in fewer than \<open>2 ^ 64\<close> sections no two
  queries get the same decision number.
\<close>

theorem concurrent_answers:
  assumes "pl_tasks (run_sections ss (Pool_new r)) t = Answered src dst policy res"
  shows "\<exists>d i j k now. res = Inr d \<and> i < j \<and> j < k \<and> k < length ss \<and>
    ss ! i = Query t src dst policy \<and> ss ! j = Draw t \<and> ss ! k = Compute t now \<and>
    Inr d = route_compute (route_read (registry_at ss (Pool_new r) i))
      (fst (route_draw (registry_at ss (Pool_new r) j)))
      (r_epoch (registry_at ss (Pool_new r) k)) now src dst policy \<and>
    (length ss < 2 ^ 64 \<longrightarrow> (\<forall>t' src' dst' policy' d'. t' \<noteq> t \<longrightarrow>
       pl_tasks (run_sections ss (Pool_new r)) t' = Answered src' dst' policy' (Inr d') \<longrightarrow>
       rd_id d' \<noteq> rd_id d))"
proof -
  obtain i j k now seen ids epoch where
    at: "asked_at ss (Pool_new r) t i src dst policy seen" "drew_at ss (Pool_new r) t j ids"
      "computed_at ss (Pool_new r) t k now epoch" "i < j" "j < k"
    and res: "res = route_compute seen ids epoch now src dst policy"
    using task_originated [of ss r t] unfolding assms by (elim task_originE) blast
  obtain d where d: "res = Inr d"
    using res route_compute_decision by metis
  have "t' = t" if "length ss < 2 ^ 64"
    "pl_tasks (run_sections ss (Pool_new r)) t' = Answered src' dst' policy' (Inr d')" "rd_id d' = rd_id d"
    for t' src' dst' policy' d'
  proof -
    have "task_number (pl_tasks (run_sections ss (Pool_new r)) t') = Some (rd_id d)"
      "task_number (pl_tasks (run_sections ss (Pool_new r)) t) = Some (rd_id d)"
      using that(2,3) assms d by (simp_all add: task_number_def)
    then show ?thesis
      using numbers_fresh_run [OF that(1), of r] unfolding numbers_fresh_def by blast
  qed
  moreover have "Inr d = route_compute (route_read (registry_at ss (Pool_new r) i))
      (fst (route_draw (registry_at ss (Pool_new r) j))) (r_epoch (registry_at ss (Pool_new r) k)) now src dst policy"
    using at res d by (simp add: at_defs)
  ultimately show ?thesis
    using at d
    by (intro exI [of _ d] exI [of _ i] exI [of _ j] exI [of _ k] exI [of _ now]) (auto simp: at_defs)
qed

theorem concurrent_answers_witness:
  "\<exists>d i j k now. i < j \<and> j < k \<and> k < length overlapped \<and>
     overlapped ! i = Query 0 (MkId 1) (MkId 2) default_RoutePolicy \<and>
     overlapped ! j = Draw 0 \<and> overlapped ! k = Compute 0 now \<and>
     Inr d = route_compute (route_read (registry_at overlapped (Pool_new pair_registry) i))
       (fst (route_draw (registry_at overlapped (Pool_new pair_registry) j)))
       (r_epoch (registry_at overlapped (Pool_new pair_registry) k)) now (MkId 1) (MkId 2) default_RoutePolicy"
proof -
  obtain d where "pl_tasks (run_sections overlapped (Pool_new pair_registry)) 0 =
      Answered (MkId 1) (MkId 2) default_RoutePolicy (Inr d)"
    using overlapped_result by blast
  from concurrent_answers [OF this] show ?thesis
    by blast
qed



end
