(* ===== verification/Fabric_Writers.thy ===== *)
theory Fabric_Writers
  imports Fabric_Persistence
begin

text \<open>
  Writers of the state file at the grain of the operating system. \<open>Fabric_Persistence\<close> describes
  \<open>writeFileAtomic\<close> by the contents that paths have; here a disk has directory entries and files behind
  them, an open stream keeps its file when the name goes, the bytes are written by as many calls as
  the system likes, and a \<open>rename\<close> whose source is missing fails, unnoticed. Connection threads of the coordinator
  persist without a lock, so two writers of the same path may interleave.

  A writer that runs alone refines \<open>writeFileAtomic\<close>. Two writers at once may both report success and leave
  no file.
\<close>

section \<open>Disks\<close>

record Disk =
  dk_names :: "string \<Rightarrow> nat option"
  dk_data :: "nat \<Rightarrow> bytes"
  dk_next :: nat

text \<open>Different names are different files, and unused file numbers are free.\<close>

definition disk_ok :: "Disk \<Rightarrow> bool" where
  "disk_ok d \<longleftrightarrow> (\<forall>q q' n. dk_names d q = Some n \<longrightarrow> dk_names d q' = Some n \<longrightarrow> q = q') \<and>
     (\<forall>q n. dk_names d q = Some n \<longrightarrow> n < dk_next d)"

definition contents :: "Disk \<Rightarrow> filesystem" where
  "contents d = (\<lambda>q. map_option (dk_data d) (dk_names d q))"

text \<open>\<open>ofstream(q, trunc)\<close>, one \<open>write\<close> call at the stream's position, \<open>remove\<close> and \<open>rename\<close>.\<close>

definition open_trunc :: "string \<Rightarrow> Disk \<Rightarrow> nat \<times> Disk" where
  "open_trunc q d = (case dk_names d q of
       Some n \<Rightarrow> (n, d\<lparr>dk_data := (dk_data d)(n := [])\<rparr>)
     | None \<Rightarrow> (dk_next d, d\<lparr>dk_names := (dk_names d)(q \<mapsto> dk_next d), dk_data := (dk_data d)(dk_next d := []),
                   dk_next := dk_next d + 1\<rparr>))"

definition overwrite :: "nat \<Rightarrow> bytes \<Rightarrow> bytes \<Rightarrow> bytes" where
  "overwrite off piece xs = take off (xs @ replicate (off - length xs) 0) @ piece @ drop (off + length piece) xs"

definition write_at :: "nat \<Rightarrow> nat \<Rightarrow> bytes \<Rightarrow> Disk \<Rightarrow> Disk" where
  "write_at n off piece d = d\<lparr>dk_data := (dk_data d)(n := overwrite off piece (dk_data d n))\<rparr>"

definition remove_file :: "string \<Rightarrow> Disk \<Rightarrow> Disk" where
  "remove_file q d = d\<lparr>dk_names := (dk_names d)(q := None)\<rparr>"

definition rename_file :: "string \<Rightarrow> string \<Rightarrow> Disk \<Rightarrow> Disk" where
  "rename_file q q' d = (case dk_names d q of
       None \<Rightarrow> d
     | Some n \<Rightarrow> d\<lparr>dk_names := (dk_names d)(q' \<mapsto> n, q := None)\<rparr>)"

section \<open>Writers\<close>

text \<open>Where a thread stands in \<open>writeFileAtomic\<close>; \<open>Writing n off\<close> is the open stream on file \<open>n\<close> at position \<open>off\<close>.\<close>

datatype Stage = Opening | Writing nat nat | Removing | Renaming | Done

record Writer =
  wr_path :: string
  wr_data :: bytes
  wr_stage :: Stage

definition Writer_new :: "string \<Rightarrow> bytes \<Rightarrow> Writer" where
  "Writer_new path data = \<lparr>wr_path = path, wr_data = data, wr_stage = Opening\<rparr>"

text \<open>One call to the operating system; a \<open>write\<close> takes up to \<open>k\<close> bytes, and the stream is closed when all are written.\<close>

definition writer_step :: "nat \<Rightarrow> Writer \<times> Disk \<Rightarrow> Writer \<times> Disk" where
  "writer_step k wd = (case wd of (w, d) \<Rightarrow> case wr_stage w of
       Opening \<Rightarrow> (case open_trunc (tmp_path (wr_path w)) d of (n, d') \<Rightarrow> (w\<lparr>wr_stage := Writing n 0\<rparr>, d'))
     | Writing n off \<Rightarrow>
         if off \<ge> length (wr_data w) then (w\<lparr>wr_stage := Removing\<rparr>, d)
         else (w\<lparr>wr_stage := Writing n (off + min k (length (wr_data w) - off))\<rparr>,
               write_at n off (take k (drop off (wr_data w))) d)
     | Removing \<Rightarrow> (w\<lparr>wr_stage := Renaming\<rparr>, remove_file (wr_path w) d)
     | Renaming \<Rightarrow> (w\<lparr>wr_stage := Done\<rparr>, rename_file (tmp_path (wr_path w)) (wr_path w) d)
     | Done \<Rightarrow> (w, d))"

definition run_writer :: "nat list \<Rightarrow> Writer \<times> Disk \<Rightarrow> Writer \<times> Disk" where
  "run_writer ks wd = fold writer_step ks wd"

text \<open>Two writers; an entry of the schedule names the writer that moves and the size of its \<open>write\<close>.\<close>

definition pair_step :: "bool \<times> nat \<Rightarrow> Writer \<times> Writer \<times> Disk \<Rightarrow> Writer \<times> Writer \<times> Disk" where
  "pair_step e s = (case s of (v, w, d) \<Rightarrow>
     if fst e then (case writer_step (snd e) (v, d) of (v', d') \<Rightarrow> (v', w, d'))
     else (case writer_step (snd e) (w, d) of (w', d') \<Rightarrow> (v, w', d')))"

definition run_pair :: "(bool \<times> nat) list \<Rightarrow> Writer \<times> Writer \<times> Disk \<Rightarrow> Writer \<times> Writer \<times> Disk" where
  "run_pair es s = fold pair_step es s"

section \<open>A writer alone\<close>

lemma tmp_path_neq [simp]: "tmp_path p \<noteq> p" "p \<noteq> tmp_path p"
  by (simp_all add: tmp_path_def)

lemma overwrite_end: "overwrite (length xs) piece xs = xs @ piece"
  by (simp add: overwrite_def)

lemma contents_data:
  "disk_ok d \<Longrightarrow> dk_names d q = Some n \<Longrightarrow>
   contents (d\<lparr>dk_data := (dk_data d)(n := bs)\<rparr>) = (contents d)(q \<mapsto> bs)"
  by (auto simp: contents_def disk_ok_def fun_eq_iff map_option_case split: option.split)

lemma open_trunc_ok:
  assumes "disk_ok d" and "open_trunc q d = (n, d')"
  shows "disk_ok d'" "dk_names d' q = Some n" "contents d' = (contents d)(q \<mapsto> [])"
proof -
  have fresh: "dk_names d q' \<noteq> Some (dk_next d)" for q'
    using assms(1) unfolding disk_ok_def by blast
  then show "disk_ok d'"
    using assms by (auto simp: open_trunc_def disk_ok_def less_Suc_eq split: option.splits if_splits)
  show "dk_names d' q = Some n"
    using assms(2) by (auto simp: open_trunc_def split: option.splits)
  show "contents d' = (contents d)(q \<mapsto> [])"
  proof (cases "dk_names d q")
    case None
    then have "d' = d\<lparr>dk_names := (dk_names d)(q \<mapsto> dk_next d), dk_data := (dk_data d)(dk_next d := []), dk_next := dk_next d + 1\<rparr>"
      using assms(2) by (auto simp: open_trunc_def)
    then show ?thesis
      using fresh by (auto simp: contents_def fun_eq_iff map_option_case split: option.split)
  next
    case (Some m)
    then show ?thesis
      using assms contents_data by (auto simp: open_trunc_def)
  qed
qed

lemma remove_file_ok: "disk_ok d \<Longrightarrow> disk_ok (remove_file q d)"
  "contents (remove_file q d) = (contents d)(q := None)"
  by (auto simp: remove_file_def disk_ok_def contents_def fun_eq_iff)

lemma rename_file_ok:
  "disk_ok d \<Longrightarrow> q \<noteq> q' \<Longrightarrow> disk_ok (rename_file q q' d)"
  "dk_names d q \<noteq> None \<Longrightarrow> contents (rename_file q q' d) = (contents d)(q' := contents d q, q := None)"
  by (auto simp: rename_file_def disk_ok_def contents_def fun_eq_iff split: option.splits)

text \<open>What the disk holds at each stage, in the terms of \<open>write_steps\<close>.\<close>

definition stage_contents :: "string \<Rightarrow> bytes \<Rightarrow> filesystem \<Rightarrow> Stage \<Rightarrow> filesystem" where
  "stage_contents path data fs st = (case st of
       Opening \<Rightarrow> fs
     | Writing n off \<Rightarrow> fs(tmp_path path \<mapsto> take off data)
     | Removing \<Rightarrow> run_steps (take 2 (write_steps path data)) fs
     | Renaming \<Rightarrow> run_steps (take 3 (write_steps path data)) fs
     | Done \<Rightarrow> writeFileAtomic path data fs)"

definition follows :: "filesystem \<Rightarrow> Writer \<times> Disk \<Rightarrow> bool" where
  "follows fs wd \<longleftrightarrow> (case wd of (w, d) \<Rightarrow> disk_ok d \<and>
     contents d = stage_contents (wr_path w) (wr_data w) fs (wr_stage w) \<and>
     (case wr_stage w of
        Writing n off \<Rightarrow> dk_names d (tmp_path (wr_path w)) = Some n \<and> off \<le> length (wr_data w)
      | _ \<Rightarrow> True))"

lemma follows_step:
  assumes "follows fs wd"
  shows "follows fs (writer_step k wd)"
proof -
  obtain w d where wd: "wd = (w, d)" by fastforce
  then have ok: "disk_ok d" and c: "contents d = stage_contents (wr_path w) (wr_data w) fs (wr_stage w)"
    using assms by (simp_all add: follows_def)
  note steps = stage_contents_def run_steps_def write_steps_def writeFileAtomic_def numeral_eq_Suc
  show ?thesis
  proof (cases "wr_stage w")
    case Opening
    then show ?thesis
      using ok c open_trunc_ok [OF ok] wd
      by (auto simp: writer_step_def follows_def steps split: prod.splits)
  next
    case (Writing n off)
    then have n: "dk_names d (tmp_path (wr_path w)) = Some n" "off \<le> length (wr_data w)"
      using assms wd by (simp_all add: follows_def)
    then have "dk_data d n = take off (wr_data w)"
      using fun_cong [OF c, of "tmp_path (wr_path w)"] Writing by (simp add: contents_def steps)
    then have "overwrite off (take k (drop off (wr_data w))) (dk_data d n) = take (off + k) (wr_data w)"
      using overwrite_end [of "take off (wr_data w)"] n(2) by (simp add: take_add)
    then have "contents (write_at n off (take k (drop off (wr_data w))) d) =
        (contents d)(tmp_path (wr_path w) \<mapsto> take (off + k) (wr_data w))"
      using contents_data [OF ok n(1)] by (simp add: write_at_def)
    moreover have "disk_ok (write_at n off bs d)" for bs
      using ok by (simp add: write_at_def disk_ok_def)
    moreover have "take (off + min k (length (wr_data w) - off)) (wr_data w) = take (off + k) (wr_data w)"
      by (simp add: min_def)
    ultimately show ?thesis
      using Writing n ok c wd
      by (auto simp: writer_step_def follows_def steps write_at_def)
  next
    case Removing
    then show ?thesis
      using ok c remove_file_ok wd by (auto simp: writer_step_def follows_def steps)
  next
    case Renaming
    then have "dk_names d (tmp_path (wr_path w)) \<noteq> None"
      using fun_cong [OF c, of "tmp_path (wr_path w)"] by (auto simp: contents_def steps)
    then show ?thesis
      using Renaming ok c rename_file_ok(1) [OF ok] rename_file_ok(2) wd
      by (simp add: writer_step_def follows_def steps)
  next
    case Done
    then show ?thesis
      using assms wd by (simp add: writer_step_def)
  qed
qed

lemma follows_run: "follows fs wd \<Longrightarrow> follows fs (run_writer ks wd)"
  unfolding run_writer_def by (induction ks arbitrary: wd) (simp_all add: follows_step)

lemma follows_new: "disk_ok d \<Longrightarrow> follows (contents d) (Writer_new path data, d)"
  by (simp add: follows_def Writer_new_def stage_contents_def)

text \<open>How many calls are left at most when every \<open>write\<close> takes a byte.\<close>

definition calls_left :: "Writer \<Rightarrow> nat" where
  "calls_left w = (case wr_stage w of
       Opening \<Rightarrow> length (wr_data w) + 4 | Writing n off \<Rightarrow> length (wr_data w) - off + 3
     | Removing \<Rightarrow> 2 | Renaming \<Rightarrow> 1 | Done \<Rightarrow> 0)"

lemma calls_left_step: "0 < k \<Longrightarrow> calls_left (fst (writer_step k wd)) \<le> calls_left (fst wd) - 1"
  by (auto simp: calls_left_def writer_step_def min_def split: Stage.splits prod.splits)

lemma calls_left_run:
  assumes "\<forall>k \<in> set ks. 0 < k"
  shows "calls_left (fst (run_writer ks wd)) \<le> calls_left (fst wd) - length ks"
  using assms unfolding run_writer_def
proof (induction ks arbitrary: wd)
  case (Cons k ks)
  have "calls_left (fst (fold writer_step ks (writer_step k wd))) \<le> calls_left (fst (writer_step k wd)) - length ks"
    using Cons by simp
  also have "\<dots> \<le> calls_left (fst wd) - length (k # ks)"
    using calls_left_step [of k wd] Cons.prems by auto
  finally show ?case by simp
qed simp

lemma writer_fixed [simp]:
  "wr_path (fst (run_writer ks wd)) = wr_path (fst wd)" "wr_data (fst (run_writer ks wd)) = wr_data (fst wd)"
proof -
  have "wr_path (fst (writer_step k wd)) = wr_path (fst wd) \<and> wr_data (fst (writer_step k wd)) = wr_data (fst wd)" for k wd
    by (auto simp: writer_step_def split: Stage.splits prod.splits)
  then show "wr_path (fst (run_writer ks wd)) = wr_path (fst wd)" "wr_data (fst (run_writer ks wd)) = wr_data (fst wd)"
    unfolding run_writer_def by (induction ks arbitrary: wd) simp_all
qed

lemma calls_left_Done: "calls_left w = 0 \<longleftrightarrow> wr_stage w = Done"
  by (simp add: calls_left_def split: Stage.splits)

lemma writer_alone:
  assumes "disk_ok d" and "\<forall>k \<in> set ks. 0 < k" and "length data + 4 \<le> length ks"
  shows "wr_stage (fst (run_writer ks (Writer_new path data, d))) = Done \<and>
    contents (snd (run_writer ks (Writer_new path data, d))) = writeFileAtomic path data (contents d)"
proof -
  let ?wd = "run_writer ks (Writer_new path data, d)"
  have "calls_left (fst ?wd) = 0"
    using calls_left_run [OF assms(2), of "(Writer_new path data, d)"] assms(3)
    by (simp add: calls_left_def Writer_new_def)
  then have "wr_stage (fst ?wd) = Done"
    by (simp add: calls_left_Done)
  moreover have "follows (contents d) ?wd"
    by (rule follows_run [OF follows_new [OF assms(1)]])
  ultimately show ?thesis
    using writer_fixed [of ks "(Writer_new path data, d)"]
    by (simp add: follows_def stage_contents_def split_beta) (simp add: Writer_new_def)
qed

section \<open>Two writers\<close>

text \<open>Both write the temporary file; the first one moves it to the target, the second one removes the target and
  finds nothing to move.\<close>

definition losing_schedule :: "nat \<Rightarrow> nat \<Rightarrow> (bool \<times> nat) list" where
  "losing_schedule m n = [(True, m), (True, m), (True, m), (False, n), (False, n), (False, n),
     (True, m), (True, m), (False, n), (False, n)]"

lemma losing_schedule_loses:
  assumes "data \<noteq> []" and "data' \<noteq> []"
    and "run_pair (losing_schedule (length data) (length data')) (Writer_new path data, Writer_new path data', d) = (v, w, d')"
  shows "wr_stage v = Done \<and> wr_stage w = Done \<and> contents d' path = None"
  using assms
  by (cases "dk_names d (tmp_path path)")
    (auto simp: run_pair_def losing_schedule_def pair_step_def writer_step_def Writer_new_def open_trunc_def
      write_at_def remove_file_def rename_file_def contents_def)

section \<open>Property\<close>

text \<open>
  (C28) Writing the state file: a thread that writes alone, however the system cuts its bytes into \<open>write\<close>
  calls, ends after at most one call for each byte and four more, and leaves what \<open>writeFileAtomic\<close> describes. Two
  threads that persist to one path at the same time, as connections of the coordinator do without a lock,
  have a schedule in which both finish and report success and the file is gone.
\<close>

theorem concurrent_writers:
  assumes "serialize r = Inr data" and "serialize r' = Inr data'" and "disk_ok d"
  shows "(\<forall>ks. (\<forall>k \<in> set ks. 0 < k) \<longrightarrow> length data + 4 \<le> length ks \<longrightarrow>
      wr_stage (fst (run_writer ks (Writer_new path data, d))) = Done \<and>
      contents (snd (run_writer ks (Writer_new path data, d))) = writeFileAtomic path data (contents d)) \<and>
    (\<exists>es v w d'. run_pair es (Writer_new path data, Writer_new path data', d) = (v, w, d') \<and>
      wr_stage v = Done \<and> wr_stage w = Done \<and>
      restoreFrom path (contents d') = Inl (err ErrorCode.NOT_FOUND ''persistence file not found''))"
proof -
  have "data \<noteq> []" "data' \<noteq> []"
    using length_image assms(1,2) by fastforce+
  moreover obtain v w d' where
    "run_pair (losing_schedule (length data) (length data')) (Writer_new path data, Writer_new path data', d) = (v, w, d')"
    by (metis prod_cases3)
  moreover from this losing_schedule_loses [OF calculation(1,2) this] have
    "wr_stage v = Done \<and> wr_stage w = Done \<and>
     restoreFrom path (contents d') = Inl (err ErrorCode.NOT_FOUND ''persistence file not found'')"
    by (simp add: restoreFrom_def deserializeFromFile_def)
  ultimately show ?thesis
    using writer_alone [OF assms(3), where data = data] by blast
qed

definition empty_disk :: Disk where
  "empty_disk = \<lparr>dk_names = (\<lambda>q. None), dk_data = (\<lambda>n. []), dk_next = 0\<rparr>"

theorem concurrent_writers_witness:
  "(\<exists>es v w d'. run_pair es (Writer_new ''state.nvf'' pair_image, Writer_new ''state.nvf'' pair_image, empty_disk) = (v, w, d') \<and>
      wr_stage v = Done \<and> wr_stage w = Done \<and>
      restoreFrom ''state.nvf'' (contents d') = Inl (err ErrorCode.NOT_FOUND ''persistence file not found'')) \<and>
   contents (snd (run_writer (replicate (length pair_image + 4) 1) (Writer_new ''state.nvf'' pair_image, empty_disk)))
     = writeFileAtomic ''state.nvf'' pair_image Map.empty"
proof -
  have "serialize pair_registry = Inr pair_image"
    by (rule pair_image_accepted(3))
  moreover have "disk_ok empty_disk" "contents empty_disk = Map.empty"
    by (simp_all add: disk_ok_def empty_disk_def contents_def fun_eq_iff)
  ultimately show ?thesis
    using concurrent_writers [of pair_registry pair_image pair_registry pair_image empty_disk] by simp
qed

end
