(* ===== verification/Fabric_Sockets.thy ===== *)
theory Fabric_Sockets
  imports Fabric_Transport
begin

text \<open>
  Who owns a descriptor. A \<open>TcpSocket\<close> cannot be copied; it is moved, assigned by moving, closed and destroyed
  (\<open>runtime/transport.cpp\<close>). The objects and the descriptors that the operating system has open are one state. In a state
  where every open descriptor belongs to exactly one object, every operation keeps it so: none is
  closed twice and none is lost. The exception is \<open>connectTo\<close> or \<open>listenOn\<close> on an object that already has a descriptor,
  which forgets it.
\<close>

type_synonym sockaddr = nat

record Sockets =
  sk_obj :: "sockaddr \<Rightarrow> TcpSocket option"
  sk_open :: "int set"

section \<open>The operations\<close>

definition closeSock :: "int \<Rightarrow> Sockets \<Rightarrow> Sockets" where
  "closeSock fd k = (if fd \<noteq> -1 then k\<lparr>sk_open := sk_open k - {fd}\<rparr> else k)"

definition sockets_new :: "sockaddr \<Rightarrow> Sockets \<Rightarrow> Sockets" where
  "sockets_new i k = k\<lparr>sk_obj := (sk_obj k)(i \<mapsto> TcpSocket_new)\<rparr>"

definition sockets_close :: "sockaddr \<Rightarrow> Sockets \<Rightarrow> Sockets" where
  "sockets_close i k = (case sk_obj k i of
       None \<Rightarrow> k
     | Some s \<Rightarrow> if socket_valid s then (closeSock (so_fd s) k)\<lparr>sk_obj := (sk_obj k)(i \<mapsto> socket_close s)\<rparr> else k)"

definition sockets_destroy :: "sockaddr \<Rightarrow> Sockets \<Rightarrow> Sockets" where
  "sockets_destroy i k = (let k = sockets_close i k in k\<lparr>sk_obj := (sk_obj k)(i := None)\<rparr>)"

text \<open>The move constructor: object \<open>i\<close> is made from \<open>j\<close>, which loses its descriptor and keeps its port.\<close>

definition sockets_move :: "sockaddr \<Rightarrow> sockaddr \<Rightarrow> Sockets \<Rightarrow> Sockets" where
  "sockets_move i j k = (case sk_obj k j of
       None \<Rightarrow> k
     | Some s \<Rightarrow> k\<lparr>sk_obj := (sk_obj k)(j \<mapsto> s\<lparr>so_fd := -1\<rparr>, i \<mapsto> s)\<rparr>)"

definition sockets_assign :: "sockaddr \<Rightarrow> sockaddr \<Rightarrow> Sockets \<Rightarrow> Sockets" where
  "sockets_assign i j k = (if i = j then k else sockets_move i j (sockets_close i k))"

text \<open>\<open>accept\<close> on object \<open>l\<close> makes object \<open>i\<close> for the descriptor that the operating system returns.\<close>

definition sockets_accept :: "Os \<Rightarrow> sockaddr \<Rightarrow> sockaddr \<Rightarrow> Sockets \<Rightarrow> Sockets" where
  "sockets_accept os l i k = (case sk_obj k l of
       None \<Rightarrow> k
     | Some s \<Rightarrow> (case socket_accept os s of
           Inl e \<Rightarrow> k
         | Inr c \<Rightarrow> k\<lparr>sk_obj := (sk_obj k)(i \<mapsto> c), sk_open := insert (so_fd c) (sk_open k)\<rparr>))"

text \<open>\<open>connectTo\<close> and \<open>listenOn\<close> overwrite the descriptor of the object.\<close>

definition sockets_open :: "Os \<Rightarrow> (TcpSocket \<Rightarrow> unit Result \<times> TcpSocket) \<Rightarrow> sockaddr \<Rightarrow> Sockets \<Rightarrow> Sockets" where
  "sockets_open os f i k = (case sk_obj k i of
       None \<Rightarrow> k
     | Some s \<Rightarrow>
         let s' = snd (f s)
         in k\<lparr>sk_obj := (sk_obj k)(i \<mapsto> s'),
              sk_open := (if socket_valid s' then insert (so_fd s') (sk_open k) else sk_open k)\<rparr>)"

definition sockets_connect :: "Os \<Rightarrow> string \<Rightarrow> u16 \<Rightarrow> sockaddr \<Rightarrow> Sockets \<Rightarrow> Sockets" where
  "sockets_connect os host port = sockets_open os (connectTo os host port)"

definition sockets_listen :: "Os \<Rightarrow> u16 \<Rightarrow> sockaddr \<Rightarrow> Sockets \<Rightarrow> Sockets" where
  "sockets_listen os port = sockets_open os (listenOn os port)"

text \<open>\<open>shutdown\<close>: the descriptor whose sending side the operating system is asked to end.\<close>

definition socket_shutdown :: "TcpSocket \<Rightarrow> int option" where
  "socket_shutdown s = (if socket_valid s then Some (so_fd s) else None)"

section \<open>Ownership\<close>

definition owns :: "Sockets \<Rightarrow> sockaddr \<Rightarrow> int \<Rightarrow> bool" where
  "owns k i fd \<longleftrightarrow> (\<exists>s. sk_obj k i = Some s \<and> socket_valid s \<and> so_fd s = fd)"

definition owned_once :: "Sockets \<Rightarrow> bool" where
  "owned_once k \<longleftrightarrow> (\<forall>fd. fd \<in> sk_open k \<longleftrightarrow> (\<exists>i. owns k i fd)) \<and>
     (\<forall>i j fd. owns k i fd \<longrightarrow> owns k j fd \<longrightarrow> i = j)"

lemma owns_close:
  "owns (sockets_close i k) j fd \<longleftrightarrow> j \<noteq> i \<and> owns k j fd"
  by (auto simp: owns_def sockets_close_def closeSock_def socket_close_def socket_valid_def split: option.split)

lemma open_close:
  "owned_once k \<Longrightarrow> sk_open (sockets_close i k) = sk_open k - {fd. owns k i fd}"
  by (auto simp: owns_def sockets_close_def closeSock_def socket_valid_def owned_once_def split: option.split)

lemma owned_once_close: "owned_once k \<Longrightarrow> owned_once (sockets_close i k)"
  unfolding owned_once_def owns_close by (auto simp: open_close owned_once_def)

lemma owned_once_move:
  assumes "owned_once k" and "i \<noteq> j" and "\<And>fd. \<not> owns k i fd"
  shows "owned_once (sockets_move i j k)"
proof (cases "sk_obj k j")
  case None
  then show ?thesis using assms(1) by (simp add: sockets_move_def)
next
  case (Some s)
  have "owns (sockets_move i j k) x fd \<longleftrightarrow> x \<noteq> j \<and> (if x = i then owns k j fd else owns k x fd)" for x fd
    using assms(2) Some by (auto simp: owns_def sockets_move_def socket_valid_def)
  moreover have "sk_open (sockets_move i j k) = sk_open k"
    using Some by (simp add: sockets_move_def)
  ultimately show ?thesis
    using assms unfolding owned_once_def by (metis (full_types))
qed

lemma owned_once_assign: "owned_once k \<Longrightarrow> owned_once (sockets_assign i j k)"
  by (auto simp: sockets_assign_def owns_close intro: owned_once_move owned_once_close)

lemma owned_once_forget:
  assumes "owned_once k" and "\<And>fd. \<not> owns k i fd" and "x = None \<or> x = Some TcpSocket_new"
  shows "owned_once (k\<lparr>sk_obj := (sk_obj k)(i := x)\<rparr>)"
proof -
  have "owns (k\<lparr>sk_obj := (sk_obj k)(i := x)\<rparr>) j fd \<longleftrightarrow> owns k j fd" for j fd
    using assms(2) [of fd] assms(3) by (auto simp: owns_def TcpSocket_new_def socket_valid_def)
  then show ?thesis
    using assms(1) by (simp add: owned_once_def)
qed

lemma owned_once_destroy: "owned_once k \<Longrightarrow> owned_once (sockets_destroy i k)"
  unfolding sockets_destroy_def Let_def
  by (rule owned_once_forget [OF owned_once_close]) (simp_all add: owns_close)

text \<open>An object without a descriptor gets a fresh one.\<close>

lemma owned_once_adopt:
  assumes "owned_once k" and "\<And>fd. \<not> owns k i fd" and "socket_valid s \<Longrightarrow> so_fd s \<notin> sk_open k"
  shows "owned_once (k\<lparr>sk_obj := (sk_obj k)(i \<mapsto> s),
    sk_open := (if socket_valid s then insert (so_fd s) (sk_open k) else sk_open k)\<rparr>)"
proof -
  let ?k = "k\<lparr>sk_obj := (sk_obj k)(i \<mapsto> s),
    sk_open := (if socket_valid s then insert (so_fd s) (sk_open k) else sk_open k)\<rparr>"
  have "owns ?k j fd \<longleftrightarrow> (if j = i then socket_valid s \<and> so_fd s = fd else owns k j fd)" for j fd
    by (auto simp: owns_def)
  moreover have "fd \<in> sk_open k \<longleftrightarrow> (\<exists>j. j \<noteq> i \<and> owns k j fd)" for fd
    using assms(1,2) unfolding owned_once_def by metis
  ultimately show ?thesis
    using assms(1,3) unfolding owned_once_def by (auto split: if_splits)
qed

lemma opened_fd:
  "socket_valid (snd (connectTo os host port s)) \<Longrightarrow> so_fd (snd (connectTo os host port s)) = os_socket os"
  "socket_valid (snd (listenOn os port s)) \<Longrightarrow> so_fd (snd (listenOn os port s)) = os_socket os"
  by (auto simp: connectTo_def listenOn_def socket_close_def socket_valid_def Let_def split: if_splits)

section \<open>The life of sockets\<close>

text \<open>The steps of a program on its sockets. A constructor works on fresh storage, and the operating system
  returns descriptors that are not open. An object is connected or listens only while it has no descriptor.\<close>

inductive sockets_step :: "Sockets \<Rightarrow> Sockets \<Rightarrow> bool" where
  make: "sk_obj k i = None \<Longrightarrow> sockets_step k (sockets_new i k)"
| close: "sockets_step k (sockets_close i k)"
| destroy: "sockets_step k (sockets_destroy i k)"
| move: "sk_obj k i = None \<Longrightarrow> i \<noteq> j \<Longrightarrow> sockets_step k (sockets_move i j k)"
| assign: "sockets_step k (sockets_assign i j k)"
| accept: "sk_obj k i = None \<Longrightarrow> sk_obj k l = Some s \<Longrightarrow> os_accept os (so_fd s) \<notin> sk_open k \<Longrightarrow>
    sockets_step k (sockets_accept os l i k)"
| connect: "sk_obj k i = Some s \<Longrightarrow> \<not> socket_valid s \<Longrightarrow> os_socket os \<notin> sk_open k \<Longrightarrow>
    sockets_step k (sockets_connect os host port i k)"
| listen: "sk_obj k i = Some s \<Longrightarrow> \<not> socket_valid s \<Longrightarrow> os_socket os \<notin> sk_open k \<Longrightarrow>
    sockets_step k (sockets_listen os port i k)"

lemma sockets_step_owners: "sockets_step k k' \<Longrightarrow> owned_once k \<Longrightarrow> owned_once k'"
proof (induction rule: sockets_step.induct)
  case (make k i)
  then show ?case
    unfolding sockets_new_def by (intro owned_once_forget) (auto simp: owns_def)
next
  case (move k i j)
  then show ?case by (intro owned_once_move) (auto simp: owns_def)
next
  case (accept k i l s os)
  show ?case
  proof (cases "socket_accept os s")
    case (Inr c)
    then have "socket_valid c" "so_fd c = os_accept os (so_fd s)"
      by (auto simp: socket_accept_def socket_valid_def Let_def split: if_splits)
    then show ?thesis
      using accept Inr owned_once_adopt [of k i c] by (simp add: sockets_accept_def owns_def)
  qed (use accept in \<open>simp add: sockets_accept_def\<close>)
next
  case (connect k i s os host port)
  then show ?case
    using owned_once_adopt [of k i "snd (connectTo os host port s)"] opened_fd(1) [of os host port s]
    by (auto simp: sockets_connect_def sockets_open_def Let_def owns_def)
next
  case (listen k i s os port)
  then show ?case
    using owned_once_adopt [of k i "snd (listenOn os port s)"] opened_fd(2) [of os port s]
    by (auto simp: sockets_listen_def sockets_open_def Let_def owns_def)
qed (auto intro: owned_once_close owned_once_destroy owned_once_assign)

definition no_sockets :: Sockets where
  "no_sockets = \<lparr>sk_obj = (\<lambda>i. None), sk_open = {}\<rparr>"

text \<open>In every state that a program reaches, the open descriptors are exactly those of its objects, each of one object;
  so when all objects are destroyed none is left open.\<close>

theorem descriptors_owned_once:
  assumes "sockets_step\<^sup>*\<^sup>* no_sockets k"
  shows "owned_once k \<and> ((\<forall>i. sk_obj k i = None) \<longrightarrow> sk_open k = {})"
proof -
  have "owned_once k"
    using assms
  proof (induction rule: rtranclp_induct)
    case base
    show ?case by (simp add: no_sockets_def owned_once_def owns_def)
  next
    case (step k k')
    then show ?case using sockets_step_owners by blast
  qed
  then show ?thesis
    by (auto simp: owned_once_def owns_def)
qed

text \<open>Connecting an object that is connected forgets its descriptor: it stays open and no object owns it. A worker
  whose \<open>connect\<close> is called again does this.\<close>

theorem reconnect_leaks:
  assumes "owned_once k" and "sk_obj k i = Some s" and "socket_valid s"
    and "os_socket os \<noteq> so_fd s"
  shows "so_fd s \<in> sk_open (sockets_connect os host port i k) \<and>
    (\<forall>j. \<not> owns (sockets_connect os host port i k) j (so_fd s))"
proof -
  have o: "owns k i (so_fd s)"
    using assms(2,3) by (simp add: owns_def)
  then have "so_fd s \<in> sk_open k" "\<And>j. owns k j (so_fd s) \<Longrightarrow> j = i"
    using assms(1) unfolding owned_once_def by blast+
  moreover have "owns (sockets_connect os host port i k) j fd \<longleftrightarrow> owns k j fd" if "j \<noteq> i" for j fd
    using assms(2) that by (simp add: owns_def sockets_connect_def sockets_open_def Let_def)
  moreover have "\<not> owns (sockets_connect os host port i k) i (so_fd s)"
    using assms(2,4) opened_fd(1) [of os host port s]
    by (auto simp: owns_def sockets_connect_def sockets_open_def Let_def)
  moreover have "sk_open k \<subseteq> sk_open (sockets_connect os host port i k)"
    using assms(2) by (auto simp: sockets_connect_def sockets_open_def Let_def)
  ultimately show ?thesis
    by (metis subsetD)
qed

end
