(* ===== verification/Fabric_Hardware.thy ===== *)
theory Fabric_Hardware
  imports Fabric_Authority Fabric_Reachability
begin

text \<open>
  The hardware backends: the NVML backend (\<open>backends/nvidia_backend.h\<close>,
  \<open>backends/nvidia_backend.cpp\<close>), the CUDA kernel module (\<open>backends/cuda_kernel.cu\<close>) and its host
  side (\<open>backends/cuda_measurement.cpp\<close>).

  NVML and the CUDA runtime are not part of the repository: what their calls return is a
  parameter, a record with one field per call. Whether the library is compiled in
  (\<open>NVSWITCH_FABRIC_HAVE_NVML\<close>, \<open>NVSWITCH_FABRIC_HAVE_CUDA\<close>) is the option around that record.
  What a registry may expect of a bound backend is the interface \<open>fabric_backend\<close>, which the
  NVML backend and the synthetic backend both implement.
\<close>

section \<open>The interface of a backend\<close>

text \<open>Every record of a scan carries a given provenance.\<close>

definition scan_from :: "Provenance \<Rightarrow> Scan \<Rightarrow> bool" where
  "scan_from pr s \<longleftrightarrow>
     (\<forall>d \<in> set (sc_devices s). dev_provenance d = pr) \<and> (\<forall>x \<in> set (sc_switches s). sw_provenance x = pr) \<and>
     (\<forall>p \<in> set (sc_ports s). po_provenance p = pr) \<and> (\<forall>l \<in> set (sc_links s). li_provenance l = pr) \<and>
     (\<forall>p \<in> set (sc_partitions s). pa_provenance p = pr)"

text \<open>A scan shows no more kinds of records than the capabilities declare.\<close>

definition scan_declared :: "BackendCapabilities \<Rightarrow> Scan \<Rightarrow> bool" where
  "scan_declared c s \<longleftrightarrow>
     (sc_devices s \<noteq> [] \<longrightarrow> bc_deviceDiscovery c) \<and> (sc_switches s \<noteq> [] \<longrightarrow> bc_switchDiscovery c) \<and>
     (sc_ports s \<noteq> [] \<longrightarrow> bc_portDiscovery c) \<and> (sc_links s \<noteq> [] \<longrightarrow> bc_linkDiscovery c) \<and>
     (sc_partitions s \<noteq> [] \<longrightarrow> bc_partitionDiscovery c)"

lemma om_values_insert: "set (om_values (om_insert k v m)) \<subseteq> insert v (set (om_values m))"
  by (induction m) (auto simp: om_values_def)

lemma om_values_insert_all: "set (om_values (om_insert_all key vs m)) \<subseteq> set vs \<union> set (om_values m)"
proof (induction vs arbitrary: m)
  case (Cons v vs)
  have "set (om_values (om_insert_all key (v # vs) m)) \<subseteq> set vs \<union> set (om_values (om_insert (key v) v m))"
    using Cons.IH by (simp add: om_insert_all_def)
  then show ?case
    using om_values_insert [of "key v" v m] by auto
qed (simp add: om_insert_all_def)

lemma Un_insert_mono: "A \<subseteq> insert p A' \<Longrightarrow> B \<subseteq> insert p B' \<Longrightarrow> A \<union> B \<subseteq> insert p (A' \<union> B')"
  by blast

lemma image_insert_all:
  "\<forall>v \<in> set vs. f v = p \<Longrightarrow> f ` set (om_values (om_insert_all key vs m)) \<subseteq> insert p (f ` set (om_values m))"
  using om_values_insert_all [of key vs m] by blast

locale fabric_backend =
  fixes inv :: "'b \<Rightarrow> bool" and initialize :: "'b \<Rightarrow> unit Result \<times> 'b"
    and capabilities :: "'b \<Rightarrow> BackendCapabilities" and scan :: "'b \<Rightarrow> Scan Result"
  assumes initialize_inv: "inv b \<Longrightarrow> inv (snd (initialize b))"
    and scan_honest: "inv b \<Longrightarrow> scan b = Inr s \<Longrightarrow> scan_from (bc_provenance (capabilities b)) s"
    and scan_within: "inv b \<Longrightarrow> scan b = Inr s \<Longrightarrow> scan_declared (capabilities b) s"
begin

lemma scanned_provenances:
  assumes "inv b" and "r_backend r = Some \<lparr>bk_capabilities = capabilities b, bk_scan = scan b\<rparr>"
  shows "set (all_provenances (snapshot (snd (scanBackend now r)))) \<subseteq>
    insert (bc_provenance (capabilities b)) (set (all_provenances (snapshot r)))"
proof (cases "bc_provenance (capabilities b) = Provenance.UNSUPPORTED \<or> (\<exists>e. scan b = Inl e)")
  case True
  then show ?thesis using assms(2) by (auto simp: scanBackend_def)
next
  case False
  then obtain s where s: "scan b = Inr s"
    by (cases "scan b") auto
  obtain res r' where t: "transact_with ''bulk rejected: '' (applyBulk_edit (bulk_of_scan s)) now r = (res, r')"
    by fastforce
  then have "snapshot (snd (scanBackend now r)) = snapshot r'"
    using False assms(2) s
    by (simp add: scanBackend_def applyBackendScan_def applyBulk_def split: sum.split)
  moreover have "set (all_provenances (snapshot r')) \<subseteq>
      insert (bc_provenance (capabilities b)) (set (all_provenances (snapshot r)))"
    using t
  proof (cases rule: transact_cases)
    case (committed cand)
    note from_scan = scan_honest [OF assms(1) s, unfolded scan_from_def]
    have cand: "cand = bump ((r_current r)\<lparr>
       t_devices := om_insert_all dev_id (sc_devices s) (t_devices (r_current r)),
       t_switches := om_insert_all sw_id (sc_switches s) (t_switches (r_current r)),
       t_ports := om_insert_all po_id (sc_ports s) (t_ports (r_current r)),
       t_links := om_insert_all li_id (sc_links s) (t_links (r_current r)),
       t_partitions := om_insert_all pa_id (sc_partitions s) (t_partitions (r_current r))\<rparr>)"
      using committed(1) by (simp add: applyBulk_edit_def bulk_of_scan_def)
    have "set (all_provenances cand) \<subseteq>
        insert (bc_provenance (capabilities b)) (set (all_provenances (r_current r)))"
      unfolding cand all_provenances_def set_append set_map bump_fields
      using from_scan by (intro Un_insert_mono) (simp_all add: image_insert_all)
    then show ?thesis
      using committed(3)
      by (simp add: snapshot_def published_def stamped_def finalizeProvenance_def all_provenances_def)
  qed (auto simp: snapshot_def)
  ultimately show ?thesis by simp
qed

end

text \<open>The synthetic backend: its scan is empty before \<open>initialize\<close> and the scenario afterwards.\<close>

definition synthetic_inv :: "SyntheticBackend \<Rightarrow> bool" where
  "synthetic_inv b \<longleftrightarrow> sb_scan b = empty_scan \<or> sb_scan b = buildSyntheticScan (sb_type b)"

interpretation synthetic: fabric_backend synthetic_inv SyntheticBackend_initialize
  SyntheticBackend_capabilities SyntheticBackend_scan
proof
  fix b
  show "synthetic_inv (snd (SyntheticBackend_initialize b))"
    by (simp add: synthetic_inv_def SyntheticBackend_initialize_def)
  show "scan_declared (SyntheticBackend_capabilities b) s" for s
    by (simp add: scan_declared_def SyntheticBackend_capabilities_def)
  show "scan_from (bc_provenance (SyntheticBackend_capabilities b)) s"
    if "synthetic_inv b" "SyntheticBackend_scan b = Inr s" for s
    using that scan_synthetic_build [of "sb_type b"]
    by (auto simp: scan_from_def scan_synthetic_def synthetic_inv_def SyntheticBackend_scan_def
        SyntheticBackend_capabilities_def empty_scan_def)
qed

text \<open>\<open>BackendCapabilities::details\<close> lists the declared kinds.\<close>

definition bc_details :: "BackendCapabilities \<Rightarrow> string list" where
  "bc_details c = map snd (filter fst
     [(bc_deviceDiscovery c, ''deviceDiscovery''), (bc_switchDiscovery c, ''switchDiscovery''),
      (bc_portDiscovery c, ''portDiscovery''), (bc_partitionDiscovery c, ''partitionDiscovery''),
      (bc_linkDiscovery c, ''linkDiscovery''), (bc_switchManagement c, ''switchManagement''),
      (bc_telemetry c, ''telemetry''), (bc_congestionCounters c, ''congestionCounters'')])"

section \<open>The NVML backend\<close>

text \<open>The answers of NVML: \<open>None\<close> is a return code other than \<open>NVML_SUCCESS\<close>; for \<open>nvmlInit\<close> the text of
  the failure is kept. A device handle is a number.\<close>

record Nvml =
  nv_init :: "string option"
  nv_count :: "u32 option"
  nv_handle :: "u32 \<Rightarrow> nat option"
  nv_name :: "nat \<Rightarrow> string option"
  nv_uuid :: "nat \<Rightarrow> string option"
  nv_capability :: "nat \<Rightarrow> (int \<times> int) option"

record NvidiaBackend =
  nb_inited :: bool
  nb_deviceCount :: int

definition NvidiaBackend_new :: NvidiaBackend where
  "NvidiaBackend_new = \<lparr>nb_inited = False, nb_deviceCount = 0\<rparr>"

definition NvidiaBackend_initialize :: "Nvml option \<Rightarrow> NvidiaBackend \<Rightarrow> unit Result \<times> NvidiaBackend" where
  "NvidiaBackend_initialize nv b =
     (case nv of
        None \<Rightarrow> (Inl (err ErrorCode.BACKEND_UNAVAILABLE ''NVML not available''), b)
      | Some nv \<Rightarrow>
          (case nv_init nv of
             Some why \<Rightarrow> (Inl (err ErrorCode.BACKEND_UNAVAILABLE (''nvmlInit failed: '' @ why)), b)
           | None \<Rightarrow>
               (case nv_count nv of
                  None \<Rightarrow> (Inl (err ErrorCode.BACKEND_ERROR ''nvmlDeviceGetCount failed''), b)
                | Some n \<Rightarrow> (Inr (), b\<lparr>nb_deviceCount := sint n, nb_inited := True\<rparr>))))"

definition NvidiaBackend_shutdown :: "Nvml option \<Rightarrow> NvidiaBackend \<Rightarrow> NvidiaBackend" where
  "NvidiaBackend_shutdown nv b = (if nv \<noteq> None \<and> nb_inited b then b\<lparr>nb_inited := False\<rparr> else b)"

definition default_BackendCapabilities :: BackendCapabilities where
  "default_BackendCapabilities = \<lparr>
     bc_deviceDiscovery = False, bc_switchDiscovery = False, bc_portDiscovery = False,
     bc_partitionDiscovery = False, bc_linkDiscovery = False, bc_switchManagement = False,
     bc_telemetry = False, bc_congestionCounters = False, bc_nvSwitchPresent = False,
     bc_provenance = Provenance.UNSUPPORTED, bc_name = []\<rparr>"

definition NvidiaBackend_capabilities :: "Nvml option \<Rightarrow> BackendCapabilities" where
  "NvidiaBackend_capabilities nv =
     (let c = default_BackendCapabilities\<lparr>bc_name := ''nvidia-nvml''\<rparr> in
      if nv \<noteq> None then c\<lparr>bc_deviceDiscovery := True, bc_provenance := Provenance.REAL\<rparr> else c)"

definition default_DeviceRecord :: DeviceRecord where
  "default_DeviceRecord = \<lparr>
     dev_id = MkId 0, dev_generation = \<lparr>dg_name = [], dg_observed = False\<rparr>, dev_present = False,
     dev_backendId = [], dev_vendor = [], dev_product = [], dev_state = EntityState.UNKNOWN,
     dev_partition = MkStringId [], dev_attachedSwitch = MkId 0, dev_attachedSwitchKnown = False,
     dev_worker = MkStringId [], dev_workerKnown = False, dev_workerBoot = 0,
     dev_provenance = Provenance.UNSUPPORTED, dev_source = EvidenceSource.UNKNOWN, dev_topologyGen = MkGen 0\<rparr>"

definition int_to_string :: "int \<Rightarrow> string" where
  "int_to_string i = (if i < 0 then CHR ''-'' # nat_to_string (nat (- i)) else nat_to_string (nat i))"

definition nvml_device :: "Nvml \<Rightarrow> nat \<Rightarrow> nat \<Rightarrow> DeviceRecord" where
  "nvml_device nv i dev = default_DeviceRecord\<lparr>
     dev_id := MkId (word_of_nat (i + 1)), dev_present := True, dev_vendor := ''NVIDIA'',
     dev_product := (case nv_name nv dev of None \<Rightarrow> [] | Some name \<Rightarrow> name),
     dev_backendId := (case nv_uuid nv dev of None \<Rightarrow> [] | Some uuid \<Rightarrow> uuid),
     dev_generation :=
       (case nv_capability nv dev of
          None \<Rightarrow> \<lparr>dg_name = [], dg_observed = False\<rparr>
        | Some (major, minor) \<Rightarrow>
            \<lparr>dg_name = ''compute_'' @ int_to_string major @ ''.'' @ int_to_string minor, dg_observed = True\<rparr>),
     dev_state := EntityState.PRESENT, dev_provenance := Provenance.REAL,
     dev_source := EvidenceSource.NVML, dev_attachedSwitchKnown := False\<rparr>"

fun nvml_devices :: "Nvml \<Rightarrow> nat list \<Rightarrow> DeviceRecord list Result" where
  "nvml_devices nv [] = Inr []"
| "nvml_devices nv (i # is) =
     (case nv_handle nv (word_of_nat i) of
        None \<Rightarrow> Inl (err ErrorCode.BACKEND_ERROR ''nvmlDeviceGetHandleByIndex'')
      | Some dev \<Rightarrow>
          (case nvml_devices nv is of Inl e \<Rightarrow> Inl e | Inr ds \<Rightarrow> Inr (nvml_device nv i dev # ds)))"

definition NvidiaBackend_scan :: "Nvml option \<Rightarrow> NvidiaBackend \<Rightarrow> Scan Result" where
  "NvidiaBackend_scan nv b =
     (case nv of
        None \<Rightarrow> Inl (err ErrorCode.BACKEND_UNAVAILABLE ''NVML not compiled'')
      | Some nv \<Rightarrow>
          if \<not> nb_inited b then Inl (err ErrorCode.BACKEND_UNAVAILABLE ''not initialized'')
          else (case nvml_devices nv [0..<nat (nb_deviceCount b)] of
                  Inl e \<Rightarrow> Inl e
                | Inr ds \<Rightarrow> Inr (empty_scan\<lparr>sc_devices := ds\<rparr>)))"

text \<open>The C++ stops at the first failing handle; so does the recursion, whose result is the list of
  records exactly when every handle is found.\<close>

lemma nvml_device_simps [simp]:
  "dev_id (nvml_device nv i dev) = MkId (word_of_nat (i + 1))" "dev_provenance (nvml_device nv i dev) = Provenance.REAL"
  "dev_source (nvml_device nv i dev) = EvidenceSource.NVML" "\<not> dev_attachedSwitchKnown (nvml_device nv i dev)"
  by (simp_all add: nvml_device_def)

lemma nvml_devices_records:
  "nvml_devices nv is = Inr ds \<Longrightarrow> d \<in> set ds \<Longrightarrow>
   dev_provenance d = Provenance.REAL \<and> dev_source d = EvidenceSource.NVML \<and> \<not> dev_attachedSwitchKnown d"
  by (induction "is" arbitrary: ds) (auto split: option.splits sum.splits)

lemma nvml_devices_ids:
  "nvml_devices nv is = Inr ds \<Longrightarrow> map dev_id ds = map (\<lambda>i. MkId (word_of_nat (i + 1))) is"
  by (induction "is" arbitrary: ds) (auto split: option.splits sum.splits)

lemma NvidiaBackend_scan_shape:
  assumes "NvidiaBackend_scan nv b = Inr s"
  obtains ds where "s = empty_scan\<lparr>sc_devices := ds\<rparr>" "nv \<noteq> None" "nvml_devices (the nv) [0..<nat (nb_deviceCount b)] = Inr ds"
  using assms by (auto simp: NvidiaBackend_scan_def split: option.splits if_splits sum.splits)

interpretation nvidia: fabric_backend "\<lambda>b. True" "NvidiaBackend_initialize nv"
  "\<lambda>b. NvidiaBackend_capabilities nv" "NvidiaBackend_scan nv" for nv
proof
  fix b s
  assume "NvidiaBackend_scan nv b = Inr s"
  then obtain ds where s: "s = empty_scan\<lparr>sc_devices := ds\<rparr>" "nv \<noteq> None"
    "nvml_devices (the nv) [0..<nat (nb_deviceCount b)] = Inr ds"
    by (rule NvidiaBackend_scan_shape)
  show "scan_from (bc_provenance (NvidiaBackend_capabilities nv)) s"
    using s(1,2) nvml_devices_records [OF s(3)]
    by (simp add: scan_from_def NvidiaBackend_capabilities_def empty_scan_def Let_def)
  show "scan_declared (NvidiaBackend_capabilities nv) s"
    using s(1,2) by (simp add: scan_declared_def NvidiaBackend_capabilities_def empty_scan_def Let_def)
qed simp

text \<open>Without links there is nothing to route over.\<close>

lemma linkless_paths: "t_links t = [] \<Longrightarrow> enumeratePaths t src dst cfg = []"
  by (simp add: enumeratePaths_def swEdges_def deviceEdges_def seeds_def om_map_def om_values_def stable_sort_def split: option.split)

lemma linkless_route:
  assumes "t_links (snapshot r) = []" "fst (route src dst policy now r) = Inr d"
  shows "\<not> outcome_allowed (rd_outcome d) \<and> \<not> rd_authoritative d"
proof -
  obtain d0 where c: "computeRoute (snapshot r) src dst policy (Some (r_measurements r))
      (MkId (r_nextDecisionId r)) (MkGen 0) (MkStringId (''snap'' @ u64_to_string (t_id (snapshot r)))) now (r_epoch r) = Inr d0"
    using computeRoute_total by blast
  then have "rd_outcome d = rd_outcome d0" "rd_authoritative d = rd_authoritative d0"
    using assms(2) by (auto simp: route_def route_read_def route_draw_def route_compute_def snapshot_def Let_def)
  moreover have "rd_selected d0 = None"
    using computeRoute_allowed_iff(3) [OF c] linkless_paths [OF assms(1)] by (simp add: candidates_def eligible_paths_def)
  ultimately show ?thesis
    using computeRoute_allowed_iff(1,2) [OF c] by simp
qed

lemma linkless_reachability:
  assumes "t_links (snapshot r) = []" "src \<noteq> dst"
  shows "\<not> reachable_answer (reachability r src dst)"
proof -
  have "\<not> reachable_answer (path_reachability (snapshot r) (enumeratePaths (snapshot r) src dst default_TraversalConfig))"
    using path_reachability_iff linkless_paths [OF assms(1)] by simp
  then show ?thesis
    using assms(2) by (auto simp: reachability_def deviceReachability_def reachable_answer_def split: option.split)
qed

text \<open>What a scan of the NVML backend leaves in a registry without a fabric.\<close>

definition fabric_free :: "FabricTopology \<Rightarrow> bool" where
  "fabric_free t \<longleftrightarrow> t_switches t = [] \<and> t_ports t = [] \<and> t_links t = [] \<and> t_partitions t = []"

lemma nvidia_scan_fabric_free:
  assumes "r_backend r = Some \<lparr>bk_capabilities = NvidiaBackend_capabilities nv, bk_scan = NvidiaBackend_scan nv b\<rparr>"
    and "fabric_free (snapshot r)"
  shows "fabric_free (snapshot (snd (scanBackend now r)))"
proof (cases "nv = None \<or> (\<exists>e. NvidiaBackend_scan nv b = Inl e)")
  case True
  then show ?thesis
    using assms by (auto simp: scanBackend_def NvidiaBackend_capabilities_def default_BackendCapabilities_def Let_def)
next
  case False
  then obtain s where s: "NvidiaBackend_scan nv b = Inr s" and nv: "nv \<noteq> None"
    by (cases "NvidiaBackend_scan nv b") auto
  then obtain ds where ds: "s = empty_scan\<lparr>sc_devices := ds\<rparr>"
    by (blast elim: NvidiaBackend_scan_shape)
  obtain res r' where t: "transact_with ''bulk rejected: '' (applyBulk_edit (bulk_of_scan s)) now r = (res, r')"
    by fastforce
  then have "snapshot (snd (scanBackend now r)) = snapshot r'"
    using nv assms(1) s
    by (simp add: scanBackend_def applyBackendScan_def applyBulk_def NvidiaBackend_capabilities_def Let_def split: sum.split)
  moreover have "fabric_free (snapshot r')"
    using t
  proof (cases rule: transact_cases)
    case (committed cand)
    then show ?thesis
      using assms(2) by (auto simp: fabric_free_def snapshot_def published_def stamped_def finalizeProvenance_def
          applyBulk_edit_def bulk_of_scan_def ds empty_scan_def om_insert_all_def)
  qed (use assms(2) in simp_all)
  ultimately show ?thesis by simp
qed

section \<open>The CUDA kernel module\<close>

text \<open>The answers of the CUDA runtime: the device count (\<open>None\<close> on an error), the properties of device 0,
  and whether each later call succeeds, in the order of the calls; \<open>cu_malloc\<close> and \<open>cu_copyIn\<close> list the
  successes of the allocations and of the copies to the device. The arrays hold small integers, which
  \<open>float\<close> represents and adds exactly, so that the device and host arrays are lists of \<open>int\<close> and the
  comparison of the difference with \<open>1e-4f\<close> is the comparison with 0.\<close>

record Cuda =
  cu_count :: "int option"
  cu_props :: "(int \<times> int \<times> string) option"
  cu_malloc :: "bool \<times> bool \<times> bool"
  cu_copyIn :: "bool \<times> bool"
  cu_launch :: bool
  cu_sync :: bool
  cu_copyOut :: bool
  cu_reset :: bool

record NvfCudaKernelProof =
  kp_ok :: int
  kp_errorCode :: int
  kp_count :: int
  kp_major :: int
  kp_minor :: int
  kp_bytes :: u64
  kp_name :: string
  kp_allocOk :: int
  kp_h2dOk :: int
  kp_kernelOk :: int
  kp_d2hOk :: int
  kp_parityOk :: int
  kp_baselineOk :: int

definition NvfCudaKernelProof_new :: NvfCudaKernelProof where
  "NvfCudaKernelProof_new = \<lparr>kp_ok = 0, kp_errorCode = 0, kp_count = 0, kp_major = 0, kp_minor = 0,
     kp_bytes = 0, kp_name = [], kp_allocOk = 0, kp_h2dOk = 0, kp_kernelOk = 0, kp_d2hOk = 0,
     kp_parityOk = 0, kp_baselineOk = 0\<rparr>"

definition kCount :: nat where
  "kCount = 2 ^ 20"

text \<open>One thread of the kernel, and the grid of \<open>(n + 255) / 256\<close> blocks of 256 threads. The threads write
  different elements, so that their order does not matter.\<close>

definition vadd :: "int list \<Rightarrow> int list \<Rightarrow> nat \<Rightarrow> nat \<Rightarrow> nat \<Rightarrow> nat \<Rightarrow> int list \<Rightarrow> int list" where
  "vadd a b n blockDim blockIdx threadIdx c =
     (let i = blockIdx * blockDim + threadIdx in if i < n then c[i := a ! i + b ! i] else c)"

definition vadd_grid :: "int list \<Rightarrow> int list \<Rightarrow> nat \<Rightarrow> int list \<Rightarrow> int list" where
  "vadd_grid a b n c =
     fold (\<lambda>(blk, th). vadd a b n 256 blk th) (List.product [0..<(n + 255) div 256] [0..<256]) c"

definition parity :: "int list \<Rightarrow> int list \<Rightarrow> int list \<Rightarrow> nat \<Rightarrow> bool" where
  "parity ha hb hc n = list_all (\<lambda>i. hc ! i = ha ! i + hb ! i) [0..<n]"

definition nvfCudaKernelProof :: "Cuda \<Rightarrow> NvfCudaKernelProof \<times> int" where
  "nvfCudaKernelProof cu =
     (let r = NvfCudaKernelProof_new\<lparr>kp_bytes := of_nat (kCount * 4)\<rparr> in
      case cu_count cu of
        None \<Rightarrow> (r, 0)
      | Some n \<Rightarrow>
          if n \<le> 0 then (r, 0)
          else
            let r = r\<lparr>kp_count := n\<rparr>;
                r = (case cu_props cu of
                       None \<Rightarrow> r
                     | Some (major, minor, name) \<Rightarrow>
                         r\<lparr>kp_major := major, kp_minor := minor, kp_name := take 255 name\<rparr>)
            in if \<not> (case cu_malloc cu of (ok1, ok2, ok3) \<Rightarrow> ok1 \<and> ok2 \<and> ok3) then (r\<lparr>kp_errorCode := 1\<rparr>, 0)
            else
              let r = r\<lparr>kp_allocOk := 1\<rparr>;
                  ha = map (\<lambda>i. int (i mod 17)) [0..<kCount]; hb = map (\<lambda>i. int (i mod 13)) [0..<kCount]
              in if \<not> (case cu_copyIn cu of (ok1, ok2) \<Rightarrow> ok1 \<and> ok2) then (r\<lparr>kp_errorCode := 2\<rparr>, 0)
              else
                let r = r\<lparr>kp_h2dOk := 1\<rparr>; c = vadd_grid ha hb kCount (replicate kCount 0)
                in if \<not> cu_launch cu then (r\<lparr>kp_errorCode := 3\<rparr>, 0)
                else if \<not> cu_sync cu then (r\<lparr>kp_errorCode := 4\<rparr>, 0)
                else
                  let r = r\<lparr>kp_kernelOk := 1\<rparr>
                  in if \<not> cu_copyOut cu then (r\<lparr>kp_errorCode := 5\<rparr>, 0)
                  else
                    (r\<lparr>kp_d2hOk := 1, kp_parityOk := (if parity ha hb c kCount then 1 else 0),
                       kp_baselineOk := (if cu_reset cu then 1 else 0), kp_ok := 1\<rparr>, 0))"

text \<open>The host side reports what the module found.\<close>

record CudaProofResult =
  cp_cudaPresent :: bool
  cp_deviceDiscovery :: bool
  cp_allocation :: bool
  cp_kernel :: bool
  cp_cpuParity :: bool
  cp_baselineReturned :: bool
  cp_deviceCount :: int
  cp_major :: int
  cp_minor :: int
  cp_deviceName :: string
  cp_detail :: string

definition runCudaProof :: "Cuda option \<Rightarrow> CudaProofResult" where
  "runCudaProof cu =
     (case cu of
        None \<Rightarrow> \<lparr>cp_cudaPresent = False, cp_deviceDiscovery = False, cp_allocation = False,
          cp_kernel = False, cp_cpuParity = False, cp_baselineReturned = False, cp_deviceCount = 0,
          cp_major = 0, cp_minor = 0, cp_deviceName = [], cp_detail = ''CUDA not compiled/available''\<rparr>
      | Some cu \<Rightarrow>
          (case nvfCudaKernelProof cu of
             (p, rc) \<Rightarrow> \<lparr>cp_cudaPresent = (rc = 0), cp_deviceDiscovery = (kp_count p > 0),
               cp_allocation = (kp_allocOk p \<noteq> 0), cp_kernel = (kp_kernelOk p \<noteq> 0),
               cp_cpuParity = (kp_parityOk p \<noteq> 0), cp_baselineReturned = (kp_baselineOk p \<noteq> 0),
               cp_deviceCount = kp_count p, cp_major = kp_major p, cp_minor = kp_minor p,
               cp_deviceName = kp_name p,
               cp_detail =
                 (if rc \<noteq> 0 then ''CUDA runtime present but device unavailable''
                  else if kp_parityOk p \<noteq> 0 then ''CUDA proof OK: alloc/H2D/kernel/sync/D2H/parity/baseline''
                  else ''CUDA kernel executed but parity mismatch'')\<rparr>))"

text \<open>The grid writes every element once.\<close>

lemma vadd_index: "vadd a b n m blk th c = (if blk * m + th < n then c[blk * m + th := a ! (blk * m + th) + b ! (blk * m + th)] else c)"
  by (simp add: vadd_def Let_def)

lemma vadd_fold:
  "length (fold (\<lambda>(blk, th). vadd a b n 256 blk th) ts c) = length c \<and>
   (i < length c \<longrightarrow> i < n \<longrightarrow>
     fold (\<lambda>(blk, th). vadd a b n 256 blk th) ts c ! i =
       (if \<exists>(blk, th) \<in> set ts. blk * 256 + th = i then a ! i + b ! i else c ! i))"
proof (induction ts arbitrary: c)
  case (Cons t ts)
  obtain blk th where "t = (blk, th)"
    by fastforce
  then show ?case
    using Cons.IH [of "vadd a b n 256 blk th c"]
    by (auto simp: vadd_index nth_list_update)
qed simp

lemma vadd_grid_nth:
  assumes "i < n" "n \<le> length c"
  shows "vadd_grid a b n c ! i = a ! i + b ! i"
proof -
  have "i div 256 < (n + 255) div 256"
    using assms(1) by linarith
  then have "(i div 256, i mod 256) \<in> set (List.product [0..<(n + 255) div 256] [0..<256])"
    unfolding set_product set_upt by simp
  moreover have "i div 256 * 256 + i mod 256 = i"
    by simp
  ultimately have "\<exists>(blk, th) \<in> set (List.product [0..<(n + 255) div 256] [0..<256]). blk * 256 + th = i"
    by blast
  then show ?thesis
    unfolding vadd_grid_def
    using vadd_fold [of a b n "List.product [0..<(n + 255) div 256] [0..<256]" c i] assms by simp
qed

lemma parity_grid: "n \<le> length c \<Longrightarrow> parity a b (vadd_grid a b n c) n"
  by (simp add: parity_def list_all_iff vadd_grid_nth)

section \<open>Properties\<close>

text \<open>
  (C39) The NVML backend never fabricates a fabric: whatever NVML answers, after a scan by a fresh
  registry bound to it there is no switch, port, link or partition, the snapshot is never
  presented as synthetic, every route query between devices is refused without authority, and
  no two different devices are reported reachable.
\<close>

theorem nvidia_scan_fabricates_nothing:
  assumes "r = snd (scanBackend now (snd (bindBackend
      (Some \<lparr>bk_capabilities = NvidiaBackend_capabilities nv, bk_scan = NvidiaBackend_scan nv b\<rparr>) FabricRegistry_new)))"
  shows "fabric_free (snapshot r) \<and> t_provenance (snapshot r) \<noteq> Provenance.SYNTHETIC \<and>
    (\<forall>src dst policy now d. fst (route src dst policy now r) = Inr d \<longrightarrow>
       \<not> outcome_allowed (rd_outcome d) \<and> \<not> rd_authoritative d) \<and>
    (\<forall>src dst. src \<noteq> dst \<longrightarrow> \<not> reachable_answer (reachability r src dst))"
proof -
  let ?r = "snd (bindBackend (Some \<lparr>bk_capabilities = NvidiaBackend_capabilities nv,
    bk_scan = NvidiaBackend_scan nv b\<rparr>) FabricRegistry_new)"
  have bound: "r_backend ?r = Some \<lparr>bk_capabilities = NvidiaBackend_capabilities nv, bk_scan = NvidiaBackend_scan nv b\<rparr>"
    by (simp add: bindBackend_def)
  have fresh: "fabric_free (snapshot ?r)" "all_provenances (snapshot ?r) = []" "reg_inv ?r"
    using reg_inv_new by (simp_all add: bindBackend_def snapshot_def FabricRegistry_new_def default_FabricTopology_def
        fabric_free_def all_provenances_def om_values_def reg_inv_def)
  have free: "fabric_free (snapshot r)"
    using nvidia_scan_fabric_free [OF bound fresh(1)] assms by simp
  have "reg_inv r"
    using fresh(3) assms reg_inv_scanBackend by simp
  then have "t_provenance (snapshot r) = summary_provenance (snapshot r)"
    by (simp add: reg_inv_def snapshot_def)
  moreover have "set (all_provenances (snapshot r)) \<subseteq> {bc_provenance (NvidiaBackend_capabilities nv)}"
    using nvidia.scanned_provenances [OF TrueI bound, of now] fresh(2) assms by simp
  moreover have "bc_provenance (NvidiaBackend_capabilities nv) \<noteq> Provenance.SYNTHETIC"
    by (simp add: NvidiaBackend_capabilities_def default_BackendCapabilities_def Let_def)
  ultimately have "t_provenance (snapshot r) \<noteq> Provenance.SYNTHETIC"
    by (auto simp: summary_provenance_def)
  then show ?thesis
    using free linkless_route [of r] linkless_reachability [of r] by (auto simp: fabric_free_def)
qed

definition sample_nvml :: Nvml where
  "sample_nvml = \<lparr>nv_init = None, nv_count = Some 2, nv_handle = \<lambda>i. Some (unat i),
     nv_name = \<lambda>h. Some ''GPU'', nv_uuid = \<lambda>h. None, nv_capability = \<lambda>h. Some (9, 0)\<rparr>"

definition sample_nvml_registry :: FabricRegistry where
  "sample_nvml_registry = snd (scanBackend 5 (snd (bindBackend
     (Some \<lparr>bk_capabilities = NvidiaBackend_capabilities (Some sample_nvml),
        bk_scan = NvidiaBackend_scan (Some sample_nvml)
          (snd (NvidiaBackend_initialize (Some sample_nvml) NvidiaBackend_new))\<rparr>) FabricRegistry_new)))"

lemma sample_nvml_devices:
  "map fst (t_devices (snapshot sample_nvml_registry)) = [MkId 1, MkId 2] \<and>
   t_provenance (snapshot sample_nvml_registry) = Provenance.REAL"
  by code_simp

theorem nvidia_scan_fabricates_nothing_witness:
  "map fst (t_devices (snapshot sample_nvml_registry)) = [MkId 1, MkId 2] \<and>
   \<not> reachable_answer (reachability sample_nvml_registry (MkId 1) (MkId 2))"
  using nvidia_scan_fabricates_nothing [OF sample_nvml_registry_def] sample_nvml_devices by simp

text \<open>
  The CUDA proof, with a device present: a stage is claimed exactly when its calls and those of all
  earlier stages succeed; in particular the grid covers all elements, so that the parity check
  passes whenever the result is copied back.
\<close>

theorem cuda_proof_stages:
  assumes "cu_count cu = Some n" and "0 < n"
  shows "cp_deviceDiscovery (runCudaProof (Some cu)) \<and>
    (cp_allocation (runCudaProof (Some cu)) \<longleftrightarrow> cu_malloc cu = (True, True, True)) \<and>
    (cp_kernel (runCudaProof (Some cu)) \<longleftrightarrow> cu_malloc cu = (True, True, True) \<and>
       cu_copyIn cu = (True, True) \<and> cu_launch cu \<and> cu_sync cu) \<and>
    (cp_cpuParity (runCudaProof (Some cu)) \<longleftrightarrow> cp_kernel (runCudaProof (Some cu)) \<and> cu_copyOut cu) \<and>
    (cp_baselineReturned (runCudaProof (Some cu)) \<longleftrightarrow> cp_cpuParity (runCudaProof (Some cu)) \<and> cu_reset cu)"
proof -
  let ?a = "map (\<lambda>i. int (i mod 17)) [0..<kCount]" and ?b = "map (\<lambda>i. int (i mod 13)) [0..<kCount]"
  have "parity ?a ?b (vadd_grid ?a ?b kCount (replicate kCount 0)) kCount"
    by (rule parity_grid) simp
  note ends = this assms not_le runCudaProof_def nvfCudaKernelProof_def NvfCudaKernelProof_new_def Let_def
  obtain m1 m2 m3 c1 c2 where calls: "cu_malloc cu = (m1, m2, m3)" "cu_copyIn cu = (c1, c2)"
    by (metis prod_cases3 surj_pair)
  consider "\<not> (m1 \<and> m2 \<and> m3)" | "m1 \<and> m2 \<and> m3" "\<not> (c1 \<and> c2)" | "m1 \<and> m2 \<and> m3" "c1 \<and> c2"
    by blast
  then show ?thesis
  proof cases
    case 3
    then show ?thesis
      by (cases "cu_launch cu"; cases "cu_sync cu"; cases "cu_copyOut cu") (simp_all add: calls ends split: option.split)
  qed (auto simp: calls ends split: option.split)
qed

theorem cuda_proof_stages_witness:
  "cp_cpuParity (runCudaProof (Some \<lparr>cu_count = Some 1, cu_props = None, cu_malloc = (True, True, True),
     cu_copyIn = (True, True), cu_launch = True, cu_sync = True, cu_copyOut = True, cu_reset = False\<rparr>))"
  using cuda_proof_stages [of "\<lparr>cu_count = Some 1, cu_props = None, cu_malloc = (True, True, True),
     cu_copyIn = (True, True), cu_launch = True, cu_sync = True, cu_copyOut = True, cu_reset = False\<rparr>" 1]
  by simp

text \<open>
  Without a device the report is misleading: when the runtime finds no device, the module still
  returns 0, so that CUDA is reported as present and the detail claims that a kernel was executed.
\<close>

theorem cuda_absent_reported_present:
  assumes "cu_count cu = None"
  shows "cp_cudaPresent (runCudaProof (Some cu)) \<and> \<not> cp_kernel (runCudaProof (Some cu)) \<and>
    cp_detail (runCudaProof (Some cu)) = ''CUDA kernel executed but parity mismatch''"
  using assms by (simp add: runCudaProof_def nvfCudaKernelProof_def NvfCudaKernelProof_new_def)

end
