(* ===== verification/Fabric_Restart.thy ===== *)
theory Fabric_Restart
  imports Fabric_Coordination
begin

text \<open>
  Restarting the coordinator from a file it has written: the bulk edit that rebuilds a saved snapshot
  in a fresh registry and the expiry that follows it are always accepted, so that the restarted
  coordinator has exactly the saved records, with the dynamic ones awaiting revalidation.
\<close>

section \<open>Both transactions are accepted\<close>

lemma transact_accepted:
  assumes "edit (r_current r) = Inr c" "topo_wf c" "integral c" "within_limits c" "gens_monotone (r_current r) c"
  shows "transact_with pfx edit now r = (Inr (stamped r c), published now (stamped r c) r)"
proof -
  obtain res r' where t: "transact_with pfx edit now r = (res, r')"
    by fastforce
  have "candidate_problem (r_current r) (finalizeProvenance c) = None"
    using candidate_problem_None [of "finalizeProvenance c" "r_current r"] assms(2-5) by simp
  with t assms(1) show ?thesis
    by (auto elim: transact_cases)
qed

text \<open>What the expiry does to one record.\<close>

definition expired_device :: "DeviceRecord \<Rightarrow> DeviceRecord" where
  "expired_device x = (if dynamic (dev_workerKnown x) (dev_provenance x)
     then x\<lparr>dev_state := EntityState.REVALIDATION_REQUIRED\<rparr> else x)"

definition expired_switch :: "SwitchRecord \<Rightarrow> SwitchRecord" where
  "expired_switch x = (if dynamic (sw_workerKnown x) (sw_provenance x)
     then x\<lparr>sw_state := EntityState.REVALIDATION_REQUIRED\<rparr> else x)"

definition expired_port :: "SwitchPortRecord \<Rightarrow> SwitchPortRecord" where
  "expired_port x = (if dynamic (po_workerKnown x) (po_provenance x)
     then x\<lparr>po_state := EntityState.REVALIDATION_REQUIRED\<rparr> else x)"

definition expired_link :: "LinkRecord \<Rightarrow> LinkRecord" where
  "expired_link x = (if dynamic (li_workerKnown x) (li_provenance x)
     then x\<lparr>li_state := EntityState.REVALIDATION_REQUIRED\<rparr> else x)"

definition expired_partition :: "FabricPartition \<Rightarrow> FabricPartition" where
  "expired_partition x = (if dynamic (pa_workerKnown x) (pa_provenance x)
     then x\<lparr>pa_state := PartitionState.REVALIDATION_REQUIRED\<rparr> else x)"

lemmas expired_defs = expired_device_def expired_switch_def expired_port_def expired_link_def expired_partition_def

lemma expire_edit:
  "expireDynamicEvidence_edit t = Inr (bump (t\<lparr>t_switches := om_map expired_switch (t_switches t),
     t_ports := om_map expired_port (t_ports t), t_links := om_map expired_link (t_links t),
     t_partitions := om_map expired_partition (t_partitions t), t_devices := om_map expired_device (t_devices t)\<rparr>))"
  by (simp add: expireDynamicEvidence_edit_def expired_defs [abs_def])

lemma expire_accepted:
  assumes "reg_inv r" "gen_get (t_topologyGen (r_current r)) \<noteq> - 1"
  shows "\<exists>t. fst (expireDynamicEvidence now r) = Inr t"
proof -
  let ?r = "r\<lparr>r_measurements := map (\<lambda>m. m\<lparr>me_matched := False\<rparr>) (r_measurements r)\<rparr>"
  obtain c where c: "expireDynamicEvidence_edit (r_current r) = Inr c"
    by (simp add: expire_edit)
  have "topo_wf c"
    using c assms(1) expireDynamicEvidence.edit_wf by (auto simp: reg_inv_def)
  moreover have "integral c"
  proof (rule integral_maps)
    show "integral (r_current r)"
      using assms(1) by (simp add: reg_inv_def)
    show "t_devices c = om_map expired_device (t_devices (r_current r))"
      "t_switches c = om_map expired_switch (t_switches (r_current r))"
      "t_ports c = om_map expired_port (t_ports (r_current r))"
      "t_links c = om_map expired_link (t_links (r_current r))"
      "t_partitions c = om_map expired_partition (t_partitions (r_current r))"
      using c by (auto simp: expire_edit)
  qed (simp_all add: expired_defs)
  moreover have "within_limits c"
    using c assms(1) by (auto simp: expire_edit reg_inv_def within_limits_def)
  moreover have "t_topologyGen (r_current r) \<le> gen_next (t_topologyGen (r_current r))"
    using assms(2) by (rule le_gen_next)
  then have "gens_monotone (r_current r) c"
    using c by (auto simp: expire_edit gens_monotone_def gens_le_def expired_defs bump_def)
  ultimately show ?thesis
    using transact_accepted [of expireDynamicEvidence_edit ?r c] c by (auto simp: expireDynamicEvidence_def)
qed

lemma expire_records:
  assumes "fst (expireDynamicEvidence now r) = Inr t"
  shows "t_devices t = om_map expired_device (t_devices (r_current r)) \<and>
    t_switches t = om_map expired_switch (t_switches (r_current r)) \<and>
    t_ports t = om_map expired_port (t_ports (r_current r)) \<and>
    t_links t = om_map expired_link (t_links (r_current r)) \<and>
    t_partitions t = om_map expired_partition (t_partitions (r_current r)) \<and>
    t_topologyGen t = gen_next (t_topologyGen (r_current r))"
proof -
  let ?r = "r\<lparr>r_measurements := map (\<lambda>m. m\<lparr>me_matched := False\<rparr>) (r_measurements r)\<rparr>"
  have "fst (transact expireDynamicEvidence_edit now ?r) = Inr t"
    using assms by (simp add: expireDynamicEvidence_def)
  then obtain cand where "expireDynamicEvidence_edit (r_current ?r) = Inr cand" "t = stamped ?r cand"
    by (rule committed_snapshot)
  then show ?thesis
    by (auto simp: expire_edit)
qed

text \<open>Rebuilding a well-formed snapshot in a registry without records.\<close>

definition bare :: "FabricTopology \<Rightarrow> bool" where
  "bare t \<longleftrightarrow> t_devices t = [] \<and> t_switches t = [] \<and> t_ports t = [] \<and> t_links t = [] \<and> t_partitions t = [] \<and>
     t_topologyGen t = MkGen 0"

definition same_records :: "FabricTopology \<Rightarrow> FabricTopology \<Rightarrow> bool" where
  "same_records t t' \<longleftrightarrow> t_devices t' = t_devices t \<and> t_switches t' = t_switches t \<and> t_ports t' = t_ports t \<and>
     t_links t' = t_links t \<and> t_partitions t' = t_partitions t"

lemma same_records_facts:
  assumes "same_records t t'"
  shows "topo_wf t' = topo_wf t" "integral t' = integral t" "within_limits t' = within_limits t"
    "summary_provenance t' = summary_provenance t"
proof -
  have look: "lookupSwitch t' = lookupSwitch t" "lookupPort t' = lookupPort t" "lookupDevice t' = lookupDevice t"
    using assms by (simp_all add: same_records_def lookup_defs fun_eq_iff)
  then have "port_integral t' = port_integral t" "link_integral t' = link_integral t"
    "partition_integral t' = partition_integral t"
    by (simp_all add: fun_eq_iff port_integral_def link_integral_def end_integral_def partition_integral_def)
  then show "integral t' = integral t"
    using assms by (simp add: integral_def same_records_def)
  show "topo_wf t' = topo_wf t" "within_limits t' = within_limits t" "summary_provenance t' = summary_provenance t"
    using assms by (simp_all add: topo_wf_def within_limits_def same_records_def summary_provenance_def all_provenances_def)
qed

lemma rebuild_accepted:
  assumes "bare (r_current r)" "topo_wf t" "integral t" "within_limits t"
  shows "\<exists>t'. fst (applyBulk (bulk_of_topology t) now r) = Inr t' \<and>
    r_current (snd (applyBulk (bulk_of_topology t) now r)) = t' \<and> same_records t t' \<and>
    t_topologyGen t' = MkGen 1 \<and> t_provenance t' = summary_provenance t"
proof -
  obtain c where c: "applyBulk_edit (bulk_of_topology t) (r_current r) = Inr c"
    by (simp add: applyBulk_edit_def)
  have same: "same_records t c" and gen: "t_topologyGen c = MkGen 1"
    using c assms(1,2) by (auto simp: applyBulk_edit_def bulk_of_topology_def same_records_def bare_def topo_wf_def
        om_insert_all_values gen_next_def)
  have "gens_monotone (r_current r) c"
    using assms(1) gen by (simp add: gens_monotone_def gens_le_def bare_def gen_le_iff)
  then have "applyBulk (bulk_of_topology t) now r = (Inr (stamped r c), published now (stamped r c) r)"
    unfolding applyBulk_def using c same_records_facts [OF same] assms(2-4) by (intro transact_accepted) simp_all
  then show ?thesis
    using same gen same_records_facts(4) [OF same]
    by (simp add: same_records_def stamped_def finalizeProvenance_def published_def)
qed

section \<open>Property\<close>

text \<open>
  (C37) A restarted coordinator recovers what was saved: when a registry has been written to the file
  the coordinator is started with, the restarted coordinator runs in its own epoch and holds
  exactly the saved devices, switches, ports, links and partitions; those that came from a
  worker or from hardware await revalidation, all others are unchanged. The topology generation
  starts again at 2.
\<close>

theorem restart_recovers:
  assumes "reg_reaches FabricRegistry_new r" and "persistable (snapshot r)"
    and "fst (persistTo path r fs) = Inr ()"
    and "c = sy_coord (System_start os port True path epoch now (snd (persistTo path r fs)))"
  shows "coordinator_epoch c = epoch \<and> t_topologyGen (snapshot (cd_registry c)) = MkGen 2 \<and>
    t_devices (snapshot (cd_registry c)) = om_map expired_device (t_devices (snapshot r)) \<and>
    t_switches (snapshot (cd_registry c)) = om_map expired_switch (t_switches (snapshot r)) \<and>
    t_ports (snapshot (cd_registry c)) = om_map expired_port (t_ports (snapshot r)) \<and>
    t_links (snapshot (cd_registry c)) = om_map expired_link (t_links (snapshot r)) \<and>
    t_partitions (snapshot (cd_registry c)) = om_map expired_partition (t_partitions (snapshot r))"
proof -
  define c0 where "c0 = setPersistPath path (coordinator_setEpoch epoch (Coordinator_new\<lparr>cd_files := snd (persistTo path r fs)\<rparr>))"
  have c0: "cd_registry c0 = FabricRegistry_new\<lparr>r_epoch := epoch\<rparr>" "cd_files c0 = snd (persistTo path r fs)"
    by (simp_all add: c0_def setPersistPath_def coordinator_setEpoch_def Coordinator_new_def setEpoch_def)
  obtain saved where saved: "restoreFrom path (cd_files c0) = Inr saved" "snapshot saved = snapshot r"
    using restored_image [OF assms(1-3)] c0(2) by auto
  define r1 where "r1 = snd (applyBulk (bulk_of_topology (snapshot r)) now (cd_registry c0))"
  have c: "cd_registry c = snd (expireDynamicEvidence now r1)"
    using saved by (simp add: assms(4) System_start_def restoreFromAndRevalidate_def r1_def c0_def Let_def)
  have inv: "topo_wf (snapshot r)" "integral (snapshot r)" "within_limits (snapshot r)"
    using reg_reaches_inv [OF assms(1) reg_inv_new] by (simp_all add: reg_inv_def snapshot_def)
  have "bare (r_current (cd_registry c0))"
    by (simp add: c0 bare_def FabricRegistry_new_def default_FabricTopology_def)
  from rebuild_accepted [OF this inv, of now]
  have r1: "same_records (snapshot r) (r_current r1)" "t_topologyGen (r_current r1) = MkGen 1"
    by (auto simp: r1_def)
  have "reg_inv r1"
    unfolding r1_def c0 using reg_inv_new by (intro reg_inv_applyBulk) (simp add: reg_inv_def)
  then obtain t where t: "fst (expireDynamicEvidence now r1) = Inr t"
    using expire_accepted r1(2) by fastforce
  have "r_current (cd_registry c) = t" "r_epoch (cd_registry c) = r_epoch r1"
    using expire_lookups(1,2) [OF t] by (simp_all add: c)
  moreover have "r_epoch r1 = epoch"
    by (simp add: r1_def c0 applyBulk_def transact_epoch)
  moreover have "t_devices t = om_map expired_device (t_devices (r_current r1)) \<and>
    t_switches t = om_map expired_switch (t_switches (r_current r1)) \<and>
    t_ports t = om_map expired_port (t_ports (r_current r1)) \<and>
    t_links t = om_map expired_link (t_links (r_current r1)) \<and>
    t_partitions t = om_map expired_partition (t_partitions (r_current r1)) \<and>
    t_topologyGen t = gen_next (t_topologyGen (r_current r1))"
    by (rule expire_records [OF t])
  ultimately show ?thesis
    using r1 by (simp add: coordinator_epoch_def snapshot_def same_records_def gen_next_def)
qed

lemma pair_persists: "fst (persistTo ''f'' pair_registry Map.empty) = Inr ()"
  using pair_image_small by (simp add: persistTo_def serializeToFile_def pair_image_accepted(3) limit_defs)

theorem restart_recovers_witness:
  "coordinator_epoch (sy_coord (System_start sample_os 0 True ''f'' 4 9 (snd (persistTo ''f'' pair_registry Map.empty)))) = 4 \<and>
   t_links (snapshot (cd_registry (sy_coord (System_start sample_os 0 True ''f'' 4 9
     (snd (persistTo ''f'' pair_registry Map.empty)))))) = om_map expired_link (t_links (snapshot pair_registry))"
  using restart_recovers [OF sample_reached pair_persistable pair_persists refl] by blast

end
