(* ===== verification/Fabric_Tools.thy ===== *)
theory Fabric_Tools
  imports Fabric_Hardware Fabric_Restart Fabric_Worker
begin

text \<open>
  The command line programs: the inspection tool (\<open>tools/nvswitch_fabric_inspect.cpp\<close>) and the
  entries of the coordinator and worker processes (\<open>coordinatorMain\<close>, \<open>workerMain\<close>). A run of the inspection tool is a function of
  its arguments, the clock readings, the file system and the answers of NVML and CUDA to its exit code
  and what it printed; an uncaught exception is a result of its own.
\<close>

section \<open>Conversions of the C library\<close>

text \<open>\<open>strtoull(s, nullptr, 10)\<close>: white space, a sign, decimal digits; the result saturates, and a minus
  sign negates in 64 bits. \<open>atoi\<close> is the signed value; outside the range of \<open>int\<close> the C library leaves
  it undefined. \<open>c_str\<close> is what \<open>%s\<close> prints of a \<open>std::string\<close>: it stops at a zero byte.\<close>

definition is_space :: "char \<Rightarrow> bool" where
  "is_space c \<longleftrightarrow> c = CHR '' '' \<or> (9 \<le> (of_char c :: nat) \<and> (of_char c :: nat) \<le> 13)"

definition split_sign :: "string \<Rightarrow> bool \<times> string" where
  "split_sign s = (case s of [] \<Rightarrow> (False, []) | c # cs \<Rightarrow>
     if c = CHR ''-'' then (True, cs) else if c = CHR ''+'' then (False, cs) else (False, s))"

definition strtoull :: "string \<Rightarrow> u64" where
  "strtoull s = (case split_sign (dropWhile is_space s) of (neg, ds) \<Rightarrow>
     let v = string_to_nat (takeWhile is_digit ds)
     in if v > unat (- 1 :: u64) then - 1 else if neg then - of_nat v else of_nat v)"

definition atoi :: "string \<Rightarrow> int" where
  "atoi s = (case split_sign (dropWhile is_space s) of (neg, ds) \<Rightarrow>
     let v = int (string_to_nat (takeWhile is_digit ds)) in if neg then - v else v)"

definition c_str :: "string \<Rightarrow> string" where
  "c_str s = takeWhile (\<lambda>c. c \<noteq> CHR 0x00) s"

section \<open>The inspection tool\<close>

subsection \<open>JSON\<close>

text \<open>An object is written by \<open>beginObj\<close>, for each member \<open>sep\<close>, \<open>key\<close> and the value, and \<open>endObj\<close>. Strings are
  not escaped.\<close>

definition json_str :: "string \<Rightarrow> string" where
  "json_str v = [CHR 0x22] @ v @ [CHR 0x22]"

definition json_key :: "string \<Rightarrow> string" where
  "json_key k = [CHR 0x22] @ k @ [CHR 0x22] @ '':''"

definition json_bool :: "bool \<Rightarrow> string" where
  "json_bool b = (if b then ''true'' else ''false'')"

definition json_sep :: "bool \<Rightarrow> string" where
  "json_sep first = (if first then [] else '','')"

fun json_members :: "bool \<Rightarrow> (string \<times> string) list \<Rightarrow> string" where
  "json_members first [] = []"
| "json_members first ((k, v) # ms) = json_sep first @ json_key k @ v @ json_members False ms"

definition json_obj :: "(string \<times> string) list \<Rightarrow> string" where
  "json_obj ms = ''{'' @ json_members True ms @ ''}''"

subsection \<open>Options\<close>

record Options =
  op_scenario :: string
  op_json :: bool
  op_persisted :: string
  op_nvidia :: bool
  op_cuda :: bool
  op_action :: string
  op_a :: DeviceId
  op_b :: DeviceId

definition default_Options :: Options where
  "default_Options = \<lparr>op_scenario = ''SINGLE_SWITCH_TWO_GPU'', op_json = False, op_persisted = [],
     op_nvidia = False, op_cuda = False, op_action = ''topology'', op_a = MkId 1, op_b = MkId 2\<rparr>"

text \<open>The loop over the arguments; \<open>None\<close> is the exception of \<open>substr(2)\<close> on a one-character argument.\<close>

fun parse_args :: "string list \<Rightarrow> Options \<Rightarrow> Options option" where
  "parse_args [] opt = Some opt"
| "parse_args (a # rest) opt =
     (if a = ''--scenario'' \<and> rest \<noteq> [] then parse_args (tl rest) (opt\<lparr>op_scenario := hd rest\<rparr>)
      else if a = ''--json'' then parse_args rest (opt\<lparr>op_json := True\<rparr>)
      else if a = ''--persisted'' \<and> rest \<noteq> [] then parse_args (tl rest) (opt\<lparr>op_persisted := hd rest\<rparr>)
      else if a = ''--nvidia'' then parse_args rest (opt\<lparr>op_nvidia := True\<rparr>)
      else if a = ''--cuda'' then parse_args rest (opt\<lparr>op_cuda := True\<rparr>)
      else if a = ''--a'' \<and> rest \<noteq> [] then parse_args (tl rest) (opt\<lparr>op_a := MkId (strtoull (hd rest))\<rparr>)
      else if a = ''--b'' \<and> rest \<noteq> [] then parse_args (tl rest) (opt\<lparr>op_b := MkId (strtoull (hd rest))\<rparr>)
      else if a \<noteq> [] \<and> hd a = CHR ''-'' then
        (if length a < 2 then None else parse_args rest (opt\<lparr>op_action := drop 2 a\<rparr>))
      else parse_args rest opt)"

definition scenario_named :: "string \<Rightarrow> ScenarioType" where
  "scenario_named s =
     (if s = ''SINGLE_SWITCH_TWO_GPU'' then SINGLE_SWITCH_TWO_GPU
      else if s = ''SINGLE_SWITCH_MANY_GPU'' then SINGLE_SWITCH_MANY_GPU
      else if s = ''TWO_SWITCH_REDUNDANT'' then TWO_SWITCH_REDUNDANT
      else if s = ''TWO_SWITCH_LINEAR'' then TWO_SWITCH_LINEAR
      else if s = ''DENSE_MULTI_SWITCH'' then DENSE_MULTI_SWITCH
      else if s = ''PARTITION_SPLIT'' then PARTITION_SPLIT
      else if s = ''DEGRADED_PORT'' then DEGRADED_PORT
      else if s = ''PARALLEL_LINKS'' then PARALLEL_LINKS
      else if s = ''EMPTY'' then EMPTY
      else SINGLE_SWITCH_TWO_GPU)"

definition buildRegistry :: "Options \<Rightarrow> u64 \<Rightarrow> FabricRegistry \<Rightarrow> FabricRegistry" where
  "buildRegistry opt now r = snd (applyScenarioToRegistry (scenario_named (op_scenario opt)) now r)"

definition ScenarioType_toString :: "ScenarioType \<Rightarrow> string" where
  "ScenarioType_toString s = (case s of
       EMPTY \<Rightarrow> ''EMPTY'' | SINGLE_SWITCH_TWO_GPU \<Rightarrow> ''SINGLE_SWITCH_TWO_GPU''
     | SINGLE_SWITCH_MANY_GPU \<Rightarrow> ''SINGLE_SWITCH_MANY_GPU''
     | TWO_SWITCH_REDUNDANT \<Rightarrow> ''TWO_SWITCH_REDUNDANT'' | TWO_SWITCH_LINEAR \<Rightarrow> ''TWO_SWITCH_LINEAR''
     | DENSE_MULTI_SWITCH \<Rightarrow> ''DENSE_MULTI_SWITCH'' | PARTITION_SPLIT \<Rightarrow> ''PARTITION_SPLIT''
     | DEGRADED_PORT \<Rightarrow> ''DEGRADED_PORT'' | PARALLEL_LINKS \<Rightarrow> ''PARALLEL_LINKS'')"

lemma scenario_named_toString [simp]: "scenario_named (ScenarioType_toString s) = s"
  by (cases s) (simp_all add: ScenarioType_toString_def scenario_named_def)

subsection \<open>Printing\<close>

definition line :: "string list \<Rightarrow> string" where
  "line parts = concat parts @ [CHR 0x0A]"

definition flag :: "bool \<Rightarrow> string" where
  "flag b = (if b then ''1'' else ''0'')"

definition gen_string :: "'tag Gen \<Rightarrow> string" where
  "gen_string g = u64_to_string (gen_get g)"

definition id_string :: "'tag Id \<Rightarrow> string" where
  "id_string i = u64_to_string (get i)"

definition u32_string :: "u32 \<Rightarrow> string" where
  "u32_string w = nat_to_string (unat w)"

definition DeviceGeneration_toString :: "DeviceGeneration \<Rightarrow> string" where
  "DeviceGeneration_toString g = (if dg_observed g then dg_name g else ''UNKNOWN'')"

definition printTextHeader :: "string \<Rightarrow> Options \<Rightarrow> string" where
  "printTextHeader title opt =
     line [''== NVSwitch Fabric | '', title, '' | scenario='', c_str (op_scenario opt), '' | provenance=SYNTHETIC =='']"

definition topology_json :: "FabricTopology \<Rightarrow> string" where
  "topology_json t = json_obj
     [(''provenance'', json_str (Provenance_toString (t_provenance t))),
      (''topologyGen'', gen_string (t_topologyGen t)), (''fabricGen'', gen_string (t_fabricGen t)),
      (''devices'', nat_to_string (length (t_devices t))), (''switches'', nat_to_string (length (t_switches t))),
      (''ports'', nat_to_string (length (t_ports t))), (''links'', nat_to_string (length (t_links t))),
      (''partitions'', nat_to_string (length (t_partitions t)))]"

definition topology_text :: "Options \<Rightarrow> FabricTopology \<Rightarrow> string" where
  "topology_text opt t =
     printTextHeader ''topology'' opt
     @ line [''  topologyGen='', gen_string (t_topologyGen t), '' fabricGen='', gen_string (t_fabricGen t),
         '' provenance='', Provenance_toString (t_provenance t)]
     @ line [''  devices='', nat_to_string (length (t_devices t)), '' switches='', nat_to_string (length (t_switches t)),
         '' ports='', nat_to_string (length (t_ports t)), '' links='', nat_to_string (length (t_links t)),
         '' partitions='', nat_to_string (length (t_partitions t))]"

definition print_device :: "DeviceId \<times> DeviceRecord \<Rightarrow> string" where
  "print_device e = (case e of (i, d) \<Rightarrow> line [''device '', id_string i, '' product='', c_str (dev_product d),
     '' gen='', c_str (DeviceGeneration_toString (dev_generation d)), '' state='', EntityState_toString (dev_state d),
     '' prov='', Provenance_toString (dev_provenance d), '' src='', EvidenceSource_toString (dev_source d)])"

definition print_switch :: "SwitchId \<times> SwitchRecord \<Rightarrow> string" where
  "print_switch e = (case e of (i, s) \<Rightarrow> line [''switch '', id_string i, '' gen='', gen_string (sw_gen s),
     '' genName='', c_str (sw_generationName s), '' ports='', u32_string (sw_portCount s),
     '' state='', EntityState_toString (sw_state s), '' prov='', Provenance_toString (sw_provenance s)])"

definition print_port :: "PortId \<times> SwitchPortRecord \<Rightarrow> string" where
  "print_port e = (case e of (i, p) \<Rightarrow> line [''port '', id_string (port_sw i), ''.'', u32_string (port_index i),
     '' gen='', gen_string (po_gen p), '' attached='', flag (po_attachedKnown p),
     '' state='', EntityState_toString (po_state p), '' prov='', Provenance_toString (po_provenance p)])"

definition print_link :: "LinkId \<times> LinkRecord \<Rightarrow> string" where
  "print_link e = (case e of (i, l) \<Rightarrow> line [''link '', id_string i, '' root='', id_string (li_rootSwitch l),
     '' port='', id_string (port_sw (li_port l)), ''.'', u32_string (port_index (li_port l)),
     '' state='', EntityState_toString (li_state l), '' degraded='', flag (li_degraded l),
     '' prov='', Provenance_toString (li_provenance l)])"

definition print_partition :: "PartitionId \<times> FabricPartition \<Rightarrow> string" where
  "print_partition e = (case e of (i, p) \<Rightarrow> line [''partition '', c_str (sid_value (pa_id p)),
     '' gen='', gen_string (pa_gen p), '' members='', nat_to_string (length (pa_members p)),
     '' state='', PartitionState_toString (pa_state p), '' prov='', Provenance_toString (pa_provenance p)])"

definition print_path :: "string \<Rightarrow> FabricPath \<Rightarrow> string" where
  "print_path indent p = line [indent, c_str (canonicalKey p), '' state='', EntityState_toString (fp_state p)]"

definition print_decision :: "Options \<Rightarrow> RouteDecision \<Rightarrow> string" where
  "print_decision opt d =
     line [''route('', id_string (op_a opt), '' -> '', id_string (op_b opt), '') outcome='',
       RouteOutcome_toString (rd_outcome d), '' auth='', flag (rd_authoritative d),
       '' reason='', c_str (rd_outcomeReason d)]
     @ (case rd_selected d of None \<Rightarrow> [] | Some p \<Rightarrow> line [''  selected='', c_str (canonicalKey p)])
     @ line [''  candidates='', nat_to_string (length (rd_candidatePaths d))]
     @ concat (map (print_path ''    '') (rd_candidatePaths d))"

definition cuda_json :: "CudaProofResult \<Rightarrow> string" where
  "cuda_json r = json_obj
     [(''cudaPresent'', json_bool (cp_cudaPresent r)), (''deviceDiscovery'', json_bool (cp_deviceDiscovery r)),
      (''allocation'', json_bool (cp_allocation r)), (''kernel'', json_bool (cp_kernel r)),
      (''cpuParity'', json_bool (cp_cpuParity r)), (''baselineReturned'', json_bool (cp_baselineReturned r)),
      (''deviceCount'', u64_to_string (word_of_int (cp_deviceCount r))),
      (''computeCapability'', json_str (int_to_string (cp_major r) @ ''.'' @ int_to_string (cp_minor r))),
      (''deviceName'', json_str (cp_deviceName r)), (''detail'', json_str (cp_detail r))]"

definition cuda_text :: "CudaProofResult \<Rightarrow> string" where
  "cuda_text r = line [''CUDA proof: present='', flag (cp_cudaPresent r), '' discovery='', flag (cp_deviceDiscovery r),
     '' alloc='', flag (cp_allocation r), '' kernel='', flag (cp_kernel r), '' parity='', flag (cp_cpuParity r),
     '' baseline='', flag (cp_baselineReturned r), '' count='', int_to_string (cp_deviceCount r),
     '' cc='', int_to_string (cp_major r), ''.'', int_to_string (cp_minor r), '' name='', cp_deviceName r]"

subsection \<open>The run\<close>

datatype Outcome = Exit int string string | Uncaught

text \<open>What the tool inspects: the registry with what was printed to the output and to the error stream, or
  the error text with which it ends.\<close>

definition nvidia_registry :: "Nvml option \<Rightarrow> u64 \<Rightarrow> FabricRegistry \<times> string \<times> string" where
  "nvidia_registry nv now =
     (case NvidiaBackend_initialize nv NvidiaBackend_new of
        (Inl e, _) \<Rightarrow> (FabricRegistry_new, [], line [''NVML init failed: '', c_str (err_message e)])
      | (Inr _, nb) \<Rightarrow>
          let cap = NvidiaBackend_capabilities nv;
              out = line [''backend='', c_str (bc_name cap), '' provenance='', Provenance_toString (bc_provenance cap),
                '' nvSwitchPresent='', flag (bc_nvSwitchPresent cap)]
          in (case NvidiaBackend_scan nv nb of
                Inl e \<Rightarrow> (FabricRegistry_new, out, line [''NVML scan failed: '', c_str (err_message e)])
              | Inr sc \<Rightarrow>
                  (snd (applyBulk \<lparr>be_devices = sc_devices sc, be_switches = [], be_ports = [], be_links = [],
                     be_partitions = []\<rparr> now FabricRegistry_new), out, [])))"

definition inspect_registry ::
    "Nvml option \<Rightarrow> filesystem \<Rightarrow> u64 \<Rightarrow> Options \<Rightarrow> string + FabricRegistry \<times> string \<times> string" where
  "inspect_registry nv fs now opt =
     (if op_nvidia opt then Inr (nvidia_registry nv now)
      else if op_persisted opt \<noteq> [] then
        (case restoreFrom (op_persisted opt) fs of
           Inl e \<Rightarrow> Inl (line [''restore error: '', c_str (err_message e)])
         | Inr res \<Rightarrow>
             Inr (snd (applyBulk (bulk_of_topology (snapshot res)) now FabricRegistry_new), [], []))
      else Inr (buildRegistry opt now FabricRegistry_new, [], []))"

text \<open>The exit code and the output of the action; the action \<open>health\<close> is accepted and prints nothing.\<close>

definition inspect_action :: "u64 \<Rightarrow> Options \<Rightarrow> FabricRegistry \<Rightarrow> int \<times> string" where
  "inspect_action now opt r =
     (let snap = snapshot r in
      if op_action opt = ''topology'' then
        (0, if op_json opt then line [c_str (topology_json snap)] else topology_text opt snap)
      else if op_action opt = ''devices'' then (0, concat (map print_device (t_devices snap)))
      else if op_action opt = ''switches'' then (0, concat (map print_switch (t_switches snap)))
      else if op_action opt = ''ports'' then (0, concat (map print_port (t_ports snap)))
      else if op_action opt = ''links'' then (0, concat (map print_link (t_links snap)))
      else if op_action opt = ''partitions'' then (0, concat (map print_partition (t_partitions snap)))
      else if op_action opt = ''health'' then (0, [])
      else if op_action opt = ''reach'' then
        (0, line [''reachability('', id_string (op_a opt), '' -> '', id_string (op_b opt), '') = '',
              Reachability_toString (reachability r (op_a opt) (op_b opt))])
      else if op_action opt = ''route'' then
        (0, case fst (route (op_a opt) (op_b opt) default_RoutePolicy now r) of
              Inl e \<Rightarrow> [] | Inr d \<Rightarrow> print_decision opt d)
      else if op_action opt = ''paths'' then
        (0, let ps = paths r (op_a opt) (op_b opt) default_TraversalConfig in
            line [''paths('', id_string (op_a opt), '' -> '', id_string (op_b opt), '') count='', nat_to_string (length ps)]
            @ concat (map (print_path ''  '') ps))
      else (1, line [''unknown action '', [CHR 0x27], c_str (op_action opt), [CHR 0x27]]))"

definition inspect_main :: "Nvml option \<Rightarrow> Cuda option \<Rightarrow> filesystem \<Rightarrow> u64 \<Rightarrow> string list \<Rightarrow> Outcome" where
  "inspect_main nv cu fs now args =
     (case parse_args args default_Options of
        None \<Rightarrow> Uncaught
      | Some opt \<Rightarrow>
          (case inspect_registry nv fs now opt of
             Inl e \<Rightarrow> Exit 2 [] e
           | Inr (r, out, errs) \<Rightarrow>
               if op_cuda opt then
                 let p = runCudaProof cu
                 in Exit 0 (out @ (if op_json opt then line [c_str (cuda_json p)] else cuda_text p)) errs
               else (case inspect_action now opt r of (code, text) \<Rightarrow> Exit code (out @ text) errs)))"

section \<open>The coordinator process\<close>

text \<open>\<open>coordinatorMain\<close>: the arguments without the program name; the exit code 2 when listening fails, and
  otherwise the running coordinator, which the process serves until it is killed.\<close>

definition coordinatorMain :: "Os \<Rightarrow> u64 \<Rightarrow> filesystem \<Rightarrow> string list \<Rightarrow> int + System" where
  "coordinatorMain os now fs args =
     (let port = (if length args \<ge> 1 then word_of_int (atoi (args ! 0)) else 0);
          path = (if length args \<ge> 2 then args ! 1 else ''nvswitch_fabric_state.nvf'');
          epoch = (if length args \<ge> 3 then strtoull (args ! 2) else 1);
          sys = System_start os port (length args \<ge> 2) path epoch now fs
      in if cd_running (sy_coord sys) then Inr sys else Inl 2)"

section \<open>The worker process\<close>

text \<open>The scenario number is cast to the enumeration without a check: a number that names no scenario builds
  no records, like \<open>EMPTY\<close>, but is not \<open>EMPTY\<close>.\<close>

definition scenario_of_u8 :: "u8 \<Rightarrow> ScenarioType" where
  "scenario_of_u8 n =
     (if n < 9 then [EMPTY, SINGLE_SWITCH_TWO_GPU, SINGLE_SWITCH_MANY_GPU, TWO_SWITCH_REDUNDANT, TWO_SWITCH_LINEAR,
        DENSE_MULTI_SWITCH, PARTITION_SPLIT, DEGRADED_PORT, PARALLEL_LINKS] ! unat n
      else EMPTY)"

lemma scenario_of_u8_EMPTY: "n < 9 \<Longrightarrow> scenario_of_u8 n = EMPTY \<longleftrightarrow> n = 0"
proof -
  assume "n < 9"
  then have "unat n < 9"
    by (simp add: word_less_nat_alt)
  then have "unat n \<in> {0, 1, 2, 3, 4, 5, 6, 7, 8}"
    by auto
  then have "[EMPTY, SINGLE_SWITCH_TWO_GPU, SINGLE_SWITCH_MANY_GPU, TWO_SWITCH_REDUNDANT, TWO_SWITCH_LINEAR,
      DENSE_MULTI_SWITCH, PARTITION_SPLIT, DEGRADED_PORT, PARALLEL_LINKS] ! unat n = EMPTY \<longleftrightarrow> unat n = 0"
    by (elim insertE) simp_all
  with \<open>n < 9\<close> show ?thesis
    by (simp add: scenario_of_u8_def unat_eq_0)
qed

text \<open>\<open>workerMain\<close>: the arguments without the program name, and the results of the \<open>send\<close> calls of its four messages.
  The result is the exit code, \<open>None\<close> for a worker that stays connected, and the bytes sent; it is \<open>None\<close> when
  a message waits for more \<open>send\<close> calls.\<close>

definition workerMain ::
    "Os \<Rightarrow> int list \<Rightarrow> int list \<Rightarrow> int list \<Rightarrow> int list \<Rightarrow> u64 \<Rightarrow> string list \<Rightarrow> (int option \<times> bytes) option" where
  "workerMain os ns1 ns2 ns3 ns4 now args =
     (if length args < 7 then Some (Some 2, [])
      else
        let host = args ! 0; port = word_of_int (atoi (args ! 1)); worker = MkStringId (args ! 2);
            boot = strtoull (args ! 3); epoch = strtoull (args ! 4);
            scenario = (word_of_int (atoi (args ! 5)) :: u8); stay = (atoi (args ! 6) \<noteq> 0) in do {
        (c, w, sent1) \<leftarrow> worker_connect os ns1 ns2 host port worker boot epoch Worker_new;
        (case c of
           Inl e \<Rightarrow> Some (Some 3, sent1)
         | Inr _ \<Rightarrow>
             let snap = snapshot (snd (applyScenarioToRegistry (scenario_of_u8 scenario) now FabricRegistry_new)) in do {
             (pub, sent2) \<leftarrow> publishTopology ns3 snap epoch w;
             (case pub of
                Inl e \<Rightarrow> Some (Some 4, sent1 @ sent2)
              | Inr _ \<Rightarrow> do {
                  (m, sent3) \<leftarrow> (if scenario \<noteq> 0 then worker_publishMeasurement ns4 main_measurement epoch
                                 else Some (Inr (), []));
                  Some (if stay then None else Some 0, sent1 @ sent2 @ sent3)})})})"

text \<open>When the connection is made and every \<open>send\<close> takes at least one byte, the process sends exactly the frames
  of \<open>workerMain_frames\<close>, one after the other.\<close>

lemma sendFrame_ends:
  "list_all (\<lambda>n. 0 < n) ns \<Longrightarrow> 20 + length p \<le> length ns \<Longrightarrow>
   sendFrame ns type p = Some (Inr (), encodeFrame \<lparr>fr_type = type, fr_payload = p\<rparr>)"
  unfolding sendFrame_def by (intro sendAll_ends) (simp_all add: length_encodeFrame)

theorem workerMain_sends:
  assumes "connectTo os host (word_of_int (atoi port)) TcpSocket_new = (Inr (), so)"
    and "(word_of_int (atoi sc) :: u8) < 9"
    and "frames = workerMain_frames (MkStringId wid) (strtoull boot) (strtoull epoch)
      (scenario_of_u8 (word_of_int (atoi sc))) now"
    and "\<And>ns f. ns \<in> {ns1, ns2, ns3, ns4} \<Longrightarrow> f \<in> set frames \<Longrightarrow>
      list_all (\<lambda>n. 0 < n) ns \<and> 20 + length (fr_payload f) \<le> length ns"
  shows "workerMain os ns1 ns2 ns3 ns4 now [host, port, wid, boot, epoch, sc, stay] =
    Some (if atoi stay \<noteq> 0 then None else Some 0, concat (map encodeFrame frames))"
proof -
  let ?w = "MkStringId wid" and ?b = "strtoull boot" and ?e = "strtoull epoch" and ?n = "word_of_int (atoi sc) :: u8"
  let ?snap = "snapshot (snd (applyScenarioToRegistry (scenario_of_u8 ?n) now FabricRegistry_new))"
  have empty: "scenario_of_u8 ?n = EMPTY \<longleftrightarrow> ?n = 0"
    by (rule scenario_of_u8_EMPTY [OF assms(2)])
  note fr = assms(3)[unfolded workerMain_frames_def Let_def]
  have send: "sendFrame ns (fr_type f) (fr_payload f) = Some (Inr (), encodeFrame f)"
    if "ns \<in> {ns1, ns2, ns3, ns4}" "f \<in> set frames" for ns f
    using sendFrame_ends assms(4) [OF that] by (cases f) simp
  have "sendFrame ns1 HELLO hello_payload = Some (Inr (), encodeFrame (frames ! 0))"
    "sendFrame ns2 REGISTER (register_payload ?w ?b ?e) = Some (Inr (), encodeFrame (frames ! 1))"
    "sendFrame ns3 PUBLISH_TOPOLOGY (publish_payload (encodeTopologyPayload ?snap) ?w ?b ?e) =
       Some (Inr (), encodeFrame (frames ! 2))"
    "?n \<noteq> 0 \<Longrightarrow> sendFrame ns4 PUBLISH_MEASUREMENT (measurement_payload main_measurement ?e) =
       Some (Inr (), encodeFrame (frames ! 3))"
    using send [of ns1 "frames ! 0"] send [of ns2 "frames ! 1"] send [of ns3 "frames ! 2"] send [of ns4 "frames ! 3"]
    by (simp_all add: fr empty)
  then show ?thesis
    by (auto simp: workerMain_def worker_connect_def publishTopology_def worker_publishMeasurement_def
        encodeTopology_def Worker_new_def assms(1) fr empty Let_def)
qed

section \<open>How a run ends\<close>

definition known_actions :: "string list" where
  "known_actions = [''topology'', ''devices'', ''switches'', ''ports'', ''links'', ''partitions'', ''health'',
     ''reach'', ''route'', ''paths'']"

lemma parse_args_total: "''-'' \<notin> set args \<Longrightarrow> \<exists>opt'. parse_args args opt = Some opt'"
proof (induction args opt rule: parse_args.induct)
  case (2 a rest opt)
  have "''-'' \<notin> set rest" "''-'' \<notin> set (tl rest)"
    using "2.prems" by (cases rest; auto)+
  moreover have "\<not> length a < 2" if "a \<noteq> []" "hd a = CHR ''-''"
    using "2.prems" that by (cases a; cases "tl a") auto
  ultimately show ?case
    using "2.IH" by simp
qed simp

lemma inspect_action_code: "fst (inspect_action now opt r) = (if op_action opt \<in> set known_actions then 0 else 1)"
  by (simp add: inspect_action_def known_actions_def Let_def)

text \<open>The registry rebuilt from a saved one lists the same records.\<close>

lemma inspect_persisted_registry:
  assumes "reg_reaches FabricRegistry_new r" and "persistable (snapshot r)" and "fst (persistTo path r fs) = Inr ()"
    and "path \<noteq> []" "\<not> op_nvidia opt" "op_persisted opt = path"
  shows "\<exists>r'. inspect_registry nv (snd (persistTo path r fs)) now opt = Inr (r', [], []) \<and>
    same_records (snapshot r) (snapshot r') \<and> t_topologyGen (snapshot r') = MkGen 1"
proof -
  have inv: "topo_wf (snapshot r)" "integral (snapshot r)" "within_limits (snapshot r)"
    using reg_reaches_inv [OF assms(1) reg_inv_new] by (simp_all add: reg_inv_def snapshot_def)
  have "bare (r_current FabricRegistry_new)"
    by (simp add: bare_def FabricRegistry_new_def default_FabricTopology_def)
  from rebuild_accepted [OF this inv, of now] show ?thesis
    using assms(4-6) restored_image [OF assms(1-3)] by (auto simp: inspect_registry_def snapshot_def)
qed

definition listing_actions :: "string list" where
  "listing_actions = [''devices'', ''switches'', ''ports'', ''links'', ''partitions'']"

lemma listing_same_records:
  assumes "same_records (snapshot r) (snapshot r')" "op_action opt \<in> set listing_actions"
  shows "inspect_action now opt r' = inspect_action now opt r"
  using assms by (auto simp: inspect_action_def listing_actions_def same_records_def Let_def)

lemma parse_listing:
  assumes "act \<in> set listing_actions"
  shows "parse_args [''--persisted'', path, ''--'' @ act] default_Options =
    Some (default_Options\<lparr>op_persisted := path, op_action := act\<rparr>)"
  using assms by (auto simp: listing_actions_def)

section \<open>Properties\<close>

text \<open>
  (C40) How the inspection tool ends: unless an argument is a bare dash, the run ends with an exit code
  and never with an exception. The code is 2 exactly when a saved state was asked for and cannot
  be restored; otherwise it is 0 when the CUDA proof was asked for or the action is a known
  one, and 1 for an unknown action.
\<close>

theorem inspect_exit_code:
  assumes "''-'' \<notin> set args"
  shows "\<exists>opt out errs. parse_args args default_Options = Some opt \<and>
    inspect_main nv cu fs now args =
      Exit (if \<not> op_nvidia opt \<and> op_persisted opt \<noteq> [] \<and> isl (restoreFrom (op_persisted opt) fs) then 2
            else if op_cuda opt \<or> op_action opt \<in> set known_actions then 0 else 1) out errs"
proof -
  obtain opt where opt: "parse_args args default_Options = Some opt"
    using parse_args_total assms by blast
  show ?thesis
  proof (cases "inspect_registry nv fs now opt")
    case (Inl e)
    then have "\<not> op_nvidia opt \<and> op_persisted opt \<noteq> [] \<and> isl (restoreFrom (op_persisted opt) fs)"
      by (auto simp: inspect_registry_def split: if_splits sum.splits)
    with Inl opt show ?thesis
      by (auto simp: inspect_main_def)
  next
    case (Inr x)
    then have no: "\<not> (\<not> op_nvidia opt \<and> op_persisted opt \<noteq> [] \<and> isl (restoreFrom (op_persisted opt) fs))"
      by (auto simp: inspect_registry_def split: if_splits sum.splits)
    obtain r out errs where "x = (r, out, errs)"
      by (metis prod_cases3)
    with Inr opt no inspect_action_code [of now opt r] show ?thesis
      by (auto simp: inspect_main_def Let_def split: prod.split)
  qed
qed

theorem inspect_exit_code_witness:
  "\<exists>out errs. inspect_main None None Map.empty 5 [''--bogus''] = Exit 1 out errs"
  using inspect_exit_code [of "[''--bogus'']" None None Map.empty 5]
  by (simp add: known_actions_def default_Options_def)

text \<open>
  Inspecting a saved state: the listings the tool prints for a file are those of the registry that
  wrote it.
\<close>

theorem inspect_persisted_listing:
  assumes "reg_reaches FabricRegistry_new r" and "persistable (snapshot r)" and "fst (persistTo path r fs) = Inr ()"
    and "path \<noteq> []" and "act \<in> set listing_actions"
  shows "inspect_main nv cu (snd (persistTo path r fs)) now [''--persisted'', path, ''--'' @ act] =
    Exit 0 (snd (inspect_action now (default_Options\<lparr>op_persisted := path, op_action := act\<rparr>) r)) []"
proof -
  let ?opt = "default_Options\<lparr>op_persisted := path, op_action := act\<rparr>"
  obtain r' where r': "inspect_registry nv (snd (persistTo path r fs)) now ?opt = Inr (r', [], [])"
    "same_records (snapshot r) (snapshot r')"
    using inspect_persisted_registry [OF assms(1-4), of ?opt] by (auto simp: default_Options_def)
  have "inspect_action now ?opt r' = inspect_action now ?opt r"
    using listing_same_records [OF r'(2)] assms(5) by simp
  moreover have "fst (inspect_action now ?opt r) = 0"
    using assms(5) by (auto simp: inspect_action_code known_actions_def listing_actions_def)
  moreover have "\<not> op_cuda ?opt"
    by (simp add: default_Options_def)
  ultimately show ?thesis
    unfolding inspect_main_def parse_listing [OF assms(5)] option.case r'(1) sum.case prod.case
    by (simp add: split_beta del: Options.update_convs)
qed

theorem inspect_persisted_listing_witness:
  "inspect_main None None (snd (persistTo ''f'' pair_registry Map.empty)) 9 [''--persisted'', ''f'', ''--devices''] =
     Exit 0 (concat (map print_device (t_devices (snapshot pair_registry)))) []"
  using inspect_persisted_listing [OF sample_reached pair_persistable pair_persists, of "''devices''" None None 9]
  by (simp add: listing_actions_def inspect_action_def Let_def)

text \<open>
  The topology generation of a saved state is not shown: whatever generation was saved, the tool rebuilds
  the records in a fresh registry, whose generation is 1.
\<close>

theorem inspect_persisted_generation:
  assumes "reg_reaches FabricRegistry_new r" and "persistable (snapshot r)" and "fst (persistTo path r fs) = Inr ()"
    and "path \<noteq> []"
  shows "\<exists>r'. inspect_registry nv (snd (persistTo path r fs)) now (default_Options\<lparr>op_persisted := path\<rparr>) = Inr (r', [], []) \<and>
    t_topologyGen (snapshot r') = MkGen 1"
  using inspect_persisted_registry [OF assms, of "default_Options\<lparr>op_persisted := path\<rparr>"] by (auto simp: default_Options_def)

text \<open>A bare dash ends the tool with an uncaught exception, and the header of the text output names the
  provenance \<open>SYNTHETIC\<close> even for records that NVML reported.\<close>

theorem bare_dash_uncaught: "inspect_main nv cu fs now (''-'' # args) = Uncaught"
  by (simp add: inspect_main_def)

end
