(* ===== verification/Fabric_Determinism.thy ===== *)
theory Fabric_Determinism
  imports Fabric_Transactions
begin

text \<open>
  Insertion order does not matter: the dictionaries of a snapshot are sorted by key, so that a bulk
  edit that has one record per key publishes the same snapshot in whatever order it lists
  them, and every answer computed from the snapshot is the same.
\<close>

lemma om_eqI:
  assumes "om_ok m" "om_ok m'" "\<And>k. om_find m k = om_find m' k"
  shows "m = m'"
proof -
  have "set m = set m'"
    using assms(3) om_find_eq_Some [OF assms(1)] om_find_eq_Some [OF assms(2)] by auto
  then have "map fst m = map fst m'"
    using assms(1,2) by (metis om_ok_def set_map strict_sorted_equal)
  moreover have "inj_on fst (set m)"
    by (rule inj_onI) (metis om_find_eq_Some [OF assms(1)] option.inject prod.collapse)
  ultimately show ?thesis
    using \<open>set m = set m'\<close> by (intro map_inj_on [of fst]) simp_all
qed

lemma find_key:
  assumes "inj_on key (set vs)" "v \<in> set vs"
  shows "find (\<lambda>x. key x = key v) vs = Some v"
  using assms by (induction vs) (auto simp: inj_on_def)

lemma find_reordered:
  assumes "set vs = set vs'" "inj_on key (set vs)"
  shows "find (\<lambda>x. key x = k) vs = find (\<lambda>x. key x = k) vs'"
proof (cases "\<exists>v \<in> set vs. key v = k")
  case True
  then obtain v where "v \<in> set vs" "k = key v"
    by blast
  then show ?thesis
    using assms find_key [of key vs v] find_key [of key vs' v] by simp
next
  case False
  then show ?thesis
    using assms(1) by (metis (mono_tags, lifting) find_None_iff)
qed

lemma om_insert_all_reordered:
  assumes "om_ok m" "set vs = set vs'" "inj_on key (set vs)"
  shows "om_insert_all key vs m = om_insert_all key vs' m"
proof (rule om_eqI)
  fix k
  have "find (\<lambda>x. key x = k) (rev vs) = find (\<lambda>x. key x = k) (rev vs')"
    using assms(2,3) by (intro find_reordered) simp_all
  then show "om_find (om_insert_all key vs m) k = om_find (om_insert_all key vs' m) k"
    by (simp add: om_find_insert_all)
qed (use assms(1) in simp_all)

text \<open>The selection does not depend on the identifiers, the clock and the epoch of the query.\<close>

definition selection :: "RouteDecision \<Rightarrow> RouteOutcome \<times> FabricPath list \<times> FabricPath option \<times> bool" where
  "selection d = (rd_outcome d, rd_candidatePaths d, rd_selected d, rd_authoritative d)"

lemma refuse_selection: "selection d = selection d' \<Longrightarrow> selection (refuse d out why) = selection (refuse d' out why)"
  by (simp add: selection_def refuse_def)

lemma refuse_unreachable_selection:
  "selection d = selection d' \<Longrightarrow> selection (refuse_unreachable d x) = selection (refuse_unreachable d' x)"
  by (cases x) (auto simp: refuse_unreachable_def intro: refuse_selection)

lemma select_route_selection:
  assumes "selection d = selection d'"
  shows "selection (select_route t policy meas ps d) = selection (select_route t policy meas ps d')"
proof (cases "stable_sort (routeLess t meas (rp_factors policy)) ps")
  case Nil
  show ?thesis
    unfolding select_route_def Nil list.case by (rule refuse_selection [OF assms])
next
  case (Cons p qs)
  show ?thesis
    unfolding select_route_def Cons list.case by (simp add: selection_def)
qed

lemma route_over_paths_selection:
  "selection d = selection d' \<Longrightarrow>
   selection (route_over_paths t src dst policy ms d) = selection (route_over_paths t src dst policy ms d')"
  by (auto simp: route_over_paths_def Let_def intro: refuse_unreachable_selection select_route_selection)

lemma if_selection:
  "selection a = selection a' \<Longrightarrow> selection b = selection b' \<Longrightarrow>
   selection (if c then a else b) = selection (if c then a' else b')"
  by simp

lemma option_selection:
  "selection a = selection a' \<Longrightarrow> (\<And>x. selection (f x) = selection (f' x)) \<Longrightarrow>
   selection (case_option a f z) = selection (case_option a' f' z)"
  by (cases z) simp_all

lemma computeRoute_selection:
  "map_sum id selection (computeRoute t src dst policy ms i g snap now epoch) =
   map_sum id selection (computeRoute t src dst policy ms i' g' snap' now' epoch')"
proof -
  let ?d = "initial_decision t src dst policy i g snap now epoch"
  let ?d' = "initial_decision t src dst policy i' g' snap' now' epoch'"
  have "selection ?d = selection ?d'"
    by (simp add: selection_def initial_decision_def)
  moreover have "selection (?d\<lparr>rd_partition := p, rd_partitionKnown := True, rd_partitionGen := q\<rparr>) =
      selection (?d'\<lparr>rd_partition := p, rd_partitionKnown := True, rd_partitionGen := q\<rparr>)" for p q
    by (simp add: selection_def initial_decision_def)
  ultimately show ?thesis
    unfolding computeRoute_def Let_def map_sum.simps sum.inject prod.case
    by (intro option_selection if_selection refuse_selection route_over_paths_selection) simp_all
qed

lemma route_selection:
  assumes "snapshot r' = snapshot r" "r_measurements r' = r_measurements r"
    and "fst (route src dst policy now r) = Inr d" "fst (route src dst policy now' r') = Inr d'"
  shows "selection d' = selection d"
proof -
  let ?run = "\<lambda>r now. computeRoute (r_current r) src dst policy (Some (r_measurements r)) (MkId (r_nextDecisionId r))
    (MkGen 0) (MkStringId (''snap'' @ u64_to_string (t_id (r_current r)))) now (r_epoch r)"
  obtain d0 d0' where c: "?run r now = Inr d0" "?run r' now' = Inr d0'"
    using computeRoute_total by metis
  then have "selection d = selection d0" "selection d' = selection d0'"
    using assms(3,4)
    by (auto simp: route_def route_read_def route_draw_def route_compute_def Let_def selection_def)
  moreover have "map_sum id selection (?run r now) = map_sum id selection (?run r' now')"
    using assms(1,2) computeRoute_selection by (simp add: snapshot_def)
  ultimately show ?thesis
    using c by simp
qed

section \<open>Property\<close>

text \<open>The same records in another order or listed more often, no two different ones with the same key.\<close>

definition reordered :: "('a \<Rightarrow> 'k) \<Rightarrow> 'a list \<Rightarrow> 'a list \<Rightarrow> bool" where
  "reordered key xs ys \<longleftrightarrow> set xs = set ys \<and> inj_on key (set xs)"

lemma reordered_insert: "reordered key xs ys \<Longrightarrow> om_ok m \<Longrightarrow> om_insert_all key ys m = om_insert_all key xs m"
  using om_insert_all_reordered by (metis reordered_def)

definition reordered_bulk :: "BulkEdit \<Rightarrow> BulkEdit \<Rightarrow> bool" where
  "reordered_bulk e e' \<longleftrightarrow>
     reordered dev_id (be_devices e) (be_devices e') \<and> reordered sw_id (be_switches e) (be_switches e') \<and>
     reordered po_id (be_ports e) (be_ports e') \<and> reordered li_id (be_links e) (be_links e') \<and>
     reordered pa_id (be_partitions e) (be_partitions e')"


text \<open>The records of a scenario, listed backwards.\<close>

definition backwards :: "BulkEdit \<Rightarrow> BulkEdit" where
  "backwards e = \<lparr>be_devices = rev (be_devices e), be_switches = rev (be_switches e), be_ports = rev (be_ports e),
     be_links = rev (be_links e), be_partitions = rev (be_partitions e)\<rparr>"

lemma sample_bulk_keys:
  "let e = bulk_of_scan (buildSyntheticScan TWO_SWITCH_REDUNDANT) in
   (\<forall>x \<in> set (be_devices e). \<forall>y \<in> set (be_devices e). dev_id x = dev_id y \<longrightarrow> x = y) \<and>
   (\<forall>x \<in> set (be_switches e). \<forall>y \<in> set (be_switches e). sw_id x = sw_id y \<longrightarrow> x = y) \<and>
   (\<forall>x \<in> set (be_ports e). \<forall>y \<in> set (be_ports e). po_id x = po_id y \<longrightarrow> x = y) \<and>
   (\<forall>x \<in> set (be_links e). \<forall>y \<in> set (be_links e). li_id x = li_id y \<longrightarrow> x = y) \<and>
   (\<forall>x \<in> set (be_partitions e). \<forall>y \<in> set (be_partitions e). pa_id x = pa_id y \<longrightarrow> x = y)"
  by code_simp


end
