(* ===== verification/Fabric_Examples.thy ===== *)
theory Fabric_Examples
  imports Fabric_Tools Fabric_Determinism
begin

text \<open>
  The example programs (\<open>examples/\<close>) and the entry points of the processes (\<open>tools/\<close>). A program is a function of
  the readings of the clock, in the order in which it takes them, and for the discovery program of the answers
  of NVML and CUDA, to its exit code and output; \<open>value()\<close> of a failed result throws. The theorems say what the
  programs print, whatever the clock reads.
\<close>

type_synonym clock = "nat \<Rightarrow> u64"

section \<open>The programs\<close>

definition print_candidate :: "FabricPath \<Rightarrow> string" where
  "print_candidate p = line [''  '', canonicalKey p]"

definition print_selected :: "RouteDecision \<Rightarrow> string" where
  "print_selected d = (case rd_selected d of None \<Rightarrow> [] | Some p \<Rightarrow> line [''selected='', canonicalKey p])"

definition synthetic_single_switch_main :: "clock \<Rightarrow> Outcome" where
  "synthetic_single_switch_main clk =
     (case applyScenarioToRegistry SINGLE_SWITCH_TWO_GPU (clk 0) FabricRegistry_new of
        (Inl e, r) \<Rightarrow> Exit 1 (line [''scenario apply failed: '', err_message e]) []
      | (Inr _, r) \<Rightarrow>
          let snap = snapshot r; ps = paths r (MkId 1) (MkId 2) default_TraversalConfig in
          (case fst (route (MkId 1) (MkId 2) default_RoutePolicy (clk 1) r) of
             Inl e \<Rightarrow> Uncaught
           | Inr d \<Rightarrow> Exit 0
               (line [''topology devices='', nat_to_string (length (t_devices snap)),
                  '' switches='', nat_to_string (length (t_switches snap)), '' ports='', nat_to_string (length (t_ports snap)),
                  '' links='', nat_to_string (length (t_links snap)), '' provenance='', Provenance_toString (t_provenance snap)]
                @ line [''reachability(1->2) = '', Reachability_toString (reachability r (MkId 1) (MkId 2))]
                @ line [''paths='', nat_to_string (length ps)]
                @ concat (map (\<lambda>p. line [''  '', canonicalKey p, '' state='', EntityState_toString (fp_state p)]) ps)
                @ line [''route outcome='', RouteOutcome_toString (rd_outcome d), '' authoritative='', flag (rd_authoritative d)]
                @ print_selected d) []))"

definition redundant_two_switch_main :: "clock \<Rightarrow> Outcome" where
  "redundant_two_switch_main clk =
     (case applyScenarioToRegistry TWO_SWITCH_REDUNDANT (clk 0) FabricRegistry_new of
        (Inl e, r) \<Rightarrow> Exit 1 (line [''scenario apply failed'']) []
      | (Inr _, r) \<Rightarrow>
          (case route (MkId 1) (MkId 2) default_RoutePolicy (clk 1) r of
             (Inl e, r1) \<Rightarrow> Uncaught
           | (Inr d, r1) \<Rightarrow>
               (case fst (route (MkId 1) (MkId 2) default_RoutePolicy (clk 2) r1) of
                  Inl e \<Rightarrow> Uncaught
                | Inr d2 \<Rightarrow> Exit 0
                    (line [''candidate paths (deterministic order):'']
                     @ concat (map print_candidate (paths r (MkId 1) (MkId 2) default_TraversalConfig))
                     @ line [''route outcome='', RouteOutcome_toString (rd_outcome d)]
                     @ print_selected d
                     @ line [''deterministic='', if selected_key d = selected_key d2 then ''yes'' else ''no'']) [])))"

definition inspection_main :: "clock \<Rightarrow> Outcome" where
  "inspection_main clk =
     (let r = snd (applyScenarioToRegistry PARTITION_SPLIT (clk 0) FabricRegistry_new); snap = snapshot r
      in Exit 0
           (line [''provenance='', Provenance_toString (t_provenance snap), '' partitions='', nat_to_string (length (t_partitions snap))]
            @ concat (map (\<lambda>(i, p). line [''  partition '', sid_value (pa_id p), '' gen='', gen_string (pa_gen p),
                '' members='', nat_to_string (length (pa_members p)), '' state='', PartitionState_toString (pa_state p)])
                (t_partitions snap))
            @ line [''reach(1->3)='', Reachability_toString (reachability r (MkId 1) (MkId 3)), '' (cross-partition)'']) [])"

text \<open>The failure of the switch of the selected path, in the governance example; \<open>front()\<close> of an empty sequence does
  not occur, because a path has a switch.\<close>

definition governance_failure :: "clock \<Rightarrow> RouteDecision \<Rightarrow> FabricRegistry \<Rightarrow> (string \<times> FabricRegistry) option" where
  "governance_failure clk d r = (case rd_selected d of
       None \<Rightarrow> Some ([], r)
     | Some sel \<Rightarrow>
         let r1 = snd (setSwitchState (hd (fp_switchSequence sel)) EntityState.DOWN (clk 2) r) in
         (case route (MkId 1) (MkId 2) default_RoutePolicy (clk 3) r1 of
            (Inl e, r2) \<Rightarrow> None
          | (Inr d2, r2) \<Rightarrow>
              Some (line [''phase2 (switch down) route allowed='', flag (outcome_allowed (rd_outcome d2)),
                      '' outcome='', RouteOutcome_toString (rd_outcome d2)]
                    @ line [''old decision still authoritative='', flag (decisionStillAuthoritative r2 d)], r2)))"

definition stale_bulk :: BulkEdit where
  "stale_bulk = \<lparr>be_devices = [], be_switches = [(makeSyntheticSwitch (MkId 10) ''SynthSwitch-1'' 2)\<lparr>sw_gen := MkGen 0\<rparr>],
     be_ports = [], be_links = [], be_partitions = []\<rparr>"

definition route_governance_main :: "clock \<Rightarrow> Outcome" where
  "route_governance_main clk =
     (case applyScenarioToRegistry TWO_SWITCH_REDUNDANT (clk 0) FabricRegistry_new of
        (Inl e, r) \<Rightarrow> Exit 1 [] []
      | (Inr _, r) \<Rightarrow>
          (case route (MkId 1) (MkId 2) default_RoutePolicy (clk 1) r of
             (Inl e, r1) \<Rightarrow> Uncaught
           | (Inr d, r1) \<Rightarrow>
               (case governance_failure clk d r1 of
                  None \<Rightarrow> Uncaught
                | Some (out, r2) \<Rightarrow> Exit 0
                    (line [''phase1 route allowed='', flag (outcome_allowed (rd_outcome d)), '' auth='', flag (rd_authoritative d)]
                     @ out
                     @ (case fst (applyBulk stale_bulk (clk 4) r2) of
                          Inr _ \<Rightarrow> line [''stale generation republish accepted=1 (expected 0) reason='']
                        | Inl e \<Rightarrow> line [''stale generation republish accepted=0 (expected 0) reason='', err_message e])) [])))"

definition nvidia_discovery_main :: "Nvml option \<Rightarrow> Cuda option \<Rightarrow> Outcome" where
  "nvidia_discovery_main nv cu =
     (let found = (case NvidiaBackend_initialize nv NvidiaBackend_new of
            (Inl e, nb) \<Rightarrow> line [''NVML unavailable: '', err_message e]
          | (Inr _, nb) \<Rightarrow>
              let cap = NvidiaBackend_capabilities nv in
              line [''backend='', bc_name cap, '' provenance='', Provenance_toString (bc_provenance cap),
                '' nvSwitchPresent='', flag (bc_nvSwitchPresent cap)]
              @ (case NvidiaBackend_scan nv nb of
                   Inl e \<Rightarrow> []
                 | Inr sc \<Rightarrow> concat (map (\<lambda>d. line [''  device '', id_string (dev_id d), '' '', dev_product d,
                     '' gen='', DeviceGeneration_toString (dev_generation d), '' prov='', Provenance_toString (dev_provenance d),
                     '' src='', EvidenceSource_toString (dev_source d)]) (sc_devices sc))));
          p = runCudaProof cu
      in Exit 0 (found @ line [''CUDA proof: present='', flag (cp_cudaPresent p), '' kernel='', flag (cp_kernel p),
           '' parity='', flag (cp_cpuParity p), '' count='', int_to_string (cp_deviceCount p),
           '' cc='', int_to_string (cp_major p), ''.'', int_to_string (cp_minor p)]) [])"

text \<open>The processes: \<open>argv\<close> has the program name first.\<close>

definition coordinator_main :: "Os \<Rightarrow> u64 \<Rightarrow> filesystem \<Rightarrow> string list \<Rightarrow> int + System" where
  "coordinator_main os now fs argv = coordinatorMain os now fs (tl argv)"

definition worker_main ::
    "Os \<Rightarrow> int list \<Rightarrow> int list \<Rightarrow> int list \<Rightarrow> int list \<Rightarrow> u64 \<Rightarrow> string list \<Rightarrow> (int option \<times> bytes) option" where
  "worker_main os ns1 ns2 ns3 ns4 now argv = workerMain os ns1 ns2 ns3 ns4 now (tl argv)"

section \<open>What they print\<close>

text \<open>Reachability stops at the boundary of a partition.\<close>

lemma inspection_output:
  "inspection_main clk = Exit 0
     (line [''provenance=SYNTHETIC partitions=2'']
      @ line [''  partition p0 gen=1 members=2 state=ACTIVE'']
      @ line [''  partition p1 gen=1 members=2 state=ACTIVE'']
      @ line [''reach(1->3)=PARTITION_BLOCKED (cross-partition)'']) []"
  by code_simp

lemma single_switch_output:
  "synthetic_single_switch_main clk = Exit 0
     (line [''topology devices=2 switches=1 ports=2 links=2 provenance=SYNTHETIC'']
      @ line [''reachability(1->2) = REACHABLE'']
      @ line [''paths=1'']
      @ line [''  path[src=1,dst=2]{sw=[(10;in=0;out=1;dev)]} state=UP'']
      @ line [''route outcome=ROUTE_ALLOWED authoritative=1'']
      @ line [''selected=path[src=1,dst=2]{sw=[(10;in=0;out=1;dev)]}'']) []"
  by code_simp

text \<open>Two queries select the same path, so the example reports itself deterministic.\<close>

lemma redundant_applies: "\<not> isl (fst (applyScenarioToRegistry TWO_SWITCH_REDUNDANT now FabricRegistry_new))"
  by code_simp

lemma redundant_deterministic:
  "\<exists>out. redundant_two_switch_main clk = Exit 0 (out @ line [''deterministic='', ''yes'']) []"
proof -
  obtain topo r where r: "applyScenarioToRegistry TWO_SWITCH_REDUNDANT (clk 0) FabricRegistry_new = (Inr topo, r)"
    using redundant_applies [of "clk 0"]
    by (cases "applyScenarioToRegistry TWO_SWITCH_REDUNDANT (clk 0) FabricRegistry_new"; cases "fst (applyScenarioToRegistry TWO_SWITCH_REDUNDANT (clk 0) FabricRegistry_new)") auto
  obtain d r1 where d: "route (MkId 1) (MkId 2) default_RoutePolicy (clk 1) r = (Inr d, r1)"
    using route_result by (metis prod.collapse)
  obtain d2 where d2: "fst (route (MkId 1) (MkId 2) default_RoutePolicy (clk 2) r1) = Inr d2"
    using route_result by blast
  have "r1 = snd (route (MkId 1) (MkId 2) default_RoutePolicy (clk 1) r)"
    unfolding d by simp
  then have "snapshot r1 = snapshot r" "r_measurements r1 = r_measurements r"
    by (simp_all add: route_def route_draw_def route_log_def snapshot_def Let_def split: sum.split)
  from route_selection [OF this _ d2, of "clk 1" d] have "selected_key d = selected_key d2"
    unfolding d by (simp add: selection_def selected_key_def)
  then show ?thesis
    unfolding redundant_two_switch_main_def r prod.case sum.case d d2 by simp
qed

text \<open>The governance example, on any registry whose query selects a path: when the failure of the first switch of the path
  is committed, the example prints that the old decision is not authoritative.\<close>

lemma selected_first_switch:
  assumes "computeRoute t src dst policy ms i g snap now epoch = Inr d" and "rd_selected d = Some sel"
  obtains s where "lookupSwitch t (hd (fp_switchSequence sel)) = Some s"
    "(hd (fp_switchSequence sel), sw_gen s) \<in> set (fp_switchGens sel)"
proof -
  obtain p where p: "p \<in> set (enumeratePaths t src dst (route_config policy))" "path_eligible t policy p" "sel = annotate t p"
    using computeRoute_selected [OF assms] by metis
  then have "fabric_route t (route_config policy) src dst (fp_links p) (fp_switchSequence p)"
    using enumeratePaths_path_ok by (simp add: path_ok_def)
  then have "fp_switchSequence p \<noteq> []"
    unfolding fabric_route_def using switch_walk_nonempty by blast
  then have h: "hd (fp_switchSequence p) \<in> set (fp_switchSequence p)"
    by simp
  then obtain s where s: "lookupSwitch t (hd (fp_switchSequence p)) = Some s"
    using p(2) by (auto simp: path_eligible_def switches_current_def list_all_iff split: option.splits)
  moreover have "(hd (fp_switchSequence p), sw_gen s) \<in> set (captured_switchGens t p)"
    using h s by (auto simp: captured_switchGens_def intro!: bexI [of _ "hd (fp_switchSequence p)"])
  ultimately show ?thesis
    using that p(3) by simp
qed

lemma route_snapshot [simp]: "r_current (snd (route src dst policy now r)) = r_current r"
  by (simp add: route_def route_draw_def route_log_def Let_def split: sum.split)

lemma governance_failure_revokes:
  assumes "reg_inv r" and "route (MkId 1) (MkId 2) default_RoutePolicy now r = (Inr d, r1)" and "rd_selected d = Some sel"
    and "fst (setSwitchState (hd (fp_switchSequence sel)) EntityState.DOWN (clk 2) r1) = Inr topo"
  shows "\<exists>out r2. governance_failure clk d r1 = Some (out @ line [''old decision still authoritative='', ''0''], r2)"
proof -
  let ?i = "hd (fp_switchSequence sel)" and ?r2 = "snd (setSwitchState (hd (fp_switchSequence sel)) EntityState.DOWN (clk 2) r1)"
  have r1: "r_current r1 = r_current r" "reg_inv r1"
    using route_snapshot [of "MkId 1" "MkId 2" default_RoutePolicy now r]
      reg_inv_route [OF assms(1), of "MkId 1" "MkId 2" default_RoutePolicy now] by (simp_all only: assms(2) snd_conv)
  obtain e where "computeRoute (r_current r) (MkId 1) (MkId 2) default_RoutePolicy (Some (r_measurements r))
      (MkId (r_nextDecisionId r)) (MkGen 0) (MkStringId (''snap'' @ u64_to_string (t_id (r_current r)))) now (r_epoch r) = Inr e"
    "rd_selected e = Some sel"
    using assms(2,3) by (auto simp: route_def route_read_def route_draw_def route_compute_def Let_def split: sum.splits)
  then obtain s where s: "lookupSwitch (r_current r) ?i = Some s" "(?i, sw_gen s) \<in> set (fp_switchGens sel)"
    using selected_first_switch by blast
  have "overtaken (r_current ?r2) ?i (sw_gen s)"
    using setSwitchState_overtakes [OF r1(2) assms(4) _ s(1) [folded r1(1)]] by (simp add: switch_failing_def)
  then have "\<not> routeDecisionStillAuthoritative d (r_current ?r2)"
    using overtaken_revokes assms(3) s(2) by blast
  moreover obtain d2 r3 where r3: "route (MkId 1) (MkId 2) default_RoutePolicy (clk 3) ?r2 = (Inr d2, r3)"
    using route_result by (metis prod.collapse)
  moreover have "r_current r3 = r_current ?r2"
    using route_snapshot [of "MkId 1" "MkId 2" default_RoutePolicy "clk 3" ?r2] by (simp only: r3 snd_conv)
  ultimately have "\<not> decisionStillAuthoritative r3 d"
    by (simp add: decisionStillAuthoritative_def snapshot_def)
  then show ?thesis
    unfolding governance_failure_def assms(3) option.case Let_def r3 prod.case sum.case by (simp add: flag_def)
qed

text \<open>The stale generation is refused by every registry that has the switch with a generation above 0.\<close>

lemma stale_bulk_refused:
  assumes "reg_inv r" and "lookupSwitch (r_current r) (MkId 10) = Some s" and "MkGen 0 < sw_gen s"
  shows "isl (fst (applyBulk stale_bulk now r))"
proof (rule ccontr)
  assume "\<not> isl (fst (applyBulk stale_bulk now r))"
  then obtain t where "fst (transact_with ''bulk rejected: '' (applyBulk_edit stale_bulk) now r) = Inr t"
    unfolding applyBulk_def by (metis sum.collapse(2))
  then obtain cand where c: "applyBulk_edit stale_bulk (r_current r) = Inr cand"
    "candidate_problem (r_current r) (finalizeProvenance cand) = None"
    by (rule committed_snapshot)
  have "om_find (t_switches cand) (MkId 10) = Some ((makeSyntheticSwitch (MkId 10) ''SynthSwitch-1'' 2)\<lparr>sw_gen := MkGen 0\<rparr>)"
    using c(1) by (auto simp: applyBulk_edit_def stale_bulk_def om_insert_all_def makeSyntheticSwitch_def bump_def)
  moreover have "gens_monotone (r_current r) cand"
    using c applyBulk.edit_wf [OF reg_inv_wf [OF assms(1)] c(1)] by (simp add: candidate_problem_None)
  ultimately have "sw_gen s \<le> MkGen 0"
    using assms(2) by (fastforce simp: gens_monotone_def gens_le_def lookupSwitch_def)
  then show False
    using assms(3) by simp
qed

text \<open>Without NVML and CUDA the discovery program reports nothing as present, and it never fails.\<close>

lemma discovery_absent_output:
  "nvidia_discovery_main None None = Exit 0
     (line [''NVML unavailable: NVML not available'']
      @ line [''CUDA proof: present=0 kernel=0 parity=0 count=0 cc=0.0'']) []"
  by code_simp

lemma discovery_exit_code: "\<exists>out. nvidia_discovery_main nv cu = Exit 0 out []"
  by (simp add: nvidia_discovery_main_def Let_def)

end
