(* ===== verification/Spec2Isabelle.thy ===== *)
theory Spec2Isabelle
  imports Fabric_Reachability Fabric_Lifecycle Fabric_Concurrency Fabric_Writers Fabric_Sockets Fabric_Examples
begin

text \<open>
  A verification development of NVSwitch Fabric, a C++ runtime that keeps the state of a switched
  accelerator fabric and decides which communication it authorises.

  \<^bold>\<open>The program.\<close> A \<open>FabricTopology\<close> is an immutable snapshot: devices, switches, ports, links
  and partitions in ordered dictionaries, with generations and provenance. It enumerates paths,
  answers reachability and health, and checks its own integrity (\<open>src/src/topology.cpp\<close>). Route
  governance (\<open>route.cpp\<close>) filters and ranks the enumerated paths under a policy, and later
  re-checks whether a decision is still authoritative. The \<open>FabricRegistry\<close>
  (\<open>fabric_registry.cpp\<close>) owns the current snapshot and changes it by transactions: copy, edit,
  validate, publish. Backends feed it: a synthetic one, and NVML. Persistence writes a snapshot to
  a file and reads it back. At run time workers send framed messages over TCP to a coordinator,
  which fences a worker's evidence when its connection ends. A command line tool inspects a
  registry.

  \<^bold>\<open>The theories, in the order of the code.\<close>
  \<^item> \<open>Fabric_Prelude\<close>: machine integers, \<open>std::map\<close> as an ordered association list with its
    invariant, comparator sorting (locale \<open>strict_weak_order\<close>), decimal printing.
  \<^item> \<open>Fabric_Identity\<close>, \<open>Fabric_State\<close>, \<open>Fabric_Records\<close>: \<open>identity.h\<close>, \<open>generation.h\<close>, \<open>limits.h\<close>,
    \<open>state.h\<close>, \<open>provenance.h\<close>, \<open>error.h\<close>, \<open>records.h\<close>, \<open>evidence.h\<close>, \<open>path.h\<close>. Identities and generations
    keep their 64-bit width; an enumeration has an extra constructor for a byte that is no enumerator.
  \<^item> \<open>Fabric_Topology\<close>: \<open>topology.cpp\<close>. The search of \<open>enumeratePaths\<close> is a function with a
    termination proof (the unvisited switches bound what a partial path can still become).
    \<open>Fabric_Paths\<close> relates it to walks in the topology: soundness, completeness, bounds.
    \<open>Fabric_Integrity\<close> and \<open>Fabric_Reachability\<close> characterise \<open>checkIntegrity\<close>, \<open>deviceReachability\<close>
    and \<open>fabricHealth\<close>.
  \<^item> \<open>Fabric_Route\<close>: \<open>route.cpp\<close>. A \<open>double\<close> is its bit pattern or, where the ranking compares values, the
    real number it rounds to. \<open>Fabric_Governance\<close> shows that the decision is sound, least in the
    ranking and inside one partition, and when a fresh decision is authoritative.
  \<^item> \<open>Fabric_Synthetic\<close>: \<open>synthetic_backend.cpp\<close>, all scenarios; they are the inputs of the witnesses.
  \<^item> \<open>Fabric_Registry\<close>: \<open>fabric_registry.cpp\<close>, one edit and one operation per mutation.
    \<open>Fabric_Transactions\<close> states the contract of an edit (locales \<open>registry_edit\<close> and \<open>bumping_edit\<close>,
    interpreted on every edit) and proves the invariant of all reachable registries.
    \<open>Fabric_Authority\<close> shows when decisions are revoked, and that a revocation is permanent;
    \<open>Fabric_Determinism\<close> that insertion order and repetition do not change a result.
    \<open>Fabric_Concurrency\<close> lets threads interleave on one registry at the grain of its critical sections: the
    registry still goes through the states of a sequential run of its mutations, a query is answered for a
    snapshot that was current, and a revocation reaches decisions still being computed.
  \<^item> \<open>Fabric_Wire\<close>: \<open>wire.cpp\<close>, the CRC-32 and the byte reader and writer, with interfaces for parsers
    and codecs. \<open>Fabric_Persistence\<close>: \<open>persistence.cpp\<close>, the codec of every record, the file
    format, and the replacement of a file as a sequence of file system steps that may stop anywhere.
    \<open>Fabric_Writers\<close> refines it to operating system calls on files and directory entries, and shows what two
    writers of one path can do to each other.
    \<open>Fabric_Transport\<close>: \<open>transport.cpp\<close>, frames, the stream reader and the socket object;
    \<open>Fabric_Sockets\<close>: moving and destroying socket objects, and who owns a descriptor.
    \<open>Fabric_Messages\<close>: the payloads of the run-time messages.
  \<^item> \<open>Fabric_Coordinator\<close>: \<open>coordinator.cpp\<close> as a transition system. The local variables of a connection
    thread are a record, an event is one accepted connection, one received chunk or one handled
    frame, and events of different connections interleave arbitrarily. The contract of a message
    handler is the locale \<open>frame_handler\<close>. \<open>Fabric_Coordination\<close> has its properties,
    \<open>Fabric_Worker\<close> the worker (\<open>worker.cpp\<close>) and the conversation of both ends,
    \<open>Fabric_Lifecycle\<close> the stop of a coordinator, \<open>Fabric_Restart\<close> its restart from a file.
  \<^item> \<open>Fabric_Hardware\<close>: the NVML backend and the CUDA proof; the locale \<open>fabric_backend\<close> is the
    interface of a backend, interpreted on the synthetic and on the NVML backend.
  \<^item> \<open>Fabric_Tools\<close>: the inspection tool and the entries of the coordinator and worker processes;
    \<open>Fabric_Examples\<close>: the example programs and what they print.

  \<^bold>\<open>How code corresponds to definitions.\<close> A class is a record, a method a function on it that returns
  the result and the new record; \<open>Result<T>\<close> is a sum with the error on the left. The clock
  is an argument. An operation on the file system maps a dictionary from paths to contents. The
  results of operating system calls, of NVML and of the CUDA runtime are arguments: a record of answers,
  or the list of the results of successive \<open>send\<close> and \<open>recv\<close> calls. A call that waits for more than
  such a list offers is \<open>None\<close>; \<open>sendAll_completes\<close> and the end-to-end theorems say which
  lists suffice. No definition uses fuel.

  \<^bold>\<open>The grain of concurrency.\<close> A critical section is one step. In the coordinator one handled frame is one step,
  although a handler reads the epoch before it takes a lock, \<open>QUERY_ROUTE\<close> takes the lock of the registry three times, and
  \<open>PUBLISH_TOPOLOGY\<close> writes a file after it has released it; the finer steps of the last two are those of \<open>Fabric_Concurrency\<close> and
  \<open>Fabric_Writers\<close>. The fields \<open>epoch_\<close> and \<open>version_\<close>, which the code reads without a lock, are read atomically here.

  \<^bold>\<open>Not modelled.\<close> The memory model below the locks, socket options, the initialisation of Winsock, and the benchmark, which
  prints how long operations take. Tests are not part of the program. Two helpers of \<open>topology.cpp\<close>, \<open>fmt\<close> and \<open>fmtPort\<close>, are
  never called.
\<close>

end
